(* ===== verification/Prelude.thy ===== *)
theory Prelude
  imports Main "HOL-Library.Word" "HOL-Library.Sublist"
begin

section \<open>Prelude: Go errors, effects, strings\<close>

text \<open>
  What every component shares: Go's error values, the outcome of a call (a result, an
  error value, or a panic), programs as state-passing functions over a world that records
  every interaction with the environment, and the few functions of Go's standard library
  on strings the sources use. The collections \<open>prog_simps\<close> (unfolding of the
  program combinators) and \<open>emits_intros\<close> (which interactions a program can make) carry
  most component proofs.
\<close>

named_theorems prog_simps
named_theorems emits_intros

subsection \<open>Errors\<close>

text \<open>
  An \<open>error\<close> value. The code tells errors apart only by \<open>errors.IsNotFound\<close>;
  the other constructors keep how the error was made: an error handed back by a library or a
  server, one built by \<open>fmt.Errorf\<close> (format and arguments, not rendered), and
  an aggregate.
\<close>

datatype go_error =
    NotFound string
  | ApiError string
  | Errorf string "fmt_arg list"
  | Aggregate "go_error list"
and fmt_arg = AStr string | AInt int | AErr go_error | AStrs "string list"

definition IsNotFound :: "go_error \<Rightarrow> bool" where
  "IsNotFound e = (case e of NotFound _ \<Rightarrow> True | _ \<Rightarrow> False)"

lemma IsNotFound_simps [simp]:
  "IsNotFound (NotFound s)" "\<not> IsNotFound (ApiError s)"
  "\<not> IsNotFound (Errorf s as)" "\<not> IsNotFound (Aggregate es)"
  by (simp_all add: IsNotFound_def)

text \<open>\<open>utilerrors.NewAggregate\<close>: nil errors are dropped; with none left the result is nil.\<close>

definition NewAggregate :: "go_error option list \<Rightarrow> go_error option" where
  "NewAggregate errlist =
     (let errs = List.map_filter id errlist in if errs = [] then None else Some (Aggregate errs))"

lemma map_filter_id_Nil: "List.map_filter id xs = [] \<longleftrightarrow> (\<forall>x \<in> set xs. x = None)"
  by (induction xs) (auto simp: List.map_filter_def)

lemma NewAggregate_None: "NewAggregate es = None \<longleftrightarrow> (\<forall>e \<in> set es. e = None)"
  by (simp add: NewAggregate_def Let_def map_filter_id_Nil)

lemma NewAggregate_Some:
  "NewAggregate es = Some e \<longleftrightarrow> e = Aggregate (List.map_filter id es) \<and> (\<exists>x \<in> set es. x \<noteq> None)"
  by (auto simp: NewAggregate_def Let_def map_filter_id_Nil)

subsection \<open>Outcomes and programs\<close>

text \<open>
  A Go function that returns \<open>(T, error)\<close> ends with a value, with a non-nil error,
  or by a panic. A program takes the world and returns its outcome and the new world.
\<close>

datatype 'a outcome = Ok 'a | Err go_error | Panic string

type_synonym ('w, 'a) prog = "'w \<Rightarrow> 'a outcome \<times> 'w"

text \<open>
  The world of a controller: the interactions made so far, oldest first, and the controller's
  own in-memory state.
\<close>

record ('c, 's) world =
  calls :: "'c list"
  ctl :: 's

definition ret :: "'a \<Rightarrow> ('w, 'a) prog" where
  [prog_simps]: "ret x = (\<lambda>w. (Ok x, w))"

definition fail :: "go_error \<Rightarrow> ('w, 'a) prog" where
  [prog_simps]: "fail e = (\<lambda>w. (Err e, w))"

definition panic :: "string \<Rightarrow> ('w, 'a) prog" where
  [prog_simps]: "panic s = (\<lambda>w. (Panic s, w))"

text \<open>\<open>tryP m h k\<close>: run \<open>m\<close>; \<open>h\<close> gets a non-nil error, \<open>k\<close> the result; a panic unwinds.\<close>

definition tryP :: "('w, 'a) prog \<Rightarrow> (go_error \<Rightarrow> ('w, 'b) prog) \<Rightarrow> ('a \<Rightarrow> ('w, 'b) prog) \<Rightarrow> ('w, 'b) prog" where
  [prog_simps]: "tryP m h k = (\<lambda>w. case m w of
      (Ok x, w') \<Rightarrow> k x w'
    | (Err e, w') \<Rightarrow> h e w'
    | (Panic s, w') \<Rightarrow> (Panic s, w'))"

text \<open>\<open>if err != nil { return err }\<close>\<close>

definition andThen :: "('w, 'a) prog \<Rightarrow> ('a \<Rightarrow> ('w, 'b) prog) \<Rightarrow> ('w, 'b) prog" where
  [prog_simps]: "andThen m k = tryP m fail k"

definition ofSum :: "go_error + 'a \<Rightarrow> ('w, 'a) prog" where
  [prog_simps]: "ofSum r = (case r of Inl e \<Rightarrow> fail e | Inr x \<Rightarrow> ret x)"

definition ofErr :: "go_error option \<Rightarrow> ('w, unit) prog" where
  [prog_simps]: "ofErr r = (case r of Some e \<Rightarrow> fail e | None \<Rightarrow> ret ())"

definition ofOutcome :: "'a outcome \<Rightarrow> ('w, 'a) prog" where
  [prog_simps]: "ofOutcome r = (\<lambda>w. (r, w))"

text \<open>The error value of a call whose result is dropped: \<open>_, err := f()\<close>.\<close>

definition errOf :: "('w, 'a) prog \<Rightarrow> ('w, go_error option) prog" where
  [prog_simps]: "errOf m = tryP m (\<lambda>e. ret (Some e)) (\<lambda>_. ret None)"

definition getS :: "(('c, 's) world, 's) prog" where
  [prog_simps]: "getS = (\<lambda>w. (Ok (ctl w), w))"

definition modifyS :: "('s \<Rightarrow> 's) \<Rightarrow> (('c, 's) world, unit) prog" where
  [prog_simps]: "modifyS f = (\<lambda>w. (Ok (), w\<lparr>ctl := f (ctl w)\<rparr>))"

text \<open>
  One interaction: it is recorded, and answered by a function of the whole history before it,
  so that the answers of servers, caches, files and clocks are arbitrary.
\<close>

definition perform :: "'c \<Rightarrow> ('c list \<Rightarrow> go_error + 'a) \<Rightarrow> (('c, 's) world, 'a) prog" where
  [prog_simps]: "perform c f = (\<lambda>w. ((case f (calls w) of Inl e \<Rightarrow> Err e | Inr x \<Rightarrow> Ok x),
     w\<lparr>calls := calls w @ [c]\<rparr>))"

lemma perform_Ok: "fst (perform c f w) = Ok x \<Longrightarrow> f (calls w) = Inr x"
  by (auto simp: perform_def split: sum.splits)

lemma ofSum_Ok: "fst (ofSum r w) = Ok x \<Longrightarrow> r = Inr x"
  and ofOutcome_Ok: "fst (ofOutcome q w) = Ok y \<Longrightarrow> q = Ok y"
  by (auto simp: ofSum_def ofOutcome_def fail_def ret_def split: sum.splits)

text \<open>An interaction that only has an effect (starting a goroutine, recording an event).\<close>

definition emit :: "'c \<Rightarrow> (('c, 's) world, unit) prog" where
  [prog_simps]: "emit c = perform c (\<lambda>_. Inr ())"

fun forEach :: "'a list \<Rightarrow> ('a \<Rightarrow> ('w, 'b) prog) \<Rightarrow> ('w, 'b list) prog" where
  "forEach [] f = ret []"
| "forEach (x # xs) f = andThen (f x) (\<lambda>y. andThen (forEach xs f) (\<lambda>ys. ret (y # ys)))"

subsection \<open>Which interactions a program makes\<close>

text \<open>
  \<open>emits P I m\<close>: from a world whose controller state satisfies \<open>I\<close>, the program \<open>m\<close> only
  appends interactions that satisfy \<open>P\<close>, and leaves a state satisfying \<open>I\<close>, however it ends.
\<close>

definition emits :: "('c \<Rightarrow> bool) \<Rightarrow> ('s \<Rightarrow> bool) \<Rightarrow> (('c, 's) world, 'a) prog \<Rightarrow> bool" where
  "emits P I m \<longleftrightarrow> (\<forall>w. I (ctl w) \<longrightarrow>
     (\<exists>cs. calls (snd (m w)) = calls w @ cs \<and> (\<forall>c \<in> set cs. P c)) \<and> I (ctl (snd (m w))))"

lemma emitsD:
  assumes "emits P I m" and "I (ctl w)"
  obtains cs where "calls (snd (m w)) = calls w @ cs" "\<forall>c \<in> set cs. P c" "I (ctl (snd (m w)))"
  using assms by (auto simp: emits_def)

lemma emits_ret [emits_intros]: "emits P I (ret x)"
  and emits_fail [emits_intros]: "emits P I (fail e)"
  and emits_panic [emits_intros]: "emits P I (panic s)"
  and emits_getS [emits_intros]: "emits P I getS"
  by (auto simp: emits_def prog_simps)

lemma emits_perform [emits_intros]: "P c \<Longrightarrow> emits P I (perform c f)"
  by (auto simp: emits_def prog_simps)

lemma emits_emit [emits_intros]: "P c \<Longrightarrow> emits P I (emit c)"
  by (simp add: emit_def emits_perform)

lemma emits_modifyS [emits_intros]: "(\<And>s. I s \<Longrightarrow> I (f s)) \<Longrightarrow> emits P I (modifyS f)"
  by (auto simp: emits_def prog_simps)

text \<open>The continuation only matters for the outcomes its program can have.\<close>

lemma emits_tryP_outcome:
  assumes m: "emits P I m"
    and h: "\<And>e w. I (ctl w) \<Longrightarrow> fst (m w) = Err e \<Longrightarrow> emits P I (h e)"
    and k: "\<And>x w. I (ctl w) \<Longrightarrow> fst (m w) = Ok x \<Longrightarrow> emits P I (k x)"
  shows "emits P I (tryP m h k)"
  unfolding emits_def
proof (intro allI impI)
  fix w :: "('a, 'b) world"
  assume I: "I (ctl w)"
  obtain r w' where mw: "m w = (r, w')" by fastforce
  from m I mw obtain cs where cs: "calls w' = calls w @ cs" "\<forall>c \<in> set cs. P c" and I': "I (ctl w')"
    by (auto elim: emitsD)
  have "\<exists>cs'. calls (snd (tryP m h k w)) = calls w' @ cs' \<and> (\<forall>c \<in> set cs'. P c)
      \<and> I (ctl (snd (tryP m h k w)))"
  proof (cases r)
    case (Ok x)
    with k [OF I, of x] mw I' show ?thesis by (auto simp: tryP_def emits_def)
  next
    case (Err e)
    with h [OF I, of e] mw I' show ?thesis by (auto simp: tryP_def emits_def)
  qed (use I' mw in \<open>auto simp: tryP_def\<close>)
  with cs show "(\<exists>cs. calls (snd (tryP m h k w)) = calls w @ cs \<and> (\<forall>c \<in> set cs. P c))
      \<and> I (ctl (snd (tryP m h k w)))"
    by force
qed

lemma emits_tryP [emits_intros]:
  "emits P I m \<Longrightarrow> (\<And>e. emits P I (h e)) \<Longrightarrow> (\<And>x. emits P I (k x)) \<Longrightarrow> emits P I (tryP m h k)"
  by (rule emits_tryP_outcome)

lemma emits_andThen_outcome:
  "emits P I m \<Longrightarrow> (\<And>x w. I (ctl w) \<Longrightarrow> fst (m w) = Ok x \<Longrightarrow> emits P I (k x)) \<Longrightarrow>
     emits P I (andThen m k)"
  unfolding andThen_def by (rule emits_tryP_outcome) (auto intro: emits_fail)

lemma emits_andThen [emits_intros]:
  "emits P I m \<Longrightarrow> (\<And>x. emits P I (k x)) \<Longrightarrow> emits P I (andThen m k)"
  by (auto simp: andThen_def intro: emits_intros)

lemma emits_andThen_fst:
  "emits P I m \<Longrightarrow> (\<And>x w. fst (m w) = Ok x \<Longrightarrow> emits P I (k x)) \<Longrightarrow> emits P I (andThen m k)"
  by (rule emits_andThen_outcome)

lemma emits_getS_bind: "(\<And>s. I s \<Longrightarrow> emits P I (k s)) \<Longrightarrow> emits P I (andThen getS k)"
  by (rule emits_andThen_outcome) (auto simp: getS_def intro: emits_getS [unfolded getS_def])

lemma emits_ofSum [emits_intros]: "emits P I (ofSum r)"
  by (auto simp: ofSum_def intro: emits_intros split: sum.split)

lemma emits_ofErr [emits_intros]: "emits P I (ofErr r)"
  by (auto simp: ofErr_def intro: emits_intros split: option.split)

lemma emits_ofOutcome [emits_intros]: "emits P I (ofOutcome r)"
  by (simp add: ofOutcome_def emits_def)

lemma emits_errOf [emits_intros]: "emits P I m \<Longrightarrow> emits P I (errOf m)"
  by (auto simp: errOf_def intro: emits_intros)

lemma emits_forEach [emits_intros]:
  "(\<And>x. x \<in> set xs \<Longrightarrow> emits P I (f x)) \<Longrightarrow> emits P I (forEach xs f)"
  by (induction xs) (auto intro!: emits_intros)

lemma emits_if [emits_intros]:
  "(b \<Longrightarrow> emits P I m) \<Longrightarrow> (\<not> b \<Longrightarrow> emits P I m') \<Longrightarrow> emits P I (if b then m else m')"
  by simp

lemma emits_mono: "emits P I m \<Longrightarrow> (\<And>c. P c \<Longrightarrow> Q c) \<Longrightarrow> emits Q I m"
  unfolding emits_def by blast

lemma emits_frame: "(\<And>s0. emits P (\<lambda>s. s = s0) m) \<Longrightarrow> emits P I m"
  unfolding emits_def by metis

lemma emits_calls:
  assumes "emits P I m" and "I (ctl w)"
  shows "c \<in> set (calls (snd (m w))) \<Longrightarrow> c \<in> set (calls w) \<or> P c"
  using assms by (auto elim!: emitsD)

subsection \<open>Where a program leads\<close>

text \<open>
  \<open>leads A B m\<close>: from a world that satisfies \<open>A\<close> the program ends in one that satisfies \<open>B\<close>,
  however it ends. The rules are for a program whose last part leads from \<open>A\<close> to \<open>B\<close> and whose
  other parts keep \<open>A\<close>.
\<close>

definition leads :: "('w \<Rightarrow> bool) \<Rightarrow> ('w \<Rightarrow> bool) \<Rightarrow> ('w, 'a) prog \<Rightarrow> bool" where
  "leads A B m \<longleftrightarrow> (\<forall>w. A w \<longrightarrow> B (snd (m w)))"

lemma leadsD: "leads A B m \<Longrightarrow> A w \<Longrightarrow> B (snd (m w))"
  by (simp add: leads_def)

lemma leads_pure:
  assumes "\<And>w. A w \<Longrightarrow> B w"
  shows "leads A B (ret x)" "leads A B (fail e)" "leads A B (ofOutcome r)"
  using assms by (simp_all add: leads_def prog_simps)

lemma leads_tryP_outcome:
  assumes m: "leads A A m" and AB: "\<And>w. A w \<Longrightarrow> B w"
    and h: "\<And>e w. A w \<Longrightarrow> fst (m w) = Err e \<Longrightarrow> leads A B (h e)"
    and k: "\<And>x w. A w \<Longrightarrow> fst (m w) = Ok x \<Longrightarrow> leads A B (k x)"
  shows "leads A B (tryP m h k)"
  unfolding leads_def
proof (intro allI impI)
  fix w
  assume A: "A w"
  obtain r w' where mw: "m w = (r, w')" by fastforce
  with m A have "A w'" by (auto dest: leadsD)
  with mw A AB h [OF A] k [OF A] show "B (snd (tryP m h k w))"
    by (cases r) (auto simp: tryP_def dest: leadsD)
qed

lemma leads_andThen_outcome:
  assumes "leads A A m" "\<And>w. A w \<Longrightarrow> B w"
    and "\<And>x w. A w \<Longrightarrow> fst (m w) = Ok x \<Longrightarrow> leads A B (k x)"
  shows "leads A B (andThen m k)"
  unfolding andThen_def using assms by (intro leads_tryP_outcome leads_pure)

lemma leads_if:
  "(b \<Longrightarrow> leads A B m) \<Longrightarrow> (\<not> b \<Longrightarrow> leads A B m') \<Longrightarrow> leads A B (if b then m else m')"
  by simp

lemma leads_getS_bind:
  assumes "\<And>w. A w \<Longrightarrow> leads A B (k (ctl w))"
  shows "leads A B (andThen getS k)"
  using assms by (simp add: leads_def prog_simps)

abbreviation keeps :: "('w \<Rightarrow> bool) \<Rightarrow> ('w, 'a) prog \<Rightarrow> bool" where
  "keeps W \<equiv> leads W W"

subsection \<open>Programs that do not panic\<close>

text \<open>
  \<open>safe I m\<close>: from a world whose controller state satisfies \<open>I\<close>, the program ends with a result or an
  error, never by a panic, and the state satisfies \<open>I\<close> again.
\<close>

definition safe :: "('s \<Rightarrow> bool) \<Rightarrow> (('c, 's) world, 'a) prog \<Rightarrow> bool" where
  "safe I m \<longleftrightarrow> (\<forall>w. I (ctl w) \<longrightarrow> (\<forall>s. fst (m w) \<noteq> Panic s) \<and> I (ctl (snd (m w))))"

named_theorems safe_intros

lemma safeD: "safe I m \<Longrightarrow> I (ctl w) \<Longrightarrow> fst (m w) \<noteq> Panic s"
  by (simp add: safe_def)

lemma ofOutcome_bind: "andThen (ofOutcome (Ok x)) k = k x"
  by (simp add: andThen_def tryP_def ofOutcome_def)

lemma safe_ret [safe_intros]: "safe I (ret x)"
  and safe_fail [safe_intros]: "safe I (fail e)"
  and safe_ofSum [safe_intros]: "safe I (ofSum r)"
  and safe_ofErr [safe_intros]: "safe I (ofErr q)"
  and safe_perform [safe_intros]: "safe I (perform c f)"
  and safe_emit [safe_intros]: "safe I (emit c)"
  by (simp_all add: safe_def prog_simps split: sum.split option.split)

lemma safe_ofOutcome [safe_intros]: "(\<And>s. r \<noteq> Panic s) \<Longrightarrow> safe I (ofOutcome r)"
  and safe_modifyS [safe_intros]: "(\<And>s. I s \<Longrightarrow> I (g s)) \<Longrightarrow> safe I (modifyS g)"
  by (simp_all add: safe_def prog_simps)

lemma safe_tryP_outcome:
  fixes I :: "'s \<Rightarrow> bool" and m :: "(('c, 's) world, 'a) prog"
  assumes "safe I m" and h: "\<And>e w. I (ctl w) \<Longrightarrow> fst (m w) = Err e \<Longrightarrow> safe I (h e)"
    and k: "\<And>x w. I (ctl w) \<Longrightarrow> fst (m w) = Ok x \<Longrightarrow> safe I (k x)"
  shows "safe I (tryP m h k)"
  unfolding safe_def
proof (rule allI, rule impI)
  fix w :: "('c, 's) world"
  assume I: "I (ctl w)"
  obtain r w' where mw: "m w = (r, w')" by fastforce
  with assms(1) I have "I (ctl w')" "\<forall>s. r \<noteq> Panic s" by (auto simp: safe_def)
  with mw h [OF I] k [OF I] show "(\<forall>s. fst (tryP m h k w) \<noteq> Panic s) \<and> I (ctl (snd (tryP m h k w)))"
    by (cases r) (auto simp: tryP_def safe_def)
qed

lemma safe_tryP [safe_intros]:
  "safe I m \<Longrightarrow> (\<And>e. safe I (h e)) \<Longrightarrow> (\<And>x. safe I (k x)) \<Longrightarrow> safe I (tryP m h k)"
  by (rule safe_tryP_outcome)

lemma safe_andThen_outcome:
  "safe I m \<Longrightarrow> (\<And>x w. I (ctl w) \<Longrightarrow> fst (m w) = Ok x \<Longrightarrow> safe I (k x)) \<Longrightarrow> safe I (andThen m k)"
  unfolding andThen_def by (rule safe_tryP_outcome) (auto intro: safe_fail)

lemma safe_andThen [safe_intros]: "safe I m \<Longrightarrow> (\<And>x. safe I (k x)) \<Longrightarrow> safe I (andThen m k)"
  by (rule safe_andThen_outcome)

lemma safe_getS_bind: "(\<And>s. I s \<Longrightarrow> safe I (k s)) \<Longrightarrow> safe I (andThen getS k)"
  by (rule safe_andThen_outcome) (auto simp: getS_def safe_def)

lemma safe_errOf [safe_intros]: "safe I m \<Longrightarrow> safe I (errOf m)"
  by (auto simp: errOf_def intro: safe_intros)

lemma safe_if [safe_intros]:
  "(b \<Longrightarrow> safe I m) \<Longrightarrow> (\<not> b \<Longrightarrow> safe I m') \<Longrightarrow> safe I (if b then m else m')"
  by simp

lemma safe_forEach [safe_intros]:
  "(\<And>x. x \<in> set xs \<Longrightarrow> safe I (f x)) \<Longrightarrow> safe I (forEach xs f)"
  by (induction xs) (auto intro!: safe_intros)

lemma emits_const: "emits P I m \<Longrightarrow> emits P (\<lambda>s. I s \<and> K) m"
  by (auto simp: emits_def)

subsection \<open>Strings\<close>

text \<open>\<open>strings.Split\<close> with a one-character separator: never the empty slice.\<close>

fun split_on :: "char \<Rightarrow> string \<Rightarrow> string list" where
  "split_on c [] = [[]]"
| "split_on c (x # xs) =
     (if x = c then [] # split_on c xs
      else (case split_on c xs of [] \<Rightarrow> [[x]] | y # ys \<Rightarrow> (x # y) # ys))"

lemma split_on_not_Nil [simp]: "split_on c s \<noteq> []"
  by (induction s) (auto split: list.split)

lemma split_on_no_sep: "c \<notin> set s \<Longrightarrow> split_on c s = [s]"
  by (induction s) auto

lemma split_on_append: "c \<notin> set s \<Longrightarrow> split_on c (s @ c # t) = s # split_on c t"
  by (induction s) auto

lemma length_split_on: "length (split_on c s) = Suc (count_list s c)"
proof (induction s)
  case (Cons x s)
  then show ?case by (cases "split_on c s") auto
qed simp

text \<open>\<open>strings.Join\<close>\<close>

fun join :: "string \<Rightarrow> string list \<Rightarrow> string" where
  "join sep [] = []"
| "join sep [s] = s"
| "join sep (s # ss) = s @ sep @ join sep ss"

lemma join_split_on: "join [c] (split_on c s) = s"
proof (induction s)
  case (Cons x s)
  then show ?case
    by (cases "split_on c s"; cases "tl (split_on c s)") auto
qed simp

text \<open>Decimal digits, as \<open>%d\<close> and a template print an integer.\<close>

definition digit_char :: "nat \<Rightarrow> char" where
  "digit_char d = char_of (48 + d)"

fun nat_to_string :: "nat \<Rightarrow> string" where
  "nat_to_string n = (if n < 10 then [digit_char n] else nat_to_string (n div 10) @ [digit_char (n mod 10)])"

declare nat_to_string.simps [simp del]

definition int_to_string :: "int \<Rightarrow> string" where
  "int_to_string i = (if i < 0 then ''-'' @ nat_to_string (nat (- i)) else nat_to_string (nat i))"

text \<open>\<^verbatim>\<open>base64.StdEncoding.EncodeToString\<close>\<close>

definition base64_char :: "nat \<Rightarrow> char" where
  "base64_char n =
     (if n < 26 then char_of (65 + n) else if n < 52 then char_of (71 + n)
      else if n < 62 then char_of (n - 4) else if n = 62 then CHR ''+'' else CHR ''/'')"

fun base64 :: "string \<Rightarrow> string" where
  "base64 [] = []"
| "base64 [x] = (let a = of_char x :: nat in
     [base64_char (a div 4), base64_char (a mod 4 * 16), CHR ''='', CHR ''=''])"
| "base64 [x, y] = (let a = of_char x :: nat; b = of_char y in
     [base64_char (a div 4), base64_char (a mod 4 * 16 + b div 16),
      base64_char (b mod 16 * 4), CHR ''=''])"
| "base64 (x # y # z # s) = (let a = of_char x :: nat; b = of_char y; c = of_char z in
     [base64_char (a div 4), base64_char (a mod 4 * 16 + b div 16),
      base64_char (b mod 16 * 4 + c div 64), base64_char (c mod 64)] @ base64 s)"

lemma base64_length: "length (base64 s) = 4 * ((length s + 2) div 3)"
proof (induction s rule: base64.induct)
  case (4 x y z s)
  have "(length (x # y # z # s) + 2) div 3 = Suc ((length s + 2) div 3)" by simp
  with 4 show ?case by (simp add: Let_def)
qed (simp_all add: Let_def)

text \<open>The decoder of the standard alphabet, to state that nothing is lost.\<close>

definition base64_val :: "char \<Rightarrow> nat" where
  "base64_val x = (let n = of_char x :: nat in
     if 65 \<le> n \<and> n \<le> 90 then n - 65 else if 97 \<le> n \<and> n \<le> 122 then n - 71
     else if 48 \<le> n \<and> n \<le> 57 then n + 4 else if n = 43 then 62 else 63)"

fun base64_decode :: "string \<Rightarrow> string" where
  "base64_decode (w # x # y # z # s) =
     (let a = base64_val w; b = base64_val x; c = base64_val y; d = base64_val z;
          p = char_of (a * 4 + b div 16); q = char_of (b mod 16 * 16 + c div 4);
          r = char_of (c mod 4 * 64 + d) in
      if y = CHR ''='' then [p] else if z = CHR ''='' then [p, q]
      else p # q # r # base64_decode s)"
| "base64_decode _ = []"

lemma base64_val_char [simp]: "n < 64 \<Longrightarrow> base64_val (base64_char n) = n"
  by (auto simp: base64_val_def base64_char_def Let_def)

lemma base64_char_pad [simp]: "n < 64 \<Longrightarrow> base64_char n \<noteq> CHR ''=''"
proof
  assume "n < 64" "base64_char n = CHR ''=''"
  then have "of_char (base64_char n) = (61 :: nat)" by simp
  with \<open>n < 64\<close> show False by (auto simp: base64_char_def split: if_splits)
qed

text \<open>The high parts of a byte, and the six-bit groups of three.\<close>

lemma byte_parts:
  fixes x :: char
  shows "(of_char x :: nat) div 16 < 16" "(of_char x :: nat) div 64 < 4" "(of_char x :: nat) div 4 < 64"
proof -
  have "(of_char x :: nat) < 256" by simp
  then show "(of_char x :: nat) div 16 < 16" "(of_char x :: nat) div 64 < 4" "(of_char x :: nat) div 4 < 64"
    by linarith+
qed

lemma six_bits:
  fixes x y :: char
  shows "(of_char x :: nat) mod 4 * 16 < 64" "(of_char x :: nat) mod 16 * 4 < 64"
    "(of_char x :: nat) mod 4 * 16 + (of_char y :: nat) div 16 < 64"
    "(of_char x :: nat) mod 16 * 4 + (of_char y :: nat) div 64 < 64" "(of_char x :: nat) mod 64 < 64"
proof -
  have "(of_char x :: nat) mod 4 < 4" "(of_char x :: nat) mod 16 < 16" by simp_all
  with byte_parts [of y] show "(of_char x :: nat) mod 4 * 16 < 64" "(of_char x :: nat) mod 16 * 4 < 64"
    "(of_char x :: nat) mod 4 * 16 + (of_char y :: nat) div 16 < 64"
    "(of_char x :: nat) mod 16 * 4 + (of_char y :: nat) div 64 < 64" "(of_char x :: nat) mod 64 < 64"
    by simp_all
qed

lemma base64_decode_base64: "base64_decode (base64 s) = s"
  by (induction s rule: base64.induct) (simp_all add: Let_def byte_parts six_bits)

definition newline :: char where
  "newline = CHR 0x0A"

end
