(* ===== verification/Json.thy ===== *)
theory Json
  imports Prelude "HOL-Library.AList"
begin

section \<open>Unstructured objects\<close>

text \<open>
  The JSON trees the dynamic client hands out, and the accessors of
  \<^verbatim>\<open>k8s.io/apimachinery\<close> (\<^verbatim>\<open>unstructured.NestedString\<close> and its kin) that the
  helpers use. A Go map is an association list; keys are looked up with \<open>map_of\<close> and
  stored with \<open>AList.update\<close>, so the order of the entries is never observed. Values are
  immutable here, so the deep copies these accessors make are the identity.
\<close>

text \<open>A \<open>float64\<close> is kept as mantissa and binary exponent: \<open>JFloat m e\<close> is \<open>m * 2 ^ e\<close>.\<close>

datatype json =
    JNull
  | JBool bool
  | JInt int
  | JFloat int int
  | JStr string
  | JArr "json list"
  | JObj "(string \<times> json) list"

type_synonym object = "(string \<times> json) list"

subsection \<open>Reading a nested field\<close>

text \<open>\<open>NestedFieldNoCopy\<close>: an error, "not found" (\<open>Inr None\<close>), or the value.\<close>

definition accessor_error :: "string \<Rightarrow> go_error" where
  "accessor_error expected = Errorf ''%v accessor error: %v is of the type %T, expected '' [AStr expected]"

fun NestedFieldNoCopy :: "json \<Rightarrow> string list \<Rightarrow> go_error + json option" where
  "NestedFieldNoCopy v [] = Inr (Some v)"
| "NestedFieldNoCopy JNull (f # fs) = Inr None"
| "NestedFieldNoCopy (JObj m) (f # fs) =
     (case map_of m f of None \<Rightarrow> Inr None | Some v \<Rightarrow> NestedFieldNoCopy v fs)"
| "NestedFieldNoCopy _ (f # fs) = Inl (accessor_error ''map[string]interface{}'')"

definition NestedString :: "object \<Rightarrow> string list \<Rightarrow> go_error + string option" where
  "NestedString obj path = (case NestedFieldNoCopy (JObj obj) path of
      Inl e \<Rightarrow> Inl e
    | Inr None \<Rightarrow> Inr None
    | Inr (Some (JStr s)) \<Rightarrow> Inr (Some s)
    | Inr (Some _) \<Rightarrow> Inl (accessor_error ''string''))"

definition NestedSlice :: "object \<Rightarrow> string list \<Rightarrow> go_error + json list option" where
  "NestedSlice obj path = (case NestedFieldNoCopy (JObj obj) path of
      Inl e \<Rightarrow> Inl e
    | Inr None \<Rightarrow> Inr None
    | Inr (Some (JArr xs)) \<Rightarrow> Inr (Some xs)
    | Inr (Some _) \<Rightarrow> Inl (accessor_error ''[]interface{}''))"

definition NestedMap :: "object \<Rightarrow> string list \<Rightarrow> go_error + object option" where
  "NestedMap obj path = (case NestedFieldNoCopy (JObj obj) path of
      Inl e \<Rightarrow> Inl e
    | Inr None \<Rightarrow> Inr None
    | Inr (Some (JObj m)) \<Rightarrow> Inr (Some m)
    | Inr (Some _) \<Rightarrow> Inl (accessor_error ''map[string]interface{}''))"

lemmas nested_defs = NestedString_def NestedSlice_def NestedMap_def

lemma NestedFieldNoCopy_append:
  "NestedFieldNoCopy v (fs @ gs) = (case NestedFieldNoCopy v fs of
      Inl e \<Rightarrow> Inl e
    | Inr None \<Rightarrow> Inr None
    | Inr (Some u) \<Rightarrow> NestedFieldNoCopy u gs)"
  by (induction v fs rule: NestedFieldNoCopy.induct) (auto split: option.split)

subsection \<open>Writing a nested field\<close>

text \<open>
  \<open>SetNestedField(obj, value, f, fs...)\<close>: missing levels become empty objects, a level that
  is no object is an error. The sources always pass at least one field.
\<close>

definition set_error :: go_error where
  "set_error = Errorf ''value cannot be set because %v is not a map[string]interface{}'' []"

fun SetNestedField :: "object \<Rightarrow> json \<Rightarrow> string \<Rightarrow> string list \<Rightarrow> go_error + object" where
  "SetNestedField m v f [] = Inr (AList.update f v m)"
| "SetNestedField m v f (g # fs) = (case map_of m f of
      None \<Rightarrow> map_sum id (\<lambda>m'. AList.update f (JObj m') m) (SetNestedField [] v g fs)
    | Some (JObj m0) \<Rightarrow> map_sum id (\<lambda>m'. AList.update f (JObj m') m) (SetNestedField m0 v g fs)
    | Some _ \<Rightarrow> Inl set_error)"

definition SetNestedSlice :: "object \<Rightarrow> json list \<Rightarrow> string \<Rightarrow> string list \<Rightarrow> go_error + object" where
  "SetNestedSlice m xs f fs = SetNestedField m (JArr xs) f fs"

lemma SetNestedField_get:
  "SetNestedField m v f fs = Inr m' \<Longrightarrow> NestedFieldNoCopy (JObj m') (f # fs) = Inr (Some v)"
  by (induction m v f fs arbitrary: m' rule: SetNestedField.induct)
    (auto simp: update_conv' map_sum_def split: option.splits json.splits sum.splits)

lemma SetNestedField_frame:
  "SetNestedField m v f fs = Inr m' \<Longrightarrow> g \<noteq> f \<Longrightarrow> map_of m' g = map_of m g"
  by (cases fs) (auto simp: update_conv' map_sum_def split: option.splits json.splits sum.splits)

lemma SetNestedSlice_get:
  "SetNestedSlice m xs f fs = Inr m' \<Longrightarrow> NestedSlice m' (f # fs) = Inr (Some xs)"
  using SetNestedField_get by (fastforce simp: SetNestedSlice_def NestedSlice_def)

lemma NestedFieldNoCopy_not_null_parent:
  "NestedFieldNoCopy (JObj m) (f # g # fs) = Inr (Some v) \<Longrightarrow> \<exists>m0. map_of m f = Some (JObj m0)"
  by (cases "map_of m f"; cases "the (map_of m f)") auto

lemma SetNestedSlice_sibling:
  assumes "SetNestedSlice ws xs ''status'' [''conditions''] = Inr ws'" "f \<noteq> ''conditions''"
    "NestedString ws [''status'', f] = Inr (Some v)"
  shows "NestedString ws' [''status'', f] = Inr (Some v)"
  using assms
  by (auto simp: SetNestedSlice_def NestedString_def update_conv' split: option.splits json.splits)

subsection \<open>Properties\<close>

text \<open>A nested field that was set reads back as the value, and every other top-level field is as before.\<close>

lemma SetNestedField_spec:
  assumes "SetNestedField m v f fs = Inr m'"
  shows "NestedFieldNoCopy (JObj m') (f # fs) = Inr (Some v) \<and>
    map_of m' = (map_of m)(f := map_of m' f)"
  using SetNestedField_get [OF assms] SetNestedField_frame [OF assms] by (auto simp: fun_eq_iff)

lemma SetNestedField_spec_example:
  "\<exists>m'. SetNestedField [(''a'', JInt 1)] JNull ''status'' [''conditions''] = Inr m' \<and>
     NestedFieldNoCopy (JObj m') [''status'', ''conditions''] = Inr (Some JNull) \<and> map_of m' ''a'' = Some (JInt 1)"
proof -
  obtain m' where m: "SetNestedField [(''a'', JInt 1)] JNull ''status'' [''conditions''] = Inr m'" by simp
  then have "map_of m' ''a'' = Some (JInt 1)" by auto
  with SetNestedField_spec [OF m] m show ?thesis by auto
qed

end
