(* ===== verification/Conditions.thy ===== *)
theory Conditions
  imports Prelude
begin

section \<open>Status conditions\<close>

text \<open>
  \<^verbatim>\<open>metav1.Condition\<close> and the functions of \<^verbatim>\<open>k8s.io/apimachinery/pkg/api/meta\<close> on slices
  of conditions, and the contract they promise as the locale \<open>status_conditions\<close>. Times are
  nanoseconds since Go's zero time, so \<open>IsZero\<close> is \<open>= 0\<close>; \<open>ConditionStatus\<close> is a string type
  with the constants True, False and Unknown.
\<close>

type_synonym time = int

abbreviation "ConditionTrue \<equiv> ''True''"
abbreviation "ConditionFalse \<equiv> ''False''"

record condition =
  condType :: string
  condStatus :: string
  condObservedGeneration :: int
  condLastTransitionTime :: time
  condReason :: string
  condMessage :: string

definition zero_condition :: condition where
  "zero_condition = \<lparr>condType = [], condStatus = [], condObservedGeneration = 0,
     condLastTransitionTime = 0, condReason = [], condMessage = []\<rparr>"

definition FindStatusCondition :: "condition list \<Rightarrow> string \<Rightarrow> condition option" where
  "FindStatusCondition conditions t = find (\<lambda>c. condType c = t) conditions"

fun IsStatusConditionPresentAndEqual :: "condition list \<Rightarrow> string \<Rightarrow> string \<Rightarrow> bool" where
  "IsStatusConditionPresentAndEqual [] t status \<longleftrightarrow> False"
| "IsStatusConditionPresentAndEqual (c # cs) t status \<longleftrightarrow>
     (if condType c = t then condStatus c = status
      else IsStatusConditionPresentAndEqual cs t status)"

definition IsStatusConditionTrue :: "condition list \<Rightarrow> string \<Rightarrow> bool" where
  "IsStatusConditionTrue conditions t = IsStatusConditionPresentAndEqual conditions t ConditionTrue"

lemma IsStatusConditionTrue_find:
  "IsStatusConditionTrue cs t \<longleftrightarrow>
     (\<exists>c. FindStatusCondition cs t = Some c \<and> condStatus c = ConditionTrue)"
  unfolding IsStatusConditionTrue_def FindStatusCondition_def by (induction cs) auto

text \<open>The pointer into the slice: the first matching element is changed in place.\<close>

fun update_first :: "('a \<Rightarrow> bool) \<Rightarrow> ('a \<Rightarrow> 'a) \<Rightarrow> 'a list \<Rightarrow> 'a list" where
  "update_first p f [] = []"
| "update_first p f (x # xs) = (if p x then f x # xs else x # update_first p f xs)"

definition merge_condition :: "time \<Rightarrow> condition \<Rightarrow> condition \<Rightarrow> condition" where
  "merge_condition now new existing =
     (let ex = (if condStatus existing \<noteq> condStatus new
                then existing\<lparr>condStatus := condStatus new,
                  condLastTransitionTime :=
                    (if condLastTransitionTime new \<noteq> 0 then condLastTransitionTime new else now)\<rparr>
                else existing)
      in ex\<lparr>condReason := condReason new, condMessage := condMessage new,
            condObservedGeneration := condObservedGeneration new\<rparr>)"

definition SetStatusCondition :: "time \<Rightarrow> condition list \<Rightarrow> condition \<Rightarrow> condition list" where
  "SetStatusCondition now conditions new =
     (case FindStatusCondition conditions (condType new) of
        None \<Rightarrow> conditions @ [if condLastTransitionTime new = 0
                             then new\<lparr>condLastTransitionTime := now\<rparr> else new]
      | Some _ \<Rightarrow> update_first (\<lambda>c. condType c = condType new) (merge_condition now new) conditions)"

lemma merge_condition_simps [simp]:
  "condType (merge_condition now new ex) = condType ex"
  "condStatus (merge_condition now new ex) = condStatus new"
  "condReason (merge_condition now new ex) = condReason new"
  "condMessage (merge_condition now new ex) = condMessage new"
  "condObservedGeneration (merge_condition now new ex) = condObservedGeneration new"
  by (simp_all add: merge_condition_def Let_def)

lemma merge_condition_idem:
  "merge_condition now' new (merge_condition now new ex) = merge_condition now new ex"
  by (simp add: merge_condition_def Let_def)

lemma merge_condition_time:
  "condStatus ex = condStatus new \<Longrightarrow>
     condLastTransitionTime (merge_condition now new ex) = condLastTransitionTime ex"
  by (simp add: merge_condition_def Let_def)

lemma update_first_id: "(\<And>x. x \<in> set xs \<Longrightarrow> p x \<Longrightarrow> f x = x) \<Longrightarrow> update_first p f xs = xs"
  by (induction xs) auto

lemma find_update_first:
  "(\<And>x. p x \<Longrightarrow> p (f x)) \<Longrightarrow> find p (update_first p f xs) = map_option f (find p xs)"
  by (induction xs) auto

lemma find_update_first_other:
  "(\<And>x. p x \<Longrightarrow> \<not> q x \<and> \<not> q (f x)) \<Longrightarrow> find q (update_first p f xs) = find q xs"
  by (induction xs) auto

lemma update_first_twice:
  "(\<And>x. p x \<Longrightarrow> p (f x)) \<Longrightarrow> update_first p g (update_first p f xs) = update_first p (g \<circ> f) xs"
  by (induction xs) auto

lemma find_append:
  "find p (xs @ ys) = (case find p xs of None \<Rightarrow> find p ys | Some x \<Rightarrow> Some x)"
  by (induction xs) auto

lemma update_first_append:
  "find p xs = None \<Longrightarrow> update_first p f (xs @ ys) = xs @ update_first p f ys"
  by (induction xs) (auto split: if_splits)

lemma SetStatusCondition_find:
  "FindStatusCondition (SetStatusCondition now cs new) (condType new) =
     Some (case FindStatusCondition cs (condType new) of
        None \<Rightarrow> if condLastTransitionTime new = 0 then new\<lparr>condLastTransitionTime := now\<rparr> else new
      | Some ex \<Rightarrow> merge_condition now new ex)"
  by (auto simp: SetStatusCondition_def FindStatusCondition_def find_append find_update_first
      split: option.split)

lemma SetStatusCondition_other:
  "t \<noteq> condType new \<Longrightarrow>
     FindStatusCondition (SetStatusCondition now cs new) t = FindStatusCondition cs t"
  by (auto simp: SetStatusCondition_def FindStatusCondition_def find_append find_update_first_other
      split: option.split)

lemma SetStatusCondition_idem:
  "SetStatusCondition now' (SetStatusCondition now cs new) new = SetStatusCondition now cs new"
proof (cases "FindStatusCondition cs (condType new)")
  case None
  then show ?thesis
    by (auto simp: SetStatusCondition_def FindStatusCondition_def find_append update_first_append
        merge_condition_def Let_def)
next
  case (Some ex)
  then have "find (\<lambda>c. condType c = condType new) (SetStatusCondition now cs new) \<noteq> None"
    by (simp add: SetStatusCondition_def FindStatusCondition_def find_update_first)
  with Some show ?thesis
    by (auto simp: SetStatusCondition_def FindStatusCondition_def update_first_twice comp_def
        merge_condition_idem find_update_first)
qed

lemma SetStatusCondition_types:
  "map condType (SetStatusCondition now cs new) =
     (if condType new \<in> set (map condType cs) then map condType cs
      else map condType cs @ [condType new])"
proof -
  have upd: "map condType (update_first p (merge_condition now new) xs) = map condType xs" for p xs
    by (induction xs) auto
  have "find (\<lambda>c. condType c = condType new) cs = None \<longleftrightarrow> condType new \<notin> set (map condType cs)"
    by (simp add: find_None_iff image_iff) metis
  then show ?thesis
    by (auto simp: SetStatusCondition_def FindStatusCondition_def upd split: option.split)
qed

subsection \<open>The contract\<close>

text \<open>
  What a client of a set of status conditions relies on: a condition that was set is found
  with the status, reason and message it was given; other types are untouched; setting it
  again changes nothing.
\<close>

locale status_conditions =
  fixes find_cond :: "'cs \<Rightarrow> string \<Rightarrow> condition option"
    and set_cond :: "time \<Rightarrow> 'cs \<Rightarrow> condition \<Rightarrow> 'cs"
  assumes find_set: "\<exists>c. find_cond (set_cond now cs new) (condType new) = Some c
      \<and> condType c = condType new \<and> condStatus c = condStatus new
      \<and> condReason c = condReason new \<and> condMessage c = condMessage new"
    and find_other: "t \<noteq> condType new \<Longrightarrow> find_cond (set_cond now cs new) t = find_cond cs t"
    and set_again: "set_cond now' (set_cond now cs new) new = set_cond now cs new"
begin

definition true_in :: "'cs \<Rightarrow> string \<Rightarrow> bool" where
  "true_in cs t \<longleftrightarrow> (\<exists>c. find_cond cs t = Some c \<and> condStatus c = ConditionTrue)"

lemma true_in_set: "true_in (set_cond now cs new) (condType new) \<longleftrightarrow> condStatus new = ConditionTrue"
  using find_set [of now cs new] by (auto simp: true_in_def)

lemma true_in_other: "t \<noteq> condType new \<Longrightarrow> true_in (set_cond now cs new) t \<longleftrightarrow> true_in cs t"
  by (simp add: true_in_def find_other)

text \<open>A writer that skips the write when nothing would change reaches a fixed point in one step.\<close>

lemma second_write_skipped:
  "cs' = set_cond now cs new \<Longrightarrow> set_cond now' cs' new = cs'"
  by (simp add: set_again)

text \<open>After any series of writes the last one of a type decides.\<close>

lemma last_write_wins:
  assumes "\<forall>(n, c) \<in> set later. condType c \<noteq> condType new"
  shows "true_in (fold (\<lambda>(n, c) cs. set_cond n cs c) later (set_cond now cs new)) (condType new)
     \<longleftrightarrow> condStatus new = ConditionTrue"
  using assms
proof (induction later rule: rev_induct)
  case Nil
  then show ?case by (simp add: true_in_set)
next
  case (snoc x xs)
  obtain n c where x: "x = (n, c)" by fastforce
  with snoc have "condType new \<noteq> condType c" by auto
  with snoc x show ?case by (simp add: true_in_other)
qed

end

interpretation meta: status_conditions FindStatusCondition SetStatusCondition
proof (unfold_locales, goal_cases)
  case (1 now cs new)
  have "condType ex = t" if "FindStatusCondition cs t = Some ex" for t ex
    using that by (auto simp: FindStatusCondition_def find_Some_iff)
  then show ?case by (auto simp: SetStatusCondition_find split: option.split)
next
  case (2 t new now cs)
  then show ?case by (rule SetStatusCondition_other)
next
  case (3 now' now cs new)
  show ?case by (rule SetStatusCondition_idem)
qed

lemma IsStatusConditionTrue_true_in: "IsStatusConditionTrue cs t = meta.true_in cs t"
  by (simp add: IsStatusConditionTrue_find meta.true_in_def)

lemma IsStatusConditionPresentAndEqual_map_of:
  "IsStatusConditionPresentAndEqual cs t s \<longleftrightarrow> map_of (zip (map condType cs) (map condStatus cs)) t = Some s"
  by (induction cs) auto

lemma IsStatusConditionTrue_cong:
  "map condType cs' = map condType cs \<Longrightarrow> map condStatus cs' = map condStatus cs \<Longrightarrow>
     IsStatusConditionTrue cs' t = IsStatusConditionTrue cs t"
  by (simp only: IsStatusConditionTrue_def IsStatusConditionPresentAndEqual_map_of)

lemma merge_condition_same:
  "merge_condition now new ex = ex \<longleftrightarrow> condStatus ex = condStatus new \<and> condReason ex = condReason new \<and>
     condMessage ex = condMessage new \<and> condObservedGeneration ex = condObservedGeneration new"
  by (cases ex) (auto simp: merge_condition_def Let_def)

lemma update_first_same: "update_first p f xs = xs \<longleftrightarrow> (case find p xs of None \<Rightarrow> True | Some x \<Rightarrow> f x = x)"
  by (induction xs) auto

lemma SetStatusCondition_same:
  "SetStatusCondition now cs new = cs \<longleftrightarrow> (\<exists>ex. FindStatusCondition cs (condType new) = Some ex \<and>
     condStatus ex = condStatus new \<and> condReason ex = condReason new \<and>
     condMessage ex = condMessage new \<and> condObservedGeneration ex = condObservedGeneration new)"
  by (auto simp: SetStatusCondition_def update_first_same FindStatusCondition_def merge_condition_same
      split: option.splits)

subsection \<open>Properties\<close>


text \<open>Over any series of writes the last one of a type decides whether the type is true.\<close>

lemma last_condition_wins:
  assumes "\<forall>(n, c) \<in> set later. condType c \<noteq> condType new"
  shows "IsStatusConditionTrue
      (fold (\<lambda>(n, c) cs. SetStatusCondition n cs c) later (SetStatusCondition now cs new)) (condType new)
     \<longleftrightarrow> condStatus new = ConditionTrue"
  using meta.last_write_wins [OF assms] by (simp add: IsStatusConditionTrue_true_in)

lemma last_condition_wins_example:
  "IsStatusConditionTrue (fold (\<lambda>(n, c) cs. SetStatusCondition n cs c)
     [(2, zero_condition\<lparr>condType := ''B''\<rparr>)]
     (SetStatusCondition 1 [] (zero_condition\<lparr>condType := ''A'', condStatus := ConditionTrue\<rparr>))) ''A''"
proof -
  have "\<forall>(n, c) \<in> set [(2 :: time, zero_condition\<lparr>condType := ''B''\<rparr>)].
      condType c \<noteq> condType (zero_condition\<lparr>condType := ''A'', condStatus := ConditionTrue\<rparr>)" by simp
  from last_condition_wins [OF this, of 1 "[]"] show ?thesis by simp
qed

end
