(* ===== verification/KeyUsages.thy ===== *)
theory KeyUsages
  imports Prelude "HOL-Library.Multiset"
begin

section \<open>Key usages (csr/ca.go, the dictionaries and keyUsagesFromStrings)\<close>

text \<open>
  The usage strings of a certificate signing request, the two dictionaries of
  \<^verbatim>\<open>csr/ca.go\<close> that translate them to x509 key usages, the translation loop, and the
  sorting of the extended usages through \<^verbatim>\<open>sort.Interface\<close>. \<open>x509.KeyUsage\<close> is a bit mask
  in a 64-bit Go int; \<open>x509.ExtKeyUsage\<close> an enumeration ordered by its number.
\<close>

unbundle bit_operations_syntax

type_synonym key_usage = string

abbreviation "UsageDigitalSignature \<equiv> ''digital signature''"
abbreviation "UsageKeyEncipherment \<equiv> ''key encipherment''"
abbreviation "UsageClientAuth \<equiv> ''client auth''"

datatype ext_key_usage =
    ExtKeyUsageAny
  | ExtKeyUsageServerAuth
  | ExtKeyUsageClientAuth
  | ExtKeyUsageCodeSigning
  | ExtKeyUsageEmailProtection
  | ExtKeyUsageIPSECEndSystem
  | ExtKeyUsageIPSECTunnel
  | ExtKeyUsageIPSECUser
  | ExtKeyUsageTimeStamping
  | ExtKeyUsageOCSPSigning
  | ExtKeyUsageMicrosoftServerGatedCrypto
  | ExtKeyUsageNetscapeServerGatedCrypto

primrec ext_code :: "ext_key_usage \<Rightarrow> nat" where
  "ext_code ExtKeyUsageAny = 0"
| "ext_code ExtKeyUsageServerAuth = 1"
| "ext_code ExtKeyUsageClientAuth = 2"
| "ext_code ExtKeyUsageCodeSigning = 3"
| "ext_code ExtKeyUsageEmailProtection = 4"
| "ext_code ExtKeyUsageIPSECEndSystem = 5"
| "ext_code ExtKeyUsageIPSECTunnel = 6"
| "ext_code ExtKeyUsageIPSECUser = 7"
| "ext_code ExtKeyUsageTimeStamping = 8"
| "ext_code ExtKeyUsageOCSPSigning = 9"
| "ext_code ExtKeyUsageMicrosoftServerGatedCrypto = 10"
| "ext_code ExtKeyUsageNetscapeServerGatedCrypto = 11"

lemma ext_code_inject: "ext_code a = ext_code b \<Longrightarrow> a = b"
  by (cases a; cases b) simp_all

instantiation ext_key_usage :: linorder
begin

definition less_eq_ext_key_usage :: "ext_key_usage \<Rightarrow> ext_key_usage \<Rightarrow> bool" where
  "less_eq_ext_key_usage a b \<longleftrightarrow> ext_code a \<le> ext_code b"

definition less_ext_key_usage :: "ext_key_usage \<Rightarrow> ext_key_usage \<Rightarrow> bool" where
  "less_ext_key_usage a b \<longleftrightarrow> ext_code a < ext_code b"

instance
  by standard (auto simp: less_eq_ext_key_usage_def less_ext_key_usage_def intro: ext_code_inject)

end

subsection \<open>The dictionaries\<close>

definition keyUsageDict :: "key_usage \<Rightarrow> 64 word option" where
  "keyUsageDict = map_of
    [(''signing'', 1),
     (''digital signature'', 1),
     (''content commitment'', 2),
     (''key encipherment'', 4),
     (''key agreement'', 16),
     (''data encipherment'', 8),
     (''cert sign'', 32),
     (''crl sign'', 64),
     (''encipher only'', 128),
     (''decipher only'', 256)]"

definition extKeyUsageDict :: "key_usage \<Rightarrow> ext_key_usage option" where
  "extKeyUsageDict = map_of
    [(''any'', ExtKeyUsageAny),
     (''server auth'', ExtKeyUsageServerAuth),
     (''client auth'', ExtKeyUsageClientAuth),
     (''code signing'', ExtKeyUsageCodeSigning),
     (''email protection'', ExtKeyUsageEmailProtection),
     (''s/mime'', ExtKeyUsageEmailProtection),
     (''ipsec end system'', ExtKeyUsageIPSECEndSystem),
     (''ipsec tunnel'', ExtKeyUsageIPSECTunnel),
     (''ipsec user'', ExtKeyUsageIPSECUser),
     (''timestamping'', ExtKeyUsageTimeStamping),
     (''ocsp signing'', ExtKeyUsageOCSPSigning),
     (''microsoft sgc'', ExtKeyUsageMicrosoftServerGatedCrypto),
     (''netscape sgc'', ExtKeyUsageNetscapeServerGatedCrypto)]"

lemma usage_dict_simps [simp]:
  "keyUsageDict UsageDigitalSignature = Some 1"
  "keyUsageDict UsageKeyEncipherment = Some 4"
  "keyUsageDict UsageClientAuth = None"
  "extKeyUsageDict UsageClientAuth = Some ExtKeyUsageClientAuth"
  by (simp_all add: keyUsageDict_def extKeyUsageDict_def)

subsection \<open>sort.Interface on the extended usages\<close>

text \<open>
  \<open>sortedExtKeyUsage\<close> gives \<^verbatim>\<open>sort.Sort\<close> its \<open>Len\<close>, \<open>Less\<close> and \<open>Swap\<close>; with at most twelve
  different elements \<^verbatim>\<open>sort.Sort\<close> is its insertion sort.
\<close>

definition sortedExtKeyUsage_Len :: "ext_key_usage list \<Rightarrow> nat" where
  "sortedExtKeyUsage_Len s = length s"

definition sortedExtKeyUsage_Swap :: "ext_key_usage list \<Rightarrow> nat \<Rightarrow> nat \<Rightarrow> ext_key_usage list" where
  "sortedExtKeyUsage_Swap s i j = s[i := s ! j, j := s ! i]"

definition sortedExtKeyUsage_Less :: "ext_key_usage list \<Rightarrow> nat \<Rightarrow> nat \<Rightarrow> bool" where
  "sortedExtKeyUsage_Less s i j \<longleftrightarrow> s ! i < s ! j"

fun sift_down :: "ext_key_usage list \<Rightarrow> nat \<Rightarrow> ext_key_usage list" where
  "sift_down s 0 = s"
| "sift_down s (Suc j) =
     (if sortedExtKeyUsage_Less s (Suc j) j
      then sift_down (sortedExtKeyUsage_Swap s (Suc j) j) j else s)"

definition sort_Sort :: "ext_key_usage list \<Rightarrow> ext_key_usage list" where
  "sort_Sort s = fold (\<lambda>i xs. sift_down xs i) [1..<sortedExtKeyUsage_Len s] s"

lemma insort_snoc_less: "x < (y :: 'a :: linorder) \<Longrightarrow> insort x (ys @ [y]) = insort x ys @ [y]"
  by (induction ys) auto

lemma sift_down_insort:
  "sorted ys \<Longrightarrow> sift_down (ys @ x # zs) (length ys) = insort x ys @ zs"
proof (induction ys arbitrary: zs rule: rev_induct)
  case (snoc y ys)
  show ?case
  proof (cases "x < y")
    case True
    have "sortedExtKeyUsage_Swap (ys @ y # x # zs) (Suc (length ys)) (length ys) = ys @ x # y # zs"
      by (simp add: sortedExtKeyUsage_Swap_def list_update_append nth_append)
    with True snoc show ?thesis
      by (simp add: sortedExtKeyUsage_Less_def nth_append sorted_append insort_snoc_less)
  next
    case False
    with snoc.prems have "\<forall>z \<in> set (ys @ [y]). z \<le> x" by (auto simp: sorted_append)
    with False show ?thesis
      using snoc.prems
      by (simp add: sortedExtKeyUsage_Less_def nth_append sorted_insort_is_snoc)
  qed
qed simp

lemma sort_snoc: "sort (xs @ [x]) = insort x (sort xs)"
proof -
  have "mset (insort x (sort xs)) = mset (xs @ [x])" by simp
  then show ?thesis by (metis properties_for_sort sorted_insort sorted_sort)
qed

lemma sort_prefix:
  "n \<le> length s \<Longrightarrow> fold (\<lambda>i xs. sift_down xs i) [1..<n] s = sort (take n s) @ drop n s"
proof (induction n)
  case (Suc n)
  show ?case
  proof (cases "n = 0")
    case False
    let ?ys = "sort (take n s)"
    from Suc have IH: "fold (\<lambda>i xs. sift_down xs i) [1..<n] s = ?ys @ drop n s" by simp
    from Suc.prems have split: "drop n s = s ! n # drop (Suc n) s" "length ?ys = n"
      by (simp_all add: Cons_nth_drop_Suc)
    from sift_down_insort [of ?ys "s ! n" "drop (Suc n) s"] split
    have "sift_down (?ys @ drop n s) n = insort (s ! n) ?ys @ drop (Suc n) s" by simp
    with IH False Suc.prems show ?thesis
      by (simp add: take_Suc_conv_app_nth sort_snoc)
  qed (use Suc.prems in \<open>cases s; simp\<close>)
qed simp

lemma sort_Sort_correct: "sort_Sort s = sort s"
  using sort_prefix [of "length s" s] by (simp add: sort_Sort_def sortedExtKeyUsage_Len_def)

subsection \<open>The translation\<close>

text \<open>
  The loop's variables: the mask, the set of extended usages (a Go map to the empty struct,
  here a list without repetition) and the unrecognized strings. \<open>range\<close> over the map visits
  its keys in an unspecified order: by rising \<open>order\<close>, an arbitrary function.
\<close>

type_synonym usage_acc = "64 word \<times> ext_key_usage list \<times> key_usage list"

fun keyUsage_step :: "key_usage \<Rightarrow> usage_acc \<Rightarrow> usage_acc" where
  "keyUsage_step u (ku, exts, unrec) =
     (case keyUsageDict u of
        Some val \<Rightarrow> (ku OR val, exts, unrec)
      | None \<Rightarrow> (case extKeyUsageDict u of
          Some val \<Rightarrow> (ku, List.insert val exts, unrec)
        | None \<Rightarrow> (ku, exts, unrec @ [u])))"

type_synonym map_order = "ext_key_usage \<Rightarrow> nat"

definition range_keys :: "map_order \<Rightarrow> ext_key_usage list \<Rightarrow> ext_key_usage list" where
  "range_keys order exts = sort_key order exts"

definition keyUsagesFromStrings ::
  "map_order \<Rightarrow> key_usage list \<Rightarrow> go_error + 64 word \<times> ext_key_usage list" where
  "keyUsagesFromStrings order usages =
     (let (ku, exts, unrec) = fold keyUsage_step usages (0, [], []);
          sorted = sort_Sort (range_keys order exts)
      in if unrec \<noteq> [] then Inl (Errorf ''unrecognized usage values: %q'' [AStrs unrec])
         else Inr (ku, sorted))"

text \<open>The same result without a loop: a specification to compare with.\<close>

definition ext_usages :: "key_usage list \<Rightarrow> ext_key_usage set" where
  "ext_usages us = {e. \<exists>u \<in> set us. keyUsageDict u = None \<and> extKeyUsageDict u = Some e}"

definition recognized :: "key_usage \<Rightarrow> bool" where
  "recognized u \<longleftrightarrow> keyUsageDict u \<noteq> None \<or> extKeyUsageDict u \<noteq> None"

lemma usage_fold:
  assumes "fold keyUsage_step us (ku, exts, unrec) = (ku', exts', unrec')" and "distinct exts"
  shows "unrec' = unrec @ filter (\<lambda>u. \<not> recognized u) us"
    and "set exts' = set exts \<union> ext_usages us" and "distinct exts'"
    and "bit ku' n \<longleftrightarrow> bit ku n \<or> (\<exists>u \<in> set us. \<exists>v. keyUsageDict u = Some v \<and> bit v n)"
  using assms
proof (induction us arbitrary: ku exts unrec)
  case (Cons u us)
  {
    case 1
    with Cons.IH(1) show ?case
      by (fastforce simp: recognized_def split: option.splits)
  next
    case 2
    with Cons.IH(2) show ?case
      by (fastforce simp: ext_usages_def split: option.splits)
  next
    case 3
    with Cons.IH(3) show ?case
      by (auto split: option.splits)
  next
    case 4
    with Cons.IH(4) show ?case
      by (fastforce simp: bit_or_iff split: option.splits)
  }
qed (auto simp: ext_usages_def)

lemma sort_Sort_range: "sort_Sort (range_keys order xs) = sort xs"
  unfolding sort_Sort_correct range_keys_def
  by (rule properties_for_sort [symmetric]) simp_all

lemma sort_distinct_set: "distinct xs \<Longrightarrow> sort xs = sorted_list_of_set (set xs)"
  by (simp add: sorted_list_of_set_sort_remdups distinct_remdups_id)

lemma keyUsagesFromStrings_error_iff:
  "(\<exists>e. keyUsagesFromStrings order us = Inl e) \<longleftrightarrow> (\<exists>u \<in> set us. \<not> recognized u)"
proof -
  obtain ku exts unrec where f: "fold keyUsage_step us (0, [], []) = (ku, exts, unrec)"
    by (metis prod_cases3)
  from usage_fold(1) [OF f] have "unrec = filter (\<lambda>u. \<not> recognized u) us" by simp
  then show ?thesis
    by (auto simp: keyUsagesFromStrings_def f Let_def filter_empty_conv)
qed

lemma keyUsagesFromStrings_ok:
  assumes "keyUsagesFromStrings order us = Inr (ku, exts)"
  shows "exts = sorted_list_of_set (ext_usages us)"
    and "bit ku n \<longleftrightarrow> (\<exists>u \<in> set us. \<exists>v. keyUsageDict u = Some v \<and> bit v n)"
proof -
  obtain ku' exts' unrec where f: "fold keyUsage_step us (0, [], []) = (ku', exts', unrec)"
    by (metis prod_cases3)
  with assms have *: "ku = ku'" "exts = sort exts'"
    by (auto simp: keyUsagesFromStrings_def Let_def sort_Sort_range split: if_splits)
  from usage_fold(2,3) [OF f] have "set exts' = ext_usages us" "distinct exts'" by simp_all
  with * show "exts = sorted_list_of_set (ext_usages us)" by (simp add: sort_distinct_set)
  from usage_fold(4) [OF f] * show
    "bit ku n \<longleftrightarrow> (\<exists>u \<in> set us. \<exists>v. keyUsageDict u = Some v \<and> bit v n)" by simp
qed

subsection \<open>Properties\<close>

text \<open>The translation without a loop: what it returns, and the error naming every bad usage in order.\<close>

definition keyUsages_ref :: "key_usage list \<Rightarrow> go_error + 64 word \<times> ext_key_usage list" where
  "keyUsages_ref us =
     (let bad = filter (\<lambda>u. \<not> recognized u) us in
      if bad \<noteq> [] then Inl (Errorf ''unrecognized usage values: %q'' [AStrs bad])
      else Inr (fold (OR) (List.map_filter keyUsageDict us) 0, sorted_list_of_set (ext_usages us)))"

lemma usage_fold_mask:
  "fst (fold keyUsage_step us (ku, exts, unrec)) = fold (OR) (List.map_filter keyUsageDict us) ku"
  by (induction us arbitrary: ku exts unrec)
    (auto simp: List.map_filter_def or.commute split: option.splits)

text \<open>C14: the translation loop computes the reference: the union of the masks and the sorted, duplicate-free extended usages, or an error that lists all unrecognized usages in order.\<close>

theorem keyUsagesFromStrings_ref: "keyUsagesFromStrings order us = keyUsages_ref us"
proof -
  obtain ku exts unrec where f: "fold keyUsage_step us (0, [], []) = (ku, exts, unrec)"
    by (metis prod_cases3)
  from usage_fold(1-3) [OF f] have "unrec = filter (\<lambda>u. \<not> recognized u) us"
    "set exts = ext_usages us" "distinct exts" by simp_all
  moreover from usage_fold_mask [of us 0 "[]" "[]"] f
  have "ku = fold (OR) (List.map_filter keyUsageDict us) 0" by simp
  ultimately show ?thesis
    by (simp add: keyUsagesFromStrings_def keyUsages_ref_def f Let_def sort_Sort_range sort_distinct_set)
qed

text \<open>Sorting through Len, Less and Swap sorts: the result is ordered and has the same elements.\<close>

lemma sort_Sort_sorts: "sorted (sort_Sort s) \<and> mset (sort_Sort s) = mset s"
  by (simp add: sort_Sort_correct)

text \<open>The result depends neither on the order or repetition of the usages nor on the order in which the Go map of extended usages is visited.\<close>

lemma keyUsages_order_independent:
  assumes "set us = set us'" and "keyUsagesFromStrings order us = Inr r"
  shows "keyUsagesFromStrings order' us' = Inr r"
proof -
  obtain ku exts where r: "r = (ku, exts)" by fastforce
  note ok = keyUsagesFromStrings_ok [OF assms(2) [unfolded r]]
  from assms have "\<not> (\<exists>e. keyUsagesFromStrings order' us' = Inl e)"
    using keyUsagesFromStrings_error_iff [of order us] keyUsagesFromStrings_error_iff [of order' us'] by auto
  then obtain ku' exts' where r': "keyUsagesFromStrings order' us' = Inr (ku', exts')"
    by (cases "keyUsagesFromStrings order' us'") auto
  note ok' = keyUsagesFromStrings_ok [OF r']
  from ok(2) ok'(2) assms(1) have "ku' = ku" by (intro bit_eqI) simp
  moreover from ok(1) ok'(1) assms(1) have "exts' = exts" by (simp add: ext_usages_def)
  ultimately show ?thesis using r r' by simp
qed

lemma keyUsages_order_independent_example:
  "keyUsagesFromStrings (\<lambda>_. 0) [''client auth'', ''digital signature'', ''client auth''] =
     Inr (1, [ExtKeyUsageClientAuth])"
proof (rule keyUsages_order_independent)
  show "set [''digital signature'', ''client auth''] =
      set [''client auth'', ''digital signature'', ''client auth'']" by auto
  show "keyUsagesFromStrings (\<lambda>_. 1) [''digital signature'', ''client auth''] =
      Inr (1, [ExtKeyUsageClientAuth])" by code_simp
qed

end
