(* ===== verification/Api.thy ===== *)
theory Api
  imports Prelude Json Conditions KeyUsages
begin

section \<open>The environment: objects, interactions, answers\<close>

text \<open>
  The Kubernetes objects the controllers read and write, the interactions they can make with
  their environment (informer caches, API servers, files, clock, random numbers, x509 signing,
  goroutines), and the record \<open>env\<close> of what the environment answers. Every answer of a
  server, cache or clock may depend on the whole history of interactions; parsers and codecs
  are functions of their input. Fields of API objects that no source under pkg/ reads are
  kept as one opaque string.
\<close>

subsection \<open>Objects\<close>

type_synonym bytes = string
type_synonym duration = "64 word"

text \<open>\<^verbatim>\<open>rest.Config\<close>: the fields the sources read or set, and the others as one.\<close>

record rest_config =
  Host :: string
  BearerToken :: string
  CAData :: bytes
  OtherSettings :: string

definition CopyConfig :: "rest_config \<Rightarrow> rest_config" where
  "CopyConfig config = \<lparr>Host = Host config, BearerToken = BearerToken config,
     CAData = CAData config, OtherSettings = OtherSettings config\<rparr>"

lemma CopyConfig_id [simp]: "CopyConfig config = config"
  by (simp add: CopyConfig_def)

text \<open>Which API server a client talks to: the hub cluster, or a kcp endpoint by its host.\<close>

datatype cluster = Hub | Kcp string

record csr_condition =
  csrCondType :: string
  csrCondStatus :: string
  csrCondReason :: string
  csrCondMessage :: go_error
  csrCondLastUpdateTime :: time

record certificate_signing_request =
  csrName :: string
  csrLabels :: "(string \<times> string) list"
  csrRequest :: bytes
  csrSignerName :: string
  csrExpirationSeconds :: "32 word option"
  csrUsages :: "key_usage list"
  csrConditions :: "csr_condition list"
  csrCertificate :: bytes

record cluster_manager =
  cmName :: string
  cmAnnotations :: "(string \<times> string) list"
  cmSpec :: string
  cmOther :: string
  cmConditions :: "condition list"

record manifest_object =
  objNamespace :: string
  objName :: string
  objContent :: string

text \<open>What the scheme of \<^verbatim>\<open>pkg/helpers\<close> decodes a manifest to.\<close>

datatype kube_object =
    Namespace manifest_object
  | ConfigMap manifest_object
  | Secret manifest_object
  | Service manifest_object
  | ClusterRole manifest_object
  | ClusterRoleBinding manifest_object
  | MutatingWebhookConfiguration manifest_object
  | ValidatingWebhookConfiguration manifest_object
  | ClusterManager cluster_manager
  | OtherObject string manifest_object

text \<open>\<^verbatim>\<open>x509.CertificateRequest\<close> and the certificate template of \<^verbatim>\<open>csr/ca.go\<close>.\<close>

record x509_subject =
  CommonName :: string
  SubjectRest :: string

record cert_request =
  crRaw :: bytes
  crSubject :: x509_subject
  crDNSNames :: "string list"
  crIPAddresses :: "string list"
  crEmailAddresses :: "string list"
  crURIs :: "string list"
  crPublicKeyAlgorithm :: int
  crPublicKey :: string
  crExtensions :: "string list"
  crExtraExtensions :: "string list"

record certificate =
  SerialNumber :: int
  Subject :: x509_subject
  DNSNames :: "string list"
  IPAddresses :: "string list"
  EmailAddresses :: "string list"
  URIs :: "string list"
  PublicKeyAlgorithm :: int
  PublicKey :: string
  Extensions :: "string list"
  ExtraExtensions :: "string list"
  KeyUsage :: "64 word"
  ExtKeyUsage :: "ext_key_usage list"
  BasicConstraintsValid :: bool
  IsCA :: bool
  NotBefore :: time
  NotAfter :: time

text \<open>A parsed CA certificate and a parsed private key.\<close>

record ca_cert =
  caRaw :: bytes
  caNotAfter :: time

datatype private_key = SignerKey string | OtherKey string

text \<open>\<^verbatim>\<open>clientcmdapi.Config\<close> with the fields \<^verbatim>\<open>buildKubeconfig\<close> sets.\<close>

record kube_cluster =
  Server :: string
  CertificateAuthorityData :: bytes

record kube_auth =
  Token :: string

record kube_context =
  ContextCluster :: string
  ContextAuthInfo :: string
  ContextNamespace :: string

record kubeconfig =
  Clusters :: "(string \<times> kube_cluster) list"
  AuthInfos :: "(string \<times> kube_auth) list"
  Contexts :: "(string \<times> kube_context) list"
  CurrentContext :: string

subsection \<open>Interactions\<close>

text \<open>
  The informers (a dynamic one watches the cluster workspaces of a host, with a label selector
  or without), and the controllers of the program with the arguments of their constructors.
\<close>

datatype informer =
    OperatorInformer
  | WorkspaceInformer string "string option"
  | KubeInformer cluster
  | ClusterInformer cluster

datatype controller_id =
    ClusterManagerController rest_config string string
  | OrgWorkspaceController string string rest_config informer
  | HubWorkspaceController string string string rest_config informer
  | CSRSigningController string string string cluster informer
  | ManagedClusterController string string rest_config informer

datatype call =
    ListerGet string string
  | CacheWrite certificate_signing_request
  | NewForConfig string
  | GetConfigMap cluster string string
  | GetService cluster string string
  | ApplyResource cluster kube_object
  | GetClusterManager string
  | CreateClusterManager cluster_manager
  | UpdateClusterManager cluster_manager
  | GetWorkspace string string
  | UpdateWorkspaceStatus string object
  | UpdateCSRStatus cluster certificate_signing_request
  | ReadFile string
  | Now
  | RandomInt int
  | CreateCertificate certificate ca_cert
  | Event string
  | GoInformer informer
  | GoController controller_id

type_synonym history = "call list"

type_synonym ('s, 'a) go = "((call, 's) world, 'a) prog"

subsection \<open>Answers\<close>

record env =
  env_workspaceLister :: "history \<Rightarrow> informer \<Rightarrow> string \<Rightarrow> go_error + object"
  env_clusterManagerLister :: "history \<Rightarrow> string \<Rightarrow> go_error + cluster_manager"
  env_managedClusterLister :: "history \<Rightarrow> informer \<Rightarrow> string \<Rightarrow> go_error option"
  env_csrLister :: "history \<Rightarrow> informer \<Rightarrow> string \<Rightarrow> go_error + certificate_signing_request"
  env_newForConfig :: "history \<Rightarrow> rest_config \<Rightarrow> go_error option"
  env_getConfigMap :: "history \<Rightarrow> cluster \<Rightarrow> string \<Rightarrow> string \<Rightarrow> go_error + (string \<times> string) list"
  env_getService :: "history \<Rightarrow> cluster \<Rightarrow> string \<Rightarrow> string \<Rightarrow> go_error + int list"
  env_applyResource :: "history \<Rightarrow> cluster \<Rightarrow> kube_object \<Rightarrow> go_error option"
  env_getClusterManager :: "history \<Rightarrow> string \<Rightarrow> go_error + cluster_manager"
  env_createClusterManager :: "history \<Rightarrow> cluster_manager \<Rightarrow> go_error option"
  env_updateClusterManager :: "history \<Rightarrow> cluster_manager \<Rightarrow> go_error option"
  env_getWorkspace :: "history \<Rightarrow> string \<Rightarrow> string \<Rightarrow> go_error + object"
  env_updateWorkspaceStatus :: "history \<Rightarrow> string \<Rightarrow> object \<Rightarrow> go_error option"
  env_updateCSRStatus :: "history \<Rightarrow> cluster \<Rightarrow> certificate_signing_request \<Rightarrow> go_error option"
  env_readFile :: "history \<Rightarrow> string \<Rightarrow> go_error + bytes"
  env_now :: "history \<Rightarrow> time"
  env_randomInt :: "history \<Rightarrow> int \<Rightarrow> go_error + int"
  env_createCertificate :: "history \<Rightarrow> certificate \<Rightarrow> ca_cert \<Rightarrow> string \<Rightarrow> private_key \<Rightarrow> go_error + bytes"
  env_mapOrder :: map_order
  env_parseCertsPEM :: "bytes \<Rightarrow> go_error + ca_cert list"
  env_parsePrivateKeyPEM :: "bytes \<Rightarrow> go_error + private_key"
  env_x509KeyPair :: "bytes \<Rightarrow> bytes \<Rightarrow> go_error option"
  env_pemDecode :: "bytes \<Rightarrow> (string \<times> bytes) option"
  env_pemEncode :: "string \<Rightarrow> bytes \<Rightarrow> bytes"
  env_parseCertificateRequest :: "bytes \<Rightarrow> go_error + cert_request"
  env_checkSignature :: "cert_request \<Rightarrow> go_error option"
  env_clientcmdWrite :: "kubeconfig \<Rightarrow> go_error + bytes"
  env_decode :: "string \<Rightarrow> kube_object option"
  env_formatTime :: "time \<Rightarrow> string"
  env_parseTime :: "string \<Rightarrow> time option"

text \<open>An error option read as the answer of a call without a result.\<close>

definition answer :: "go_error option \<Rightarrow> go_error + unit" where
  "answer r = (case r of None \<Rightarrow> Inr () | Some e \<Rightarrow> Inl e)"

lemma answer_simps [simp]: "answer None = Inr ()" "answer (Some e) = Inl e"
  by (simp_all add: answer_def)

text \<open>\<^verbatim>\<open>kubernetes.NewForConfig\<close>, \<^verbatim>\<open>dynamic.NewForConfig\<close>, \<^verbatim>\<open>clusterclient.NewForConfig\<close>: a client of the configured host.\<close>

definition newForConfig :: "env \<Rightarrow> rest_config \<Rightarrow> ('s, cluster) go" where
  "newForConfig E config = andThen
     (perform (NewForConfig (Host config)) (\<lambda>h. answer (env_newForConfig E h config)))
     (\<lambda>_. ret (Kcp (Host config)))"

definition timeNow :: "env \<Rightarrow> ('s, time) go" where
  "timeNow E = perform Now (\<lambda>h. Inr (env_now E h))"

lemma emits_newForConfig [emits_intros]:
  "P (NewForConfig (Host config)) \<Longrightarrow> emits P I (newForConfig E config)"
  by (auto simp: newForConfig_def intro!: emits_intros)

lemma emits_timeNow [emits_intros]: "P Now \<Longrightarrow> emits P I (timeNow E)"
  by (auto simp: timeNow_def intro!: emits_intros)

lemma safe_newForConfig [safe_intros]: "safe I (newForConfig E config)"
  by (auto simp: newForConfig_def intro!: safe_intros)

lemma safe_timeNow [safe_intros]: "safe I (timeNow E)"
  by (auto simp: timeNow_def intro!: safe_intros)

subsection \<open>Interactions that change something outside the process\<close>

text \<open>
  Reads, clock, random numbers, files and client construction leave the clusters as they are; the
  other interactions write: to an API server, to an object a cache owns, or by starting work.
\<close>

fun is_write :: "call \<Rightarrow> bool" where
  "is_write (CacheWrite _) = True"
| "is_write (ApplyResource _ _) = True"
| "is_write (CreateClusterManager _) = True"
| "is_write (UpdateClusterManager _) = True"
| "is_write (UpdateWorkspaceStatus _ _) = True"
| "is_write (UpdateCSRStatus _ _) = True"
| "is_write (GoInformer _) = True"
| "is_write (GoController _) = True"
| "is_write _ = False"

text \<open>The cluster an interaction is sent to, where it is sent to one.\<close>

fun call_target :: "call \<Rightarrow> cluster option" where
  "call_target (NewForConfig host) = Some (Kcp host)"
| "call_target (GetConfigMap c _ _) = Some c"
| "call_target (GetService c _ _) = Some c"
| "call_target (ApplyResource c _) = Some c"
| "call_target (GetClusterManager _) = Some Hub"
| "call_target (CreateClusterManager _) = Some Hub"
| "call_target (UpdateClusterManager _) = Some Hub"
| "call_target (GetWorkspace host _) = Some (Kcp host)"
| "call_target (UpdateWorkspaceStatus host _) = Some (Kcp host)"
| "call_target (UpdateCSRStatus c _) = Some c"
| "call_target _ = None"

definition writes_of :: "history \<Rightarrow> history" where
  "writes_of h = filter is_write h"

lemma writes_of_append [simp]: "writes_of (h @ h') = writes_of h @ writes_of h'"
  by (simp add: writes_of_def)

lemma writes_of_simps [simp]:
  "writes_of [] = []"
  "writes_of (c # h) = (if is_write c then c # writes_of h else writes_of h)"
  by (simp_all add: writes_of_def)

subsection \<open>A base environment\<close>

text \<open>Every server call fails and every parser accepts nothing: concrete environments override fields of it.\<close>

definition down :: go_error where
  "down = ApiError ''connection refused''"

definition base_env :: env where
  "base_env = \<lparr>
     env_workspaceLister = \<lambda>_ _ n. Inl (NotFound n),
     env_clusterManagerLister = \<lambda>_ n. Inl (NotFound n),
     env_managedClusterLister = \<lambda>_ _ n. Some (NotFound n),
     env_csrLister = \<lambda>_ _ n. Inl (NotFound n),
     env_newForConfig = \<lambda>_ _. None,
     env_getConfigMap = \<lambda>_ _ _ _. Inl down,
     env_getService = \<lambda>_ _ _ _. Inl down,
     env_applyResource = \<lambda>_ _ _. None,
     env_getClusterManager = \<lambda>_ n. Inl (NotFound n),
     env_createClusterManager = \<lambda>_ _. None,
     env_updateClusterManager = \<lambda>_ _. None,
     env_getWorkspace = \<lambda>_ _ n. Inl (NotFound n),
     env_updateWorkspaceStatus = \<lambda>_ _ _. None,
     env_updateCSRStatus = \<lambda>_ _ _. None,
     env_readFile = \<lambda>_ _. Inl down,
     env_now = \<lambda>_. 0,
     env_randomInt = \<lambda>_ _. Inr 0,
     env_createCertificate = \<lambda>_ _ _ _ _. Inr ''der'',
     env_mapOrder = \<lambda>_. 0,
     env_parseCertsPEM = \<lambda>_. Inl down,
     env_parsePrivateKeyPEM = \<lambda>_. Inl down,
     env_x509KeyPair = \<lambda>_ _. None,
     env_pemDecode = \<lambda>_. None,
     env_pemEncode = \<lambda>t b. t @ b,
     env_parseCertificateRequest = \<lambda>_. Inl down,
     env_checkSignature = \<lambda>_. None,
     env_clientcmdWrite = \<lambda>k. Inr (CurrentContext k),
     env_decode = \<lambda>_. None,
     env_formatTime = int_to_string,
     env_parseTime = \<lambda>_. None\<rparr>"

definition demo_kcp :: rest_config where
  "demo_kcp = \<lparr>Host = ''https://kcp'', BearerToken = ''token'', CAData = ''ca'', OtherSettings = ''''\<rparr>"

end
