(* ===== verification/Helpers.thy ===== *)
theory Helpers
  imports Api
begin

section \<open>pkg/helpers/helpers.go\<close>

text \<open>
  The accessors on unstructured workspaces, the conversion of status conditions between JSON
  and \<^verbatim>\<open>metav1.Condition\<close>, \<open>Indent\<close>, the rendering of embedded manifests, \<open>ApplyObjects\<close> and
  \<open>applyClusterManager\<close>. A panic of the Go code is the outcome \<open>Panic\<close>.
\<close>

definition ClusterWorkspaceGVR :: "string \<times> string \<times> string" where
  "ClusterWorkspaceGVR = (''tenancy.kcp.dev'', ''v1alpha1'', ''clusterworkspaces'')"

subsection \<open>Workspace accessors\<close>

text \<open>
  \<^verbatim>\<open>val, found, err := f(); if err != nil { panic(err) }; if !found { return zero }; return val\<close>
\<close>

definition found_or :: "'a \<Rightarrow> go_error + 'a option \<Rightarrow> 'a outcome" where
  "found_or zero r = (case r of
      Inl _ \<Rightarrow> Panic ''accessor error''
    | Inr None \<Rightarrow> Ok zero
    | Inr (Some v) \<Rightarrow> Ok v)"

definition GetWorkspaceType :: "object \<Rightarrow> string outcome" where
  "GetWorkspaceType workspace = (case NestedMap workspace [''spec'', ''type''] of
      Inl _ \<Rightarrow> Panic ''accessor error''
    | Inr None \<Rightarrow> Ok ''''
    | Inr (Some typeReference) \<Rightarrow> found_or '''' (NestedString typeReference [''name'']))"

definition GetWorkspacePhase :: "object \<Rightarrow> string outcome" where
  "GetWorkspacePhase workspace = found_or '''' (NestedString workspace [''status'', ''phase''])"

definition GetWorkspaceURL :: "object \<Rightarrow> string outcome" where
  "GetWorkspaceURL workspace = found_or '''' (NestedString workspace [''status'', ''baseURL''])"

text \<open>Two nested lookups make one lookup along the joined path.\<close>

lemma GetWorkspaceType_path:
  "GetWorkspaceType ws = Ok t \<longleftrightarrow>
     NestedString ws [''spec'', ''type'', ''name''] = Inr (Some t)
       \<and> (\<exists>m. NestedMap ws [''spec'', ''type''] = Inr (Some m)) \<or>
     t = '''' \<and> (NestedMap ws [''spec'', ''type''] = Inr None \<or>
       (\<exists>m. NestedMap ws [''spec'', ''type''] = Inr (Some m) \<and> map_of m ''name'' = None))"
proof -
  have split: "[''spec'', ''type'', ''name''] = [''spec'', ''type''] @ [''name'']" by simp
  show ?thesis
    unfolding split
    by (auto simp: GetWorkspaceType_def found_or_def nested_defs NestedFieldNoCopy_append
        simp del: append_Cons append_Nil
        split: sum.splits option.splits json.splits)
qed

subsection \<open>Conditions as JSON\<close>

text \<open>
  \<open>ToConditions\<close> marshals each item and unmarshals it into a map, which turns every number into
  a float64, and then converts the map field by field. Marshalling loses nothing else.
\<close>

text \<open>The nearest float64 of an int64, ties to the even significand.\<close>

fun excess_bits :: "nat \<Rightarrow> nat" where
  "excess_bits a = (if a < 2 ^ 53 then 0 else Suc (excess_bits (a div 2)))"

declare excess_bits.simps [simp del]

definition float_of_int64 :: "int \<Rightarrow> int \<times> int" where
  "float_of_int64 n =
     (if \<bar>n\<bar> \<le> 2 ^ 53 then (n, 0)
      else let k = excess_bits (nat \<bar>n\<bar>);
               q = \<bar>n\<bar> div 2 ^ k; r = \<bar>n\<bar> mod 2 ^ k; half = 2 ^ (k - 1);
               q' = (if r > half \<or> (r = half \<and> odd q) then q + 1 else q)
           in (sgn n * q', int k))"

fun json_roundtrip :: "json \<Rightarrow> json" where
  "json_roundtrip (JInt n) = (let (m, e) = float_of_int64 n in JFloat m e)"
| "json_roundtrip (JArr xs) = JArr (map json_roundtrip xs)"
| "json_roundtrip (JObj m) = JObj (map (\<lambda>(k, v). (k, json_roundtrip v)) m)"
| "json_roundtrip v = v"

text \<open>\<^verbatim>\<open>FromUnstructured\<close> on the fields of \<^verbatim>\<open>metav1.Condition\<close>: missing and null are the zero value.\<close>

definition string_field :: "object \<Rightarrow> string \<Rightarrow> string option" where
  "string_field m f = (case map_of m f of
      None \<Rightarrow> Some '''' | Some JNull \<Rightarrow> Some '''' | Some (JStr s) \<Rightarrow> Some s | Some _ \<Rightarrow> None)"

definition int_field :: "object \<Rightarrow> string \<Rightarrow> int option" where
  "int_field m f = (case map_of m f of
      None \<Rightarrow> Some 0 | Some JNull \<Rightarrow> Some 0 | Some (JInt n) \<Rightarrow> Some n
    | Some (JFloat n e) \<Rightarrow>
        (if e \<ge> 0 then Some (n * 2 ^ nat e)
         else if n mod 2 ^ nat (- e) = 0 then Some (n div 2 ^ nat (- e)) else None)
    | Some _ \<Rightarrow> None)"

definition time_field :: "env \<Rightarrow> object \<Rightarrow> string \<Rightarrow> time option" where
  "time_field E m f = (case map_of m f of
      None \<Rightarrow> Some 0 | Some JNull \<Rightarrow> Some 0 | Some (JStr s) \<Rightarrow> env_parseTime E s | Some _ \<Rightarrow> None)"

definition condition_fromUnstructured :: "env \<Rightarrow> object \<Rightarrow> condition option" where
  "condition_fromUnstructured E m =
     (case (string_field m ''type'', string_field m ''status'', int_field m ''observedGeneration'',
            time_field E m ''lastTransitionTime'', string_field m ''reason'', string_field m ''message'') of
        (Some ty, Some st, Some g, Some tm, Some r, Some msg) \<Rightarrow>
          Some \<lparr>condType = ty, condStatus = st, condObservedGeneration = g,
            condLastTransitionTime = tm, condReason = r, condMessage = msg\<rparr>
      | _ \<Rightarrow> None)"

definition to_condition :: "env \<Rightarrow> json \<Rightarrow> condition outcome" where
  "to_condition E item = (case json_roundtrip item of
      JNull \<Rightarrow> Ok zero_condition
    | JObj m \<Rightarrow> (case condition_fromUnstructured E m of
        None \<Rightarrow> Panic ''cannot convert'' | Some c \<Rightarrow> Ok c)
    | _ \<Rightarrow> Panic ''json: cannot unmarshal'')"

fun ToConditions :: "env \<Rightarrow> json list \<Rightarrow> condition list outcome" where
  "ToConditions E [] = Ok []"
| "ToConditions E (item # items) = (case to_condition E item of
      Ok c \<Rightarrow> (case ToConditions E items of
          Ok cs \<Rightarrow> Ok (c # cs) | Err e \<Rightarrow> Err e | Panic s \<Rightarrow> Panic s)
    | Err e \<Rightarrow> Err e
    | Panic s \<Rightarrow> Panic s)"

definition condition_toUnstructured :: "env \<Rightarrow> condition \<Rightarrow> object" where
  "condition_toUnstructured E c =
     [(''type'', JStr (condType c)), (''status'', JStr (condStatus c))] @
     (if condObservedGeneration c = 0 then []
      else [(''observedGeneration'', JInt (condObservedGeneration c))]) @
     [(''lastTransitionTime'',
        if condLastTransitionTime c = 0 then JNull
        else JStr (env_formatTime E (condLastTransitionTime c))),
      (''reason'', JStr (condReason c)), (''message'', JStr (condMessage c))]"

definition ToConditionSlice :: "env \<Rightarrow> condition list \<Rightarrow> json list" where
  "ToConditionSlice E conditions = map (\<lambda>c. JObj (condition_toUnstructured E c)) conditions"

definition IsWorkspaceStatusConditionTrue :: "env \<Rightarrow> object \<Rightarrow> string \<Rightarrow> bool outcome" where
  "IsWorkspaceStatusConditionTrue E workspace conditionType =
     (case NestedSlice workspace [''status'', ''conditions''] of
        Inl _ \<Rightarrow> Panic ''accessor error''
      | Inr None \<Rightarrow> Ok False
      | Inr (Some conditions) \<Rightarrow> (case ToConditions E conditions of
          Ok cs \<Rightarrow> Ok (IsStatusConditionTrue cs conditionType)
        | Err e \<Rightarrow> Err e
        | Panic s \<Rightarrow> Panic s))"

text \<open>A condition survives the trip when its time prints and parses back and its generation is a float64.\<close>

definition json_safe :: "env \<Rightarrow> condition \<Rightarrow> bool" where
  "json_safe E c \<longleftrightarrow> \<bar>condObservedGeneration c\<bar> \<le> 2 ^ 53 \<and>
     (condLastTransitionTime c = 0 \<or>
      env_parseTime E (env_formatTime E (condLastTransitionTime c)) = Some (condLastTransitionTime c))"

lemma to_condition_toUnstructured:
  "json_safe E c \<Longrightarrow> to_condition E (JObj (condition_toUnstructured E c)) = Ok c"
  by (auto simp: to_condition_def condition_toUnstructured_def condition_fromUnstructured_def
      string_field_def int_field_def time_field_def json_safe_def float_of_int64_def)

lemma ToConditions_Ok_map:
  "ToConditions E items = Ok cs \<longleftrightarrow> map (to_condition E) items = map Ok cs"
proof -
  have inj: "map Ok xs = map Ok ys \<longleftrightarrow> xs = ys" for xs ys :: "condition list"
    by (simp add: inj_map_eq_map inj_def)
  show ?thesis
    by (induction items arbitrary: cs) (auto simp: Cons_eq_map_conv inj split: outcome.splits, blast+)
qed

lemma to_condition_not_Err: "to_condition E item \<noteq> Err e"
  by (auto simp: to_condition_def split: json.splits option.splits)

lemma ToConditions_not_Err: "ToConditions E items \<noteq> Err e"
  by (induction items) (auto simp: to_condition_not_Err split: outcome.splits)

subsection \<open>Indent\<close>

text \<open>\<^verbatim>\<open>strings.Repeat\<close> panics on a negative count; \<^verbatim>\<open>strings.Replace(.., -1)\<close> replaces every newline.\<close>

definition Indent :: "int \<Rightarrow> string \<Rightarrow> string outcome" where
  "Indent indention v =
     (if indention < 0 then Panic ''strings: negative Repeat count''
      else Ok (concat (map (\<lambda>c. if c = newline then newline # replicate (nat indention) CHR '' '' else [c]) v)))"

lemma float_of_int64_exponent: "\<exists>m e. float_of_int64 n = (m, int e)"
proof (cases "\<bar>n\<bar> \<le> 2 ^ 53")
  case True
  then show ?thesis by (intro exI [of _ n] exI [of _ 0]) (simp add: float_of_int64_def)
qed (simp add: float_of_int64_def Let_def)

lemma to_condition_status:
  assumes "env_parseTime E (env_formatTime E (condLastTransitionTime c)) \<noteq> None"
  shows "\<exists>c'. to_condition E (JObj (condition_toUnstructured E c)) = Ok c' \<and>
    condType c' = condType c \<and> condStatus c' = condStatus c"
proof -
  obtain m e where f: "float_of_int64 (condObservedGeneration c) = (m, int e)"
    using float_of_int64_exponent by blast
  from assms show ?thesis
    by (auto simp: to_condition_def condition_toUnstructured_def condition_fromUnstructured_def
      string_field_def int_field_def time_field_def f)
qed

lemma ToConditions_status:
  assumes "\<forall>t. env_parseTime E (env_formatTime E t) \<noteq> None"
  shows "\<exists>cs'. ToConditions E (ToConditionSlice E cs) = Ok cs' \<and>
    map condType cs' = map condType cs \<and> map condStatus cs' = map condStatus cs"
proof (induction cs)
  case (Cons c cs)
  then show ?case
    using to_condition_status [of E c] assms by (auto simp: ToConditionSlice_def)
qed (simp add: ToConditionSlice_def)

lemma written_conditions_read:
  assumes "\<forall>t. env_parseTime E (env_formatTime E t) \<noteq> None"
    and "SetNestedSlice obj (ToConditionSlice E cs) ''status'' [''conditions''] = Inr obj'"
  shows "IsWorkspaceStatusConditionTrue E obj' t = Ok (IsStatusConditionTrue cs t)"
proof -
  from ToConditions_status [OF assms(1), of cs] obtain cs' where
    "ToConditions E (ToConditionSlice E cs) = Ok cs'"
    "map condType cs' = map condType cs" "map condStatus cs' = map condStatus cs" by blast
  with SetNestedSlice_get [OF assms(2)] show ?thesis
    using IsStatusConditionTrue_cong [of cs' cs t] by (simp add: IsWorkspaceStatusConditionTrue_def)
qed

text \<open>A ready organization workspace with the given conditions, for concrete runs.\<close>

definition demo_workspace :: "json list \<Rightarrow> object" where
  "demo_workspace conditions =
     [(''spec'', JObj [(''type'', JObj [(''name'', JStr ''organization'')])]),
      (''status'', JObj [(''phase'', JStr ''Ready''), (''baseURL'', JStr ''https://kcp:org''),
        (''conditions'', JArr conditions)])]"

definition demo_applied :: condition where
  "demo_applied = zero_condition\<lparr>condType := ''ClusterManagerApplied'', condStatus := ConditionTrue\<rparr>"

definition demo_ws_env :: "condition list \<Rightarrow> env" where
  "demo_ws_env cs = base_env\<lparr>env_getWorkspace := \<lambda>_ _ _. Inr (demo_workspace (ToConditionSlice base_env cs)),
     env_workspaceLister := \<lambda>_ _ _. Inr (demo_workspace (ToConditionSlice base_env cs))\<rparr>"

subsection \<open>Properties\<close>

text \<open>C40: conditions written to unstructured JSON and read back are the same conditions, where the times survive printing and parsing and the generations fit a float64.\<close>

theorem ToConditions_ToConditionSlice:
  "\<forall>c \<in> set cs. json_safe E c \<Longrightarrow> ToConditions E (ToConditionSlice E cs) = Ok cs"
  by (induction cs) (auto simp: ToConditionSlice_def to_condition_toUnstructured)

theorem ToConditions_ToConditionSlice_witness:
  "ToConditions base_env (ToConditionSlice base_env [zero_condition\<lparr>condType := ''Ready''\<rparr>]) =
     Ok [zero_condition\<lparr>condType := ''Ready''\<rparr>]"
  by (rule ToConditions_ToConditionSlice) (simp add: json_safe_def zero_condition_def)

text \<open>Indent keeps the lines and puts the given number of spaces before every line but the first.\<close>

lemma Indent_lines:
  assumes "0 \<le> n"
  shows "Indent n v = Ok (join (newline # replicate (nat n) CHR '' '') (split_on newline v))"
proof -
  have "concat (map (\<lambda>c. if c = newline then newline # replicate (nat n) CHR '' '' else [c]) v) =
      join (newline # replicate (nat n) CHR '' '') (split_on newline v)"
  proof (induction v)
    case (Cons c v)
    then show ?case
      by (cases "split_on newline v"; cases "tl (split_on newline v)") auto
  qed simp
  with assms show ?thesis by (simp add: Indent_def)
qed

lemma Indent_lines_witness:
  "Indent 2 (''a'' @ newline # ''b'') = Ok (''a'' @ newline # ''  b'')"
proof -
  have "Indent 2 (''a'' @ newline # ''b'') =
      Ok (join (newline # replicate (nat 2) CHR '' '') (split_on newline (''a'' @ newline # ''b'')))"
    by (rule Indent_lines) simp
  then show ?thesis by (simp add: newline_def numeral_2_eq_2)
qed

end
