(* ===== verification/Manifests.thy ===== *)
theory Manifests
  imports Prelude
begin

section \<open>The embedded manifests\<close>

text \<open>
  The YAML templates under \<^verbatim>\<open>pkg/controllers/workspace/manifests\<close> and
  \<^verbatim>\<open>pkg/controllers/clustermanager/manifests\<close>, line by line, with their
  \<^verbatim>\<open>{{ .Field }}\<close> actions as segments, the two embedded file systems that hold them, and
  their rendering: \<^verbatim>\<open>text/template\<close> as far as these templates use it.
\<close>

datatype seg = Lit string | Field string

type_synonym template = "seg list list"
type_synonym manifest_fs = "string \<Rightarrow> template option"
type_synonym config = "(string \<times> string) list"

text \<open>\<^verbatim>\<open>tmpl.Execute\<close>: a field the config struct does not have is an error (\<open>None\<close>).\<close>

fun render_seg :: "config \<Rightarrow> seg \<Rightarrow> string option" where
  "render_seg config (Lit s) = Some s"
| "render_seg config (Field f) = map_of config f"

fun render_line :: "config \<Rightarrow> seg list \<Rightarrow> string option" where
  "render_line config [] = Some [newline]"
| "render_line config (s # ss) = (case (render_seg config s, render_line config ss) of
      (Some t, Some ts) \<Rightarrow> Some (t @ ts) | _ \<Rightarrow> None)"

fun render :: "config \<Rightarrow> template \<Rightarrow> string option" where
  "render config [] = Some []"
| "render config (l # ls) = (case (render_line config l, render config ls) of
      (Some t, Some ts) \<Rightarrow> Some (t @ ts) | _ \<Rightarrow> None)"

fun seg_fields :: "seg \<Rightarrow> string list" where
  "seg_fields (Lit s) = []"
| "seg_fields (Field f) = [f]"

definition template_fields :: "template \<Rightarrow> string list" where
  "template_fields t = concat (map (\<lambda>l. concat (map seg_fields l)) t)"

lemma render_seg_None: "render_seg config s = None \<longleftrightarrow> (\<exists>f \<in> set (seg_fields s). map_of config f = None)"
  by (cases s) auto

lemma render_line_None:
  "render_line config l = None \<longleftrightarrow> (\<exists>s \<in> set l. render_seg config s = None)"
  by (induction l) (auto split: option.splits)

lemma render_None_lines: "render config t = None \<longleftrightarrow> (\<exists>l \<in> set t. render_line config l = None)"
  by (induction t) (auto split: option.splits)

lemma render_None:
  "render config t = None \<longleftrightarrow> \<not> set (template_fields t) \<subseteq> fst ` set config"
  by (auto simp: render_None_lines render_line_None render_seg_None template_fields_def
      map_of_eq_None_iff)

lemma render_cong:
  "\<forall>f \<in> set (template_fields t). map_of c f = map_of c' f \<Longrightarrow> render c t = render c' t"
proof -
  have seg: "\<forall>f \<in> set (seg_fields s). map_of c f = map_of c' f \<Longrightarrow> render_seg c s = render_seg c' s" for s
    by (cases s) auto
  have line: "\<forall>s \<in> set l. \<forall>f \<in> set (seg_fields s). map_of c f = map_of c' f \<Longrightarrow>
      render_line c l = render_line c' l" for l
    by (induction l) (auto simp: seg)
  show "\<forall>f \<in> set (template_fields t). map_of c f = map_of c' f \<Longrightarrow> render c t = render c' t"
  proof (induction t)
    case (Cons l ls)
    then have "render_line c l = render_line c' l"
      by (intro line) (auto simp: template_fields_def)
    with Cons show ?case by (simp add: template_fields_def)
  qed simp
qed

subsection \<open>The files\<close>

definition yaml_cluster_manager_namespace :: template where
  \<open>yaml_cluster_manager_namespace =
    [[Lit ''apiVersion: v1''],
     [Lit ''kind: Namespace''],
     [Lit ''metadata:''],
     [Lit ''  name: '', Field ''ClusterManagerName'']]\<close>

definition yaml_cluster_manager_registration_webhook_service :: template where
  \<open>yaml_cluster_manager_registration_webhook_service =
    [[Lit ''apiVersion: v1''],
     [Lit ''kind: Service''],
     [Lit ''metadata:''],
     [Lit ''  name: cluster-manager-registration-webhook''],
     [Lit ''  namespace: '', Field ''ClusterManagerName''],
     [Lit ''spec:''],
     [Lit ''  type: NodePort''],
     [Lit ''  selector:''],
     [Lit ''    app: '', Field ''ClusterManagerName'', Lit ''-registration-webhook''],
     [Lit ''  ports:''],
     [Lit ''  - port: 443''],
     [Lit ''    targetPort: 6443''],
     [Lit ''    nodePort: '', Field ''RegistrationWebhookNodePort'']]\<close>

definition yaml_cluster_manager_work_webhook_service :: template where
  \<open>yaml_cluster_manager_work_webhook_service =
    [[Lit ''apiVersion: v1''],
     [Lit ''kind: Service''],
     [Lit ''metadata:''],
     [Lit ''  name: cluster-manager-work-webhook''],
     [Lit ''  namespace: '', Field ''ClusterManagerName''],
     [Lit ''spec:''],
     [Lit ''  type: NodePort''],
     [Lit ''  selector:''],
     [Lit ''    app: '', Field ''ClusterManagerName'', Lit ''-work-webhook''],
     [Lit ''  ports:''],
     [Lit ''  - port: 443''],
     [Lit ''    targetPort: 6443''],
     [Lit ''    nodePort: '', Field ''WorkWebhookNodePort'']]\<close>

definition yaml_cluster_manager :: template where
  \<open>yaml_cluster_manager =
    [[Lit ''apiVersion: operator.open-cluster-management.io/v1''],
     [Lit ''kind: ClusterManager''],
     [Lit ''metadata:''],
     [Lit ''  name: '', Field ''ClusterManagerName''],
     [Lit ''  annotations:''],
     [Lit ''    "kcp-integration.open-cluster-management.io/workspace": "'', Field ''Org'', Lit '':'', Field ''Workspace'', Lit ''"''],
     [Lit ''spec:''],
     [Lit ''  registrationImagePullSpec: quay.io/skeeey/registration:kcp-latest''],
     [Lit ''  workImagePullSpec: quay.io/open-cluster-management/work''],
     [Lit ''  placementImagePullSpec: quay.io/open-cluster-management/placement''],
     [Lit ''  deployOption:''],
     [Lit ''    mode: Hosted'']]\<close>

definition yaml_external_hub_kubeconfig_secret :: template where
  \<open>yaml_external_hub_kubeconfig_secret =
    [[Lit ''apiVersion: v1''],
     [Lit ''kind: Secret''],
     [Lit ''metadata:''],
     [Lit ''  name: external-hub-kubeconfig''],
     [Lit ''  namespace: '', Field ''ClusterManagerName''],
     [Lit ''type: Opaque''],
     [Lit ''data:''],
     [Lit ''  kubeconfig: "'', Field ''KubeConfig'', Lit ''"'']]\<close>

definition yaml_hub_workspace_clusterrole :: template where
  \<open>yaml_hub_workspace_clusterrole =
    [[Lit ''kind: ClusterRole''],
     [Lit ''apiVersion: rbac.authorization.k8s.io/v1''],
     [Lit ''metadata:''],
     [Lit ''  name:  open-cluster-management:managedclusters:'', Field ''OrgWorkspaceName'', Lit '':'', Field ''WorkspaceName''],
     [Lit ''  annotations:''],
     [Lit ''    kcp.dev/cluster: root:'', Field ''OrgWorkspaceName''],
     [Lit ''  labels:''],
     [Lit ''    workspaces.kcp.dev/name: '', Field ''WorkspaceName''],
     [Lit ''rules:''],
     [Lit ''- apiGroups:''],
     [Lit ''  - tenancy.kcp.dev''],
     [Lit ''  resources:''],
     [Lit ''  - workspaces/content''],
     [Lit ''  resourceNames:''],
     [Lit ''  - '', Field ''WorkspaceName''],
     [Lit ''  verbs:''],
     [Lit ''  - admin'']]\<close>

definition yaml_hub_workspace_clusterrolebinding :: template where
  \<open>yaml_hub_workspace_clusterrolebinding =
    [[Lit ''apiVersion: rbac.authorization.k8s.io/v1''],
     [Lit ''kind: ClusterRoleBinding''],
     [Lit ''metadata:''],
     [Lit ''  name: open-cluster-management:managedclusters:'', Field ''OrgWorkspaceName'', Lit '':'', Field ''WorkspaceName''],
     [Lit ''roleRef:''],
     [Lit ''  apiGroup: rbac.authorization.k8s.io''],
     [Lit ''  kind: ClusterRole''],
     [Lit ''  name:  open-cluster-management:managedclusters:'', Field ''OrgWorkspaceName'', Lit '':'', Field ''WorkspaceName''],
     [Lit ''subjects:''],
     [Lit ''- kind: Group''],
     [Lit ''  apiGroup: rbac.authorization.k8s.io''],
     [Lit ''  name: system:open-cluster-management:'', Field ''ClusterName'']]\<close>

definition yaml_org_workspace_clusterrole :: template where
  \<open>yaml_org_workspace_clusterrole =
    [[Lit ''apiVersion: rbac.authorization.k8s.io/v1''],
     [Lit ''kind: ClusterRole''],
     [Lit ''metadata:''],
     [Lit ''  name: open-cluster-management:managedclusters:'', Field ''OrgWorkspaceName''],
     [Lit ''  annotations:''],
     [Lit ''    kcp.dev/cluster: root''],
     [Lit ''  labels:''],
     [Lit ''    workspaces.kcp.dev/name: '', Field ''OrgWorkspaceName''],
     [Lit ''rules:''],
     [Lit ''- apiGroups:''],
     [Lit ''  - tenancy.kcp.dev''],
     [Lit ''  resources:''],
     [Lit ''  - workspaces/content''],
     [Lit ''  resourceNames:''],
     [Lit ''  - '', Field ''OrgWorkspaceName''],
     [Lit ''  verbs:''],
     [Lit ''  - access'']]\<close>

definition yaml_org_workspace_clusterrolebinding :: template where
  \<open>yaml_org_workspace_clusterrolebinding =
    [[Lit ''apiVersion: rbac.authorization.k8s.io/v1''],
     [Lit ''kind: ClusterRoleBinding''],
     [Lit ''metadata:''],
     [Lit ''  name: open-cluster-management:managedclusters:'', Field ''OrgWorkspaceName''],
     [Lit ''roleRef:''],
     [Lit ''  apiGroup: rbac.authorization.k8s.io''],
     [Lit ''  kind: ClusterRole''],
     [Lit ''  name: open-cluster-management:managedclusters:'', Field ''OrgWorkspaceName''],
     [Lit ''subjects:''],
     [Lit ''- kind: Group''],
     [Lit ''  apiGroup: rbac.authorization.k8s.io''],
     [Lit ''  name: system:open-cluster-management:'', Field ''ClusterName'']]\<close>

definition yaml_cluster_manager_registration_webhook_clustersetbinding_validatingconfiguration :: template where
  \<open>yaml_cluster_manager_registration_webhook_clustersetbinding_validatingconfiguration =
    [[Lit ''apiVersion: admissionregistration.k8s.io/v1''],
     [Lit ''kind: ValidatingWebhookConfiguration''],
     [Lit ''metadata:''],
     [Lit ''  name: managedclustersetbindingvalidators.admission.cluster.open-cluster-management.io''],
     [Lit ''webhooks:''],
     [Lit ''- name: managedclustersetbindingvalidators.admission.cluster.open-cluster-management.io''],
     [Lit ''  failurePolicy: Fail''],
     [Lit ''  clientConfig:''],
     [Lit ''    url: '', Field ''RegistrationWebhookHost'', Lit ''/apis/admission.cluster.open-cluster-management.io/v1/managedclustersetbindingvalidators''],
     [Lit ''    caBundle: '', Field ''CABundle''],
     [Lit ''  rules:''],
     [Lit ''  - operations:''],
     [Lit ''    - CREATE''],
     [Lit ''    - UPDATE''],
     [Lit ''    apiGroups:''],
     [Lit ''    - cluster.open-cluster-management.io''],
     [Lit ''    apiVersions:''],
     [Lit ''    - "*"''],
     [Lit ''    resources:''],
     [Lit ''    - managedclustersetbindings''],
     [Lit ''  admissionReviewVersions: ["v1beta1"]''],
     [Lit ''  sideEffects: None''],
     [Lit ''  timeoutSeconds: 10'']]\<close>

definition yaml_cluster_manager_registration_webhook_mutatingconfiguration :: template where
  \<open>yaml_cluster_manager_registration_webhook_mutatingconfiguration =
    [[Lit ''apiVersion: admissionregistration.k8s.io/v1''],
     [Lit ''kind: MutatingWebhookConfiguration''],
     [Lit ''metadata:''],
     [Lit ''  name: managedclustermutators.admission.cluster.open-cluster-management.io''],
     [Lit ''webhooks:''],
     [Lit ''- name: managedclustermutators.admission.cluster.open-cluster-management.io''],
     [Lit ''  failurePolicy: Fail''],
     [Lit ''  clientConfig:''],
     [Lit ''    url: '', Field ''RegistrationWebhookHost'', Lit ''/apis/admission.cluster.open-cluster-management.io/v1/managedclustermutators''],
     [Lit ''    caBundle: '', Field ''CABundle''],
     [Lit ''  rules:''],
     [Lit ''  - operations:''],
     [Lit ''    - CREATE''],
     [Lit ''    - UPDATE''],
     [Lit ''    apiGroups:''],
     [Lit ''    - cluster.open-cluster-management.io''],
     [Lit ''    apiVersions:''],
     [Lit ''    - "*"''],
     [Lit ''    resources:''],
     [Lit ''    - managedclusters''],
     [Lit ''  admissionReviewVersions: ["v1beta1"]''],
     [Lit ''  sideEffects: None''],
     [Lit ''  timeoutSeconds: 10'']]\<close>

definition yaml_cluster_manager_registration_webhook_validatingconfiguration :: template where
  \<open>yaml_cluster_manager_registration_webhook_validatingconfiguration =
    [[Lit ''apiVersion: admissionregistration.k8s.io/v1''],
     [Lit ''kind: ValidatingWebhookConfiguration''],
     [Lit ''metadata:''],
     [Lit ''  name: managedclustervalidators.admission.cluster.open-cluster-management.io''],
     [Lit ''webhooks:''],
     [Lit ''- name: managedclustervalidators.admission.cluster.open-cluster-management.io''],
     [Lit ''  failurePolicy: Fail''],
     [Lit ''  clientConfig:''],
     [Lit ''    url: '', Field ''RegistrationWebhookHost'', Lit ''/apis/admission.cluster.open-cluster-management.io/v1/managedclustervalidators''],
     [Lit ''    caBundle: '', Field ''CABundle''],
     [Lit ''  rules:''],
     [Lit ''  - operations:''],
     [Lit ''    - CREATE''],
     [Lit ''    - UPDATE''],
     [Lit ''    apiGroups:''],
     [Lit ''    - cluster.open-cluster-management.io''],
     [Lit ''    apiVersions:''],
     [Lit ''    - "*"''],
     [Lit ''    resources:''],
     [Lit ''    - managedclusters''],
     [Lit ''  admissionReviewVersions: ["v1beta1"]''],
     [Lit ''  sideEffects: None''],
     [Lit ''  timeoutSeconds: 10'']]\<close>

definition yaml_cluster_manager_work_webhook_validatingconfiguration :: template where
  \<open>yaml_cluster_manager_work_webhook_validatingconfiguration =
    [[Lit ''apiVersion: admissionregistration.k8s.io/v1''],
     [Lit ''kind: ValidatingWebhookConfiguration''],
     [Lit ''metadata:''],
     [Lit ''  name: manifestworkvalidators.admission.work.open-cluster-management.io''],
     [Lit ''webhooks:''],
     [Lit ''- name: manifestworkvalidators.admission.work.open-cluster-management.io''],
     [Lit ''  failurePolicy: Fail''],
     [Lit ''  clientConfig:''],
     [Lit ''    url: '', Field ''WorkWebhookHost'', Lit ''/apis/admission.work.open-cluster-management.io/v1/manifestworkvalidators''],
     [Lit ''    caBundle: '', Field ''CABundle''],
     [Lit ''  rules:''],
     [Lit ''  - operations:''],
     [Lit ''    - CREATE''],
     [Lit ''    - UPDATE''],
     [Lit ''    apiGroups:''],
     [Lit ''    - work.open-cluster-management.io''],
     [Lit ''    apiVersions:''],
     [Lit ''    - "*"''],
     [Lit ''    resources:''],
     [Lit ''    - manifestworks''],
     [Lit ''  admissionReviewVersions: ["v1beta1"]''],
     [Lit ''  sideEffects: None''],
     [Lit ''  timeoutSeconds: 10'']]\<close>

definition workspace_manifestFiles :: manifest_fs where
  "workspace_manifestFiles = map_of
    [(''manifests/hub/cluster-manager-namespace.yaml'', yaml_cluster_manager_namespace),
     (''manifests/hub/cluster-manager-registration-webhook-service.yaml'', yaml_cluster_manager_registration_webhook_service),
     (''manifests/hub/cluster-manager-work-webhook-service.yaml'', yaml_cluster_manager_work_webhook_service),
     (''manifests/hub/cluster-manager.yaml'', yaml_cluster_manager),
     (''manifests/hub/external-hub-kubeconfig-secret.yaml'', yaml_external_hub_kubeconfig_secret),
     (''manifests/workspace/hub-workspace-clusterrole.yaml'', yaml_hub_workspace_clusterrole),
     (''manifests/workspace/hub-workspace-clusterrolebinding.yaml'', yaml_hub_workspace_clusterrolebinding),
     (''manifests/workspace/org-workspace-clusterrole.yaml'', yaml_org_workspace_clusterrole),
     (''manifests/workspace/org-workspace-clusterrolebinding.yaml'', yaml_org_workspace_clusterrolebinding)]"

definition clustermanager_manifestFiles :: manifest_fs where
  "clustermanager_manifestFiles = map_of
    [(''manifests/cluster-manager-registration-webhook-clustersetbinding-validatingconfiguration.yaml'', yaml_cluster_manager_registration_webhook_clustersetbinding_validatingconfiguration),
     (''manifests/cluster-manager-registration-webhook-mutatingconfiguration.yaml'', yaml_cluster_manager_registration_webhook_mutatingconfiguration),
     (''manifests/cluster-manager-registration-webhook-validatingconfiguration.yaml'', yaml_cluster_manager_registration_webhook_validatingconfiguration),
     (''manifests/cluster-manager-work-webhook-validatingconfiguration.yaml'', yaml_cluster_manager_work_webhook_validatingconfiguration)]"

lemmas yaml_defs = yaml_cluster_manager_namespace_def
  yaml_cluster_manager_registration_webhook_service_def
  yaml_cluster_manager_work_webhook_service_def
  yaml_cluster_manager_def
  yaml_external_hub_kubeconfig_secret_def
  yaml_hub_workspace_clusterrole_def
  yaml_hub_workspace_clusterrolebinding_def
  yaml_org_workspace_clusterrole_def
  yaml_org_workspace_clusterrolebinding_def
  yaml_cluster_manager_registration_webhook_clustersetbinding_validatingconfiguration_def
  yaml_cluster_manager_registration_webhook_mutatingconfiguration_def
  yaml_cluster_manager_registration_webhook_validatingconfiguration_def
  yaml_cluster_manager_work_webhook_validatingconfiguration_def

text \<open>Rendering a file of a file system succeeds.\<close>

definition renders :: "manifest_fs \<Rightarrow> config \<Rightarrow> string \<Rightarrow> bool" where
  "renders fs config n = (case fs n of None \<Rightarrow> False | Some tb \<Rightarrow> render config tb \<noteq> None)"

lemma rendersI: "fs n = Some tb \<Longrightarrow> set (template_fields tb) \<subseteq> fst ` set config \<Longrightarrow> renders fs config n"
  by (simp add: renders_def render_None)

end
