(* ===== verification/Apply.thy ===== *)
theory Apply
  imports Helpers Manifests
begin

section \<open>Applying manifests (pkg/helpers/helpers.go)\<close>

text \<open>
  \<open>mustCreateObjectFromTemplate\<close>, \<open>applyClusterManager\<close> and \<open>ApplyObjects\<close>. The functions of
  library-go's \<^verbatim>\<open>resourceapply\<close> that \<open>ApplyObjects\<close> dispatches to are one interaction each,
  \<open>ApplyResource\<close>, answered by the environment; the decoder of the scheme is the
  parameter \<open>env_decode\<close>.
\<close>

definition mustCreateObjectFromTemplate :: "env \<Rightarrow> template \<Rightarrow> config \<Rightarrow> kube_object outcome" where
  "mustCreateObjectFromTemplate E tb config = (case render config tb of
      None \<Rightarrow> Panic ''template: can't evaluate field''
    | Some buf \<Rightarrow> (case env_decode E buf of
        None \<Rightarrow> Panic ''cannot decode manifest''
      | Some obj \<Rightarrow> Ok obj))"

text \<open>The \<open>ClusterManagerInterface\<close> argument: nil, or a client of the hub.\<close>

datatype cm_client = NilClient | HubClient

definition applyClusterManager :: "env \<Rightarrow> cm_client \<Rightarrow> cluster_manager \<Rightarrow> ('s, unit) go" where
  "applyClusterManager E client required = (case client of
      NilClient \<Rightarrow> panic ''nil pointer dereference''
    | HubClient \<Rightarrow>
        tryP (perform (GetClusterManager (cmName required))
               (\<lambda>h. env_getClusterManager E h (cmName required)))
          (\<lambda>err. if IsNotFound err
            then andThen (perform (CreateClusterManager required)
                   (\<lambda>h. answer (env_createClusterManager E h required)))
                 (\<lambda>_. emit (Event ''ClusterManagerNamespaceCreated''))
            else fail err)
          (\<lambda>existing. if cmSpec existing = cmSpec required then ret ()
            else let existing' = existing\<lparr>cmSpec := cmSpec required\<rparr>
                 in andThen (perform (UpdateClusterManager existing')
                      (\<lambda>h. answer (env_updateClusterManager E h existing')))
                    (\<lambda>_. emit (Event ''ClusterManagerNamespaceUpdated''))))"

definition applyResource :: "env \<Rightarrow> cluster \<Rightarrow> kube_object \<Rightarrow> ('s, unit) go" where
  "applyResource E cl obj = perform (ApplyResource cl obj) (\<lambda>h. answer (env_applyResource E h cl obj))"

text \<open>The type switch: what one object appends to \<open>errs\<close>; an unlisted type appends nothing.\<close>

definition apply_one :: "env \<Rightarrow> cluster \<Rightarrow> cm_client \<Rightarrow> kube_object \<Rightarrow> ('s, go_error option list) go" where
  "apply_one E cl cmc obj = (case obj of
      ClusterManager required \<Rightarrow>
        andThen (errOf (applyClusterManager E cmc required)) (\<lambda>err. ret [err])
    | OtherObject _ _ \<Rightarrow> ret []
    | _ \<Rightarrow> andThen (errOf (applyResource E cl obj)) (\<lambda>err. ret [err]))"

fun create_objects :: "env \<Rightarrow> manifest_fs \<Rightarrow> config \<Rightarrow> string list \<Rightarrow> kube_object list outcome" where
  "create_objects E manifests config [] = Ok []"
| "create_objects E manifests config (fileName # fileNames) = (case manifests fileName of
      None \<Rightarrow> Panic ''file does not exist''
    | Some tb \<Rightarrow> (case mustCreateObjectFromTemplate E tb config of
        Ok obj \<Rightarrow> (case create_objects E manifests config fileNames of
            Ok objs \<Rightarrow> Ok (obj # objs) | Err e \<Rightarrow> Err e | Panic s \<Rightarrow> Panic s)
      | Err e \<Rightarrow> Err e
      | Panic s \<Rightarrow> Panic s))"

definition ApplyObjects ::
  "env \<Rightarrow> cluster \<Rightarrow> cm_client \<Rightarrow> manifest_fs \<Rightarrow> config \<Rightarrow> string list \<Rightarrow> ('s, unit) go" where
  "ApplyObjects E kubeClient cmc manifests config fileNames =
     andThen (ofOutcome (create_objects E manifests config fileNames)) (\<lambda>objs.
     andThen (forEach objs (apply_one E kubeClient cmc)) (\<lambda>errs.
     ofErr (NewAggregate (concat errs))))"

subsection \<open>Rendering\<close>

lemma create_objects_Ok_length:
  "create_objects E fs config names = Ok objs \<Longrightarrow> length objs = length names"
  by (induction names arbitrary: objs) (auto split: option.splits outcome.splits)

definition creates :: "env \<Rightarrow> manifest_fs \<Rightarrow> config \<Rightarrow> string \<Rightarrow> kube_object \<Rightarrow> bool" where
  "creates E fs config n obj \<longleftrightarrow> (\<exists>tb buf. fs n = Some tb \<and> render config tb = Some buf
     \<and> env_decode E buf = Some obj)"

lemma mustCreate_Ok:
  "fs n = Some tb \<Longrightarrow> mustCreateObjectFromTemplate E tb config = Ok obj \<longleftrightarrow> creates E fs config n obj"
  by (auto simp: mustCreateObjectFromTemplate_def creates_def split: option.splits)

lemma create_objects_Ok_iff:
  "create_objects E fs config names = Ok objs \<longleftrightarrow> list_all2 (creates E fs config) names objs"
proof (induction names arbitrary: objs)
  case (Cons n names)
  show ?case
  proof (cases objs)
    case (Cons obj objs')
    show ?thesis
    proof (cases "fs n")
      case None
      then show ?thesis by (simp add: Cons creates_def)
    next
      case (Some tb)
      note m = mustCreate_Ok [of fs n tb E config, OF Some]
      show ?thesis
      proof (cases "mustCreateObjectFromTemplate E tb config")
        case (Ok o')
        with m [of o'] m [of obj] show ?thesis
          by (simp add: Cons Some Cons.IH [symmetric] split: outcome.split)
      qed (use m [of obj] Cons Some in simp_all)
    qed
  qed (auto split: option.splits outcome.splits)
qed auto

lemma create_objects_not_Err: "create_objects E fs config names \<noteq> Err e"
  by (induction names)
    (auto simp: mustCreateObjectFromTemplate_def split: option.splits outcome.splits)

subsection \<open>Interactions\<close>

text \<open>
  What applying objects may send: applies to the given cluster and, with a cluster manager
  client, cluster manager calls to the hub.
\<close>

fun apply_call :: "cluster \<Rightarrow> cm_client \<Rightarrow> call \<Rightarrow> bool" where
  "apply_call cl cmc (ApplyResource c _) = (c = cl)"
| "apply_call cl cmc (GetClusterManager _) = (cmc = HubClient)"
| "apply_call cl cmc (CreateClusterManager _) = (cmc = HubClient)"
| "apply_call cl cmc (UpdateClusterManager _) = (cmc = HubClient)"
| "apply_call cl cmc (Event _) = True"
| "apply_call cl cmc _ = False"

lemma emits_applyClusterManager_call: "emits (apply_call cl cmc) I (applyClusterManager E cmc cm)"
  by (cases cmc) (auto simp: applyClusterManager_def Let_def intro!: emits_intros)

lemma emits_applyResource: "emits (apply_call cl cmc) I (applyResource E cl obj)"
  by (auto simp: applyResource_def intro!: emits_intros)

lemma emits_apply_one: "emits (apply_call cl cmc) I (apply_one E cl cmc obj)"
  by (auto simp: apply_one_def intro!: emits_intros emits_applyClusterManager_call emits_applyResource
      split: kube_object.split)

lemma emits_ApplyObjects: "emits (apply_call cl cmc) I (ApplyObjects E cl cmc fs config names)"
  by (auto simp: ApplyObjects_def intro!: emits_intros emits_apply_one)

lemma emits_ApplyObjects_weak [emits_intros]:
  "(\<And>c. apply_call cl cmc c \<Longrightarrow> P c) \<Longrightarrow> emits P I (ApplyObjects E cl cmc fs config names)"
  by (rule emits_mono [OF emits_ApplyObjects])

lemma ApplyObjects_panic:
  "create_objects E fs config names = Panic s \<Longrightarrow>
     ApplyObjects E cl cmc fs config names w = (Panic s, w)"
  by (simp add: ApplyObjects_def prog_simps)

text \<open>Plain resources are applied in order, each once, whatever the answers.\<close>

fun is_resource :: "kube_object \<Rightarrow> bool" where
  "is_resource (ClusterManager _) = False"
| "is_resource (OtherObject _ _) = False"
| "is_resource _ = True"

lemma apply_one_resource:
  "is_resource obj \<Longrightarrow> apply_one E cl cmc obj w =
     (Ok [env_applyResource E (calls w) cl obj], w\<lparr>calls := calls w @ [ApplyResource cl obj]\<rparr>)"
  by (cases obj) (auto simp: apply_one_def applyResource_def prog_simps answer_def split: option.splits)

fun resource_answers :: "env \<Rightarrow> cluster \<Rightarrow> history \<Rightarrow> kube_object list \<Rightarrow> go_error option list" where
  "resource_answers E cl h [] = []"
| "resource_answers E cl h (obj # objs) =
     env_applyResource E h cl obj # resource_answers E cl (h @ [ApplyResource cl obj]) objs"

lemma forEach_resources:
  "\<forall>obj \<in> set objs. is_resource obj \<Longrightarrow> forEach objs (apply_one E cl cmc) w =
     (Ok (map (\<lambda>e. [e]) (resource_answers E cl (calls w) objs)),
      w\<lparr>calls := calls w @ map (ApplyResource cl) objs\<rparr>)"
  by (induction objs arbitrary: w) (auto simp: prog_simps apply_one_resource)

lemma concat_singletons [simp]: "concat (map (\<lambda>e. [e]) es) = es"
  by (induction es) auto

subsection \<open>applyClusterManager\<close>

lemma applyClusterManager_unchanged:
  "env_getClusterManager E (calls w) (cmName cm) = Inr ex \<Longrightarrow> cmSpec ex = cmSpec cm \<Longrightarrow>
     applyClusterManager E HubClient cm w =
       (Ok (), w\<lparr>calls := calls w @ [GetClusterManager (cmName cm)]\<rparr>)"
  by (simp add: applyClusterManager_def prog_simps)

text \<open>The interaction that starts the application of an object.\<close>

fun is_attempt :: "call \<Rightarrow> bool" where
  "is_attempt (ApplyResource _ _) = True"
| "is_attempt (GetClusterManager _) = True"
| "is_attempt _ = False"

fun attempt_calls :: "cluster \<Rightarrow> kube_object \<Rightarrow> call list" where
  "attempt_calls cl (ClusterManager cm) = [GetClusterManager (cmName cm)]"
| "attempt_calls cl (OtherObject _ _) = []"
| "attempt_calls cl obj = [ApplyResource cl obj]"

lemma apply_one_attempt:
  "\<exists>errs w' cs. apply_one E cl HubClient obj w = (Ok errs, w') \<and> calls w' = calls w @ cs \<and>
     filter is_attempt cs = attempt_calls cl obj"
proof (cases "is_resource obj")
  case True
  then have "attempt_calls cl obj = [ApplyResource cl obj]" by (cases obj) simp_all
  with True show ?thesis by (simp add: apply_one_resource)
next
  case False
  then show ?thesis
    by (cases obj)
      (auto simp: apply_one_def applyClusterManager_def prog_simps Let_def answer_def
        split: sum.splits option.splits)
qed

lemma forEach_attempts:
  "\<exists>errs w' cs. forEach objs (apply_one E cl HubClient) w = (Ok errs, w') \<and> calls w' = calls w @ cs \<and>
     filter is_attempt cs = concat (map (attempt_calls cl) objs)"
proof (induction objs arbitrary: w)
  case (Cons obj objs)
  obtain errs w1 cs where 1: "apply_one E cl HubClient obj w = (Ok errs, w1)" "calls w1 = calls w @ cs"
    "filter is_attempt cs = attempt_calls cl obj" using apply_one_attempt by blast
  from Cons [of w1] obtain errs' w2 cs' where
    "forEach objs (apply_one E cl HubClient) w1 = (Ok errs', w2)" "calls w2 = calls w1 @ cs'"
    "filter is_attempt cs' = concat (map (attempt_calls cl) objs)" by blast
  with 1 show ?case by (intro exI [of _ "errs # errs'"] exI [of _ w2] exI [of _ "cs @ cs'"])
      (simp add: prog_simps)
qed (simp add: prog_simps)

subsection \<open>Manifests that decode, objects that can be applied\<close>

text \<open>
  The decoder makes an object of a manifest once it is rendered, and where the code passes no
  cluster manager client that object is no \<open>ClusterManager\<close>.
\<close>

definition decodes :: "env \<Rightarrow> cm_client \<Rightarrow> manifest_fs \<Rightarrow> config \<Rightarrow> string \<Rightarrow> bool" where
  "decodes E cmc fs config n \<longleftrightarrow> (\<forall>tb buf. fs n = Some tb \<longrightarrow> render config tb = Some buf \<longrightarrow>
     (\<exists>obj. env_decode E buf = Some obj \<and> (cmc = NilClient \<longrightarrow> (\<forall>cm. obj \<noteq> ClusterManager cm))))"

lemma create_objects_no_panic:
  "list_all (renders fs config) names \<Longrightarrow> list_all (decodes E cmc fs config) names \<Longrightarrow>
     \<exists>objs. create_objects E fs config names = Ok objs \<and>
       (cmc = NilClient \<longrightarrow> (\<forall>cm. ClusterManager cm \<notin> set objs))"
proof (induction names)
  case (Cons n names)
  then obtain objs where objs: "create_objects E fs config names = Ok objs"
    "cmc = NilClient \<longrightarrow> (\<forall>cm. ClusterManager cm \<notin> set objs)" by auto
  from Cons.prems obtain tb buf where r: "fs n = Some tb" "render config tb = Some buf"
    by (auto simp: renders_def split: option.splits)
  with Cons.prems obtain obj where "env_decode E buf = Some obj"
    "cmc = NilClient \<longrightarrow> (\<forall>cm. obj \<noteq> ClusterManager cm)" by (auto simp: decodes_def)
  with r objs show ?case by (auto simp: mustCreateObjectFromTemplate_def)
qed simp

lemma safe_apply_one:
  assumes "cmc = NilClient \<Longrightarrow> \<forall>cm. obj \<noteq> ClusterManager cm"
  shows "safe I (apply_one E cl cmc obj)"
  using assms
  by (cases cmc) (auto simp: apply_one_def applyClusterManager_def applyResource_def Let_def
      intro!: safe_intros split: kube_object.split)

lemma safe_ApplyObjects:
  assumes "list_all (renders fs config) names" "list_all (decodes E cmc fs config) names"
  shows "safe I (ApplyObjects E cl cmc fs config names)"
proof -
  from create_objects_no_panic [OF assms] obtain objs where
    "create_objects E fs config names = Ok objs" "cmc = NilClient \<longrightarrow> (\<forall>cm. ClusterManager cm \<notin> set objs)"
    by blast
  then show ?thesis
    by (auto simp: ApplyObjects_def ofOutcome_bind intro!: safe_intros safe_apply_one)
qed

text \<open>Every object of the manifests can be applied, once the history is as long as \<open>N\<close>.\<close>

definition apply_works :: "nat \<Rightarrow> env \<Rightarrow> cluster \<Rightarrow> bool" where
  "apply_works N E cl \<longleftrightarrow> (\<forall>h. N \<le> length h \<longrightarrow> (\<forall>obj. env_applyResource E h cl obj = None) \<and>
     (\<forall>n e. env_getClusterManager E h n = Inl e \<longrightarrow> IsNotFound e) \<and>
     (\<forall>cm. env_createClusterManager E h cm = None) \<and> (\<forall>cm. env_updateClusterManager E h cm = None))"

lemma apply_one_works:
  assumes "apply_works N E cl" "N \<le> length (calls w)" "cmc = NilClient \<Longrightarrow> \<forall>cm. obj \<noteq> ClusterManager cm"
  shows "\<exists>errs. fst (apply_one E cl cmc obj w) = Ok errs \<and> (\<forall>e \<in> set errs. e = None)"
proof (cases obj)
  case (ClusterManager cm)
  with assms show ?thesis
    by (cases cmc) (auto simp: apply_one_def applyClusterManager_def prog_simps Let_def answer_def apply_works_def
        split: sum.split)
qed (use assms in \<open>auto simp: apply_one_def applyResource_def prog_simps answer_def apply_works_def\<close>)

lemma forEach_works:
  assumes "apply_works N E cl"
  shows "N \<le> length (calls w) \<Longrightarrow> (cmc = NilClient \<longrightarrow> (\<forall>cm. ClusterManager cm \<notin> set objs)) \<Longrightarrow>
    \<exists>errs. fst (forEach objs (apply_one E cl cmc) w) = Ok errs \<and> (\<forall>es \<in> set errs. \<forall>e \<in> set es. e = None)"
proof (induction objs arbitrary: w)
  case (Cons obj objs)
  then have "cmc = NilClient \<Longrightarrow> \<forall>cm. obj \<noteq> ClusterManager cm" by auto
  from apply_one_works [OF assms Cons.prems(1) this] obtain errs where
    1: "fst (apply_one E cl cmc obj w) = Ok errs" "\<forall>e \<in> set errs. e = None" by blast
  obtain r w1 where e: "apply_one E cl cmc obj w = (r, w1)" by fastforce
  from emitsD(1) [OF emits_apply_one, of "\<lambda>_. True" w E cl cmc obj] Cons.prems(1) have "N \<le> length (calls w1)"
    by (fastforce simp: e)
  from Cons.IH [OF this] Cons.prems(2) obtain errs' where
    2: "fst (forEach objs (apply_one E cl cmc) w1) = Ok errs'" "\<forall>es \<in> set errs'. \<forall>e \<in> set es. e = None" by auto
  obtain r' w2 where e': "forEach objs (apply_one E cl cmc) w1 = (r', w2)" by fastforce
  from 1 2 e e' show ?case by (auto simp: andThen_def tryP_def ret_def)
qed (simp add: ret_def)

lemma ApplyObjects_works:
  assumes "apply_works N E cl" "N \<le> length (calls w)" "list_all (renders fs config) names" "list_all (decodes E cmc fs config) names"
  shows "fst (ApplyObjects E cl cmc fs config names w) = Ok ()"
proof -
  from create_objects_no_panic [OF assms(3,4)] obtain objs where
    objs: "create_objects E fs config names = Ok objs" "cmc = NilClient \<longrightarrow> (\<forall>cm. ClusterManager cm \<notin> set objs)"
    by blast
  from forEach_works [OF assms(1,2) objs(2)] obtain errs where
    "fst (forEach objs (apply_one E cl cmc) w) = Ok errs" "\<forall>es \<in> set errs. \<forall>e \<in> set es. e = None" by blast
  then have "NewAggregate (concat errs) = None"
    and "\<exists>w'. forEach objs (apply_one E cl cmc) w = (Ok errs, w')"
    by (auto simp: NewAggregate_None) (metis prod.collapse)
  with objs show ?thesis
    by (auto simp: ApplyObjects_def andThen_def tryP_def ofOutcome_def ofErr_def ret_def)
qed

subsection \<open>Properties\<close>

text \<open>An environment whose server refuses the object named a.\<close>

definition demo_object :: "string \<Rightarrow> kube_object" where
  "demo_object n = Namespace \<lparr>objNamespace = '''', objName = n, objContent = ''''\<rparr>"

definition demo_apply_env :: env where
  "demo_apply_env = base_env\<lparr>env_decode := \<lambda>buf. Some (demo_object buf),
     env_applyResource := \<lambda>_ _ obj. if obj = demo_object [CHR ''a'', newline] then Some down else None\<rparr>"

definition demo_files :: manifest_fs where
  "demo_files n = Some [[Lit n]]"

definition demo_start :: "(call, unit) world" where
  "demo_start = \<lparr>calls = [], ctl = ()\<rparr>"

lemma demo_creates:
  "create_objects demo_apply_env demo_files [] [''a'', ''b''] =
     Ok [demo_object [CHR ''a'', newline], demo_object [CHR ''b'', newline]]"
  by (simp add: demo_files_def mustCreateObjectFromTemplate_def demo_apply_env_def)

text \<open>Every object is attempted, in order.\<close>

lemma ApplyObjects_attempts:
  assumes "create_objects E fs config names = Ok objs"
  shows "\<exists>cs. calls (snd (ApplyObjects E cl HubClient fs config names w)) = calls w @ cs \<and>
    filter is_attempt cs = concat (map (attempt_calls cl) objs)"
proof -
  from forEach_attempts [of objs E cl w] obtain errs w' cs where
    f: "forEach objs (apply_one E cl HubClient) w = (Ok errs, w')" and
    cs: "calls w' = calls w @ cs" "filter is_attempt cs = concat (map (attempt_calls cl) objs)" by blast
  have "snd (ApplyObjects E cl HubClient fs config names w) = w'"
    by (simp add: ApplyObjects_def prog_simps assms f split: option.split)
  with cs show ?thesis by blast
qed

text \<open>C21: every object is attempted, once and in the order of the files, whatever happened to the ones before it.\<close>

theorem ApplyObjects_attempts_all:
  assumes "create_objects E fs config names = Ok objs"
  shows "\<exists>cs. calls (snd (ApplyObjects E cl HubClient fs config names w)) = calls w @ cs \<and>
    filter is_attempt cs = concat (map (attempt_calls cl) objs)"
  by (rule ApplyObjects_attempts [OF assms])

theorem ApplyObjects_attempts_all_witness:
  "filter is_attempt (calls (snd (ApplyObjects demo_apply_env Hub HubClient demo_files [] [''a'', ''b''] demo_start))) =
     [ApplyResource Hub (demo_object [CHR ''a'', newline]), ApplyResource Hub (demo_object [CHR ''b'', newline])]"
  using ApplyObjects_attempts_all [OF demo_creates, of Hub demo_start]
  by (auto simp: demo_start_def demo_object_def)

text \<open>Applying plain resources sends exactly one apply per object and returns the aggregate of the errors, nil if there is none.\<close>

lemma ApplyObjects_resources:
  assumes "create_objects E fs config names = Ok objs" and "\<forall>obj \<in> set objs. is_resource obj"
  shows "ApplyObjects E cl cmc fs config names w =
     ((case NewAggregate (resource_answers E cl (calls w) objs) of None \<Rightarrow> Ok () | Some e \<Rightarrow> Err e),
      w\<lparr>calls := calls w @ map (ApplyResource cl) objs\<rparr>)"
  using assms
  by (auto simp: ApplyObjects_def prog_simps forEach_resources split: option.split)

lemma ApplyObjects_resources_example:
  "fst (ApplyObjects demo_apply_env Hub NilClient demo_files [] [''a'', ''b''] demo_start) = Err (Aggregate [down])"
  by (subst ApplyObjects_resources [OF demo_creates])
    (simp_all add: demo_object_def demo_apply_env_def base_env_def NewAggregate_def List.map_filter_def newline_def)

text \<open>C38: when one of the files is missing, does not render or does not decode, the call panics before anything is sent.\<close>

theorem ApplyObjects_all_or_panic:
  assumes "\<nexists>objs. list_all2 (creates E fs config) names objs"
  shows "\<exists>s. ApplyObjects E cl cmc fs config names w = (Panic s, w)"
proof (cases "create_objects E fs config names")
  case (Ok objs)
  with assms show ?thesis by (auto simp: create_objects_Ok_iff)
next
  case (Panic s)
  then show ?thesis using ApplyObjects_panic by blast
qed (simp add: create_objects_not_Err)

theorem ApplyObjects_all_or_panic_witness:
  "\<exists>s. ApplyObjects base_env Hub HubClient workspace_manifestFiles [] [''missing.yaml''] demo_start =
    (Panic s, demo_start)"
  by (rule ApplyObjects_all_or_panic)
    (auto simp: workspace_manifestFiles_def creates_def list_all2_Cons1)


end
