(* ===== verification/Factory.thy ===== *)
theory Factory
  imports Api
begin

section \<open>The controller loop (library-go's factory)\<close>

text \<open>
  Every controller is a \<^verbatim>\<open>sync\<close> function registered with library-go's factory: informer events
  that pass the filter put the object's name on a work queue, one worker takes names off the
  queue and calls \<^verbatim>\<open>sync\<close>, and a name whose sync returned an error goes back on the queue. A
  panic ends the process (\<^verbatim>\<open>HandleCrash\<close> re-panics). The locale \<open>reconciler\<close> is the contract
  between the loop and a controller.
\<close>

type_synonym 's sync_fun = "string \<Rightarrow> ('s, unit) go"

record 's controller =
  ctrlName :: string
  ctrlFilter :: "string \<Rightarrow> bool"
  ctrlState :: 's

record 's worker =
  wqueue :: "string list"
  wworld :: "(call, 's) world"
  wcrashed :: bool

text \<open>\<^verbatim>\<open>workqueue.Add\<close>: a name already waiting is not queued twice.\<close>

definition queue_add :: "string \<Rightarrow> string list \<Rightarrow> string list" where
  "queue_add key q = (if key \<in> set q then q else q @ [key])"

definition eventHandler :: "(string \<Rightarrow> bool) \<Rightarrow> string \<Rightarrow> 's worker \<Rightarrow> 's worker" where
  "eventHandler flt name wk = (if flt name then wk\<lparr>wqueue := queue_add name (wqueue wk)\<rparr> else wk)"

definition processNextWorkItem :: "'s sync_fun \<Rightarrow> 's worker \<Rightarrow> 's worker" where
  "processNextWorkItem sync wk = (case wqueue wk of
      [] \<Rightarrow> wk
    | key # rest \<Rightarrow> (case sync key (wworld wk) of
        (Ok _, w') \<Rightarrow> wk\<lparr>wqueue := rest, wworld := w'\<rparr>
      | (Err e, w') \<Rightarrow> wk\<lparr>wqueue := queue_add key rest, wworld := w'\<rparr>
      | (Panic s, w') \<Rightarrow> wk\<lparr>wqueue := rest, wworld := w', wcrashed := True\<rparr>))"

text \<open>A worker of a freshly made controller, and the runs of it: events and work items in any order.\<close>

definition new_worker :: "'s controller \<Rightarrow> 's worker" where
  "new_worker c = \<lparr>wqueue = [], wworld = \<lparr>calls = [], ctl = ctrlState c\<rparr>, wcrashed = False\<rparr>"

inductive worker_run :: "'s controller \<Rightarrow> 's sync_fun \<Rightarrow> 's worker \<Rightarrow> bool" for c sync where
  start: "worker_run c sync (new_worker c)"
| event: "worker_run c sync wk \<Longrightarrow> worker_run c sync (eventHandler (ctrlFilter c) name wk)"
| work: "worker_run c sync wk \<Longrightarrow> \<not> wcrashed wk \<Longrightarrow> worker_run c sync (processNextWorkItem sync wk)"

inductive_cases worker_runE: "worker_run c sync wk"

lemma queue_add_set [simp]: "set (queue_add k q) = insert k (set q)"
  by (auto simp: queue_add_def)

lemma queue_add_distinct: "distinct q \<Longrightarrow> distinct (queue_add k q)"
  by (simp add: queue_add_def)

text \<open>A failed sync is tried again: its name is still queued afterwards.\<close>

lemma processNextWorkItem_retry:
  "wqueue wk = key # rest \<Longrightarrow> fst (sync key (wworld wk)) = Err e \<Longrightarrow>
     key \<in> set (wqueue (processNextWorkItem sync wk))"
  by (cases "sync key (wworld wk)") (simp add: processNextWorkItem_def)

lemma processNextWorkItem_world:
  "wworld (processNextWorkItem sync wk) = (case wqueue wk of
      [] \<Rightarrow> wworld wk | key # rest \<Rightarrow> snd (sync key (wworld wk)))"
  by (auto simp: processNextWorkItem_def split: list.split outcome.split prod.split)

lemma processNextWorkItem_queue:
  "set (wqueue (processNextWorkItem sync wk)) \<subseteq> set (wqueue wk)"
  by (auto simp: processNextWorkItem_def split: list.split outcome.split prod.split)

text \<open>Only names the filter lets through are ever synced.\<close>

lemma worker_run_filtered: "worker_run c sync wk \<Longrightarrow> \<forall>k \<in> set (wqueue wk). ctrlFilter c k"
proof (induction rule: worker_run.induct)
  case (work wk)
  then show ?case using processNextWorkItem_queue by blast
qed (auto simp: new_worker_def eventHandler_def)

lemma worker_run_queue_distinct: "worker_run c sync wk \<Longrightarrow> distinct (wqueue wk)"
proof (induction rule: worker_run.induct)
  case (work wk)
  then show ?case
    by (auto simp: processNextWorkItem_def queue_add_def split: list.split prod.split outcome.split)
qed (auto simp: new_worker_def eventHandler_def queue_add_distinct)

text \<open>Every interaction of a run was made by the sync of a name that passed the filter.\<close>

lemma worker_run_keyed:
  assumes "worker_run c sync wk" and "\<And>key. emits (P key) I (sync key)" and "I (ctrlState c)"
  shows "I (ctl (wworld wk)) \<and> (\<forall>x \<in> set (calls (wworld wk)). \<exists>key. ctrlFilter c key \<and> P key x)"
  using assms(1)
proof (induction rule: worker_run.induct)
  case (work wk)
  show ?case
  proof (cases "wqueue wk")
    case (Cons key rest)
    with worker_run_filtered [OF work.hyps(1)] have "ctrlFilter c key" by simp
    moreover from work.IH have I: "I (ctl (wworld wk))" by simp
    moreover from I have "I (ctl (snd (sync key (wworld wk))))" using assms(2) by (auto elim: emitsD)
    moreover have "x \<in> set (calls (wworld wk)) \<or> P key x" if "x \<in> set (calls (snd (sync key (wworld wk))))" for x
      using emits_calls [OF assms(2) I that] .
    ultimately show ?thesis using work.IH by (auto simp: processNextWorkItem_world Cons)
  qed (use work.IH in \<open>simp add: processNextWorkItem_world\<close>)
qed (use assms(3) in \<open>simp_all add: new_worker_def eventHandler_def\<close>)

text \<open>The shortest run that does something: one event, then its work item.\<close>

definition first_work :: "'s controller \<Rightarrow> 's sync_fun \<Rightarrow> string \<Rightarrow> 's worker" where
  "first_work c sync name = processNextWorkItem sync (eventHandler (ctrlFilter c) name (new_worker c))"

lemma first_work_run: "worker_run c sync (first_work c sync name)"
  unfolding first_work_def
  by (intro worker_run.work worker_run.event worker_run.start) (simp add: eventHandler_def new_worker_def)

text \<open>Several work items.\<close>

abbreviation work_items :: "'s sync_fun \<Rightarrow> nat \<Rightarrow> 's worker \<Rightarrow> 's worker" where
  "work_items sync k \<equiv> processNextWorkItem sync ^^ k"

lemma processNextWorkItem_tail:
  "\<exists>q'. wqueue (processNextWorkItem sync wk) = tl (wqueue wk) @ q'"
  by (cases "wqueue wk") (auto simp: processNextWorkItem_def queue_add_def split: prod.split outcome.split)

text \<open>The queue is served in order: what is retried goes behind what is waiting.\<close>

lemma work_items_queue:
  "k \<le> length (wqueue wk) \<Longrightarrow> \<exists>q'. wqueue (work_items sync k wk) = drop k (wqueue wk) @ q'"
proof (induction k)
  case (Suc k)
  then obtain q' where q: "wqueue (work_items sync k wk) = drop k (wqueue wk) @ q'" by auto
  with Suc.prems have "tl (wqueue (work_items sync k wk)) = drop (Suc k) (wqueue wk) @ q'"
    by (simp add: drop_Suc tl_drop)
  with processNextWorkItem_tail [of sync "work_items sync k wk"] show ?case by auto
qed simp

lemma work_items_head:
  assumes "k < length (wqueue wk)"
  obtains rest where "wqueue (work_items sync k wk) = wqueue wk ! k # rest"
proof -
  from assms work_items_queue [of k wk sync] obtain q' where
    "wqueue (work_items sync k wk) = drop k (wqueue wk) @ q'" by auto
  with assms that show thesis by (simp add: Cons_nth_drop_Suc [symmetric])
qed

subsection \<open>The contract of a controller\<close>

text \<open>A property of the world that every sync keeps holds in every run of the worker.\<close>

locale loop_invariant =
  fixes sync :: "'s sync_fun" and winv :: "(call, 's) world \<Rightarrow> bool"
  assumes sync_keeps: "keeps winv (sync key)"
begin

lemma worker_keeps:
  assumes "worker_run c sync wk" and "winv (wworld (new_worker c))"
  shows "winv (wworld wk)"
  using assms(1)
proof (induction rule: worker_run.induct)
  case (work wk)
  then show ?case
    using leadsD [OF sync_keeps] by (auto simp: processNextWorkItem_world split: list.split)
qed (use assms(2) in \<open>simp_all add: eventHandler_def\<close>)

end

text \<open>
  The contract most controllers have: an invariant of the in-memory state, and a bound on the
  interactions. It gives a loop invariant.
\<close>

locale reconciler =
  fixes sync :: "'s sync_fun" and inv :: "'s \<Rightarrow> bool" and allowed :: "call \<Rightarrow> bool"
  assumes sync_emits: "emits allowed inv (sync key)"
begin

lemma sync_history:
  "inv (ctl w) \<Longrightarrow> \<exists>cs. calls (snd (sync key w)) = calls w @ cs \<and> (\<forall>c \<in> set cs. allowed c)"
  using sync_emits by (auto simp: emits_def)

end

sublocale reconciler \<subseteq> loop: loop_invariant sync "\<lambda>w. inv (ctl w) \<and> (\<forall>c \<in> set (calls w). allowed c)"
proof (unfold_locales)
  fix key
  show "keeps (\<lambda>w. inv (ctl w) \<and> (\<forall>c \<in> set (calls w). allowed c)) (sync key)"
    unfolding leads_def
    using emits_calls [OF sync_emits] emitsD [OF sync_emits] by (metis (no_types, lifting))
qed

context reconciler begin

lemma worker_sound:
  "worker_run c sync wk \<Longrightarrow> inv (ctrlState c) \<Longrightarrow>
     inv (ctl (wworld wk)) \<and> (\<forall>x \<in> set (calls (wworld wk)). allowed x)"
  using loop.worker_keeps [of c wk] by (simp add: new_worker_def)

end

text \<open>A controller whose sync never panics from its invariant never takes the process down.\<close>

locale crash_free = reconciler +
  assumes no_panic: "inv (ctl w) \<Longrightarrow> fst (sync key w) \<noteq> Panic s"
begin

lemma worker_never_crashes:
  assumes "worker_run c sync wk" and "inv (ctrlState c)"
  shows "\<not> wcrashed wk"
  using assms(1)
proof (induction rule: worker_run.induct)
  case (work wk)
  from worker_sound [OF work.hyps(1) assms(2)] have "inv (ctl (wworld wk))" by blast
  then have "fst (sync key (wworld wk)) \<noteq> Panic s" for key s by (rule no_panic)
  with work.IH show ?case
    by (auto simp: processNextWorkItem_def split: list.split prod.split outcome.split) (metis fst_conv)+
qed (simp_all add: new_worker_def eventHandler_def)

text \<open>Its runs can be continued by any number of work items.\<close>

lemma work_items_run:
  assumes "worker_run c sync wk" and "inv (ctrlState c)"
  shows "worker_run c sync (work_items sync k wk)"
proof (induction k)
  case (Suc k)
  with worker_never_crashes assms(2) show ?case by (auto intro: worker_run.work)
qed (use assms(1) in simp)

end

lemma crash_freeI:
  assumes "reconciler sync I allowed" and "\<And>key. K \<Longrightarrow> safe I (sync key)"
  shows "crash_free sync (\<lambda>s. I s \<and> K) allowed"
proof
  fix key
  show "emits allowed (\<lambda>s. I s \<and> K) (sync key)"
    by (rule emits_const [OF reconciler.sync_emits [OF assms(1)]])
next
  show "fst (sync key w) \<noteq> Panic s" if "I (ctl w) \<and> K" for w key s
    using that assms(2) by (auto dest: safeD)
qed

text \<open>Of the names taken off the queue exactly those whose sync returned an error are queued again.\<close>

lemma failed_sync_requeued:
  assumes "wqueue wk = key # rest" "distinct (key # rest)"
  shows "key \<in> set (wqueue (processNextWorkItem sync wk)) \<longleftrightarrow> (\<exists>e. fst (sync key (wworld wk)) = Err e)"
  using assms by (auto simp: processNextWorkItem_def queue_add_def split: prod.split outcome.split)

lemma failed_sync_requeued_example:
  "''a'' \<in> set (wqueue (processNextWorkItem (\<lambda>_. fail down)
     \<lparr>wqueue = [''a'', ''b''], wworld = \<lparr>calls = [], ctl = ()\<rparr>, wcrashed = False\<rparr>))"
  by (subst failed_sync_requeued [of _ "''a''" "[''b'']"]) (simp_all add: fail_def)

end
