(* ===== verification/Retry.thy ===== *)
theory Retry
  imports Factory
begin

section \<open>Names are retried until their sync succeeds\<close>

text \<open>
  A worker under any mixture of informer events and work items, and the contract of a sync whose
  failures are temporary: each failed attempt uses up some of a budget, and once the sync of the
  name succeeds its goal is reached for good.
\<close>

text \<open>A schedule: \<open>None\<close> is a work item, \<open>Some name\<close> an informer event.\<close>

fun worker_step :: "'s controller \<Rightarrow> 's sync_fun \<Rightarrow> string option \<Rightarrow> 's worker \<Rightarrow> 's worker" where
  "worker_step c sync None wk = processNextWorkItem sync wk"
| "worker_step c sync (Some name) wk = eventHandler (ctrlFilter c) name wk"

definition scheduled :: "'s controller \<Rightarrow> 's sync_fun \<Rightarrow> string option list \<Rightarrow> 's worker \<Rightarrow> 's worker" where
  "scheduled c sync steps wk = fold (worker_step c sync) steps wk"

abbreviation work_count :: "string option list \<Rightarrow> nat" where
  "work_count steps \<equiv> length (filter (\<lambda>s. s = None) steps)"

abbreviation events_of :: "string option list \<Rightarrow> string set" where
  "events_of steps \<equiv> {name. Some name \<in> set steps}"

lemma scheduled_simps [simp]:
  "scheduled c sync [] wk = wk"
  "scheduled c sync (s # steps) wk = scheduled c sync steps (worker_step c sync s wk)"
  by (simp_all add: scheduled_def)

lemma scheduled_work_items: "scheduled c sync (replicate k None) wk = work_items sync k wk"
  by (induction k arbitrary: wk) (simp_all add: funpow_swap1)

text \<open>A controller that never panics keeps running under any schedule.\<close>

context crash_free begin

lemma scheduled_run:
  "worker_run c sync wk \<Longrightarrow> inv (ctrlState c) \<Longrightarrow> worker_run c sync (scheduled c sync steps wk)"
proof (induction steps arbitrary: wk)
  case (Cons s steps)
  then have "worker_run c sync (worker_step c sync s wk)"
    using worker_never_crashes by (cases s) (auto intro: worker_run.work worker_run.event)
  with Cons.IH Cons.prems(2) show ?case by simp
qed simp

end

text \<open>How many names are served before a name's turn comes.\<close>

definition place :: "string \<Rightarrow> string list \<Rightarrow> nat" where
  "place n q = length (takeWhile (\<lambda>k. k \<noteq> n) q)"

lemma place_simps [simp]:
  "place n [] = 0" "place n (k # q) = (if k = n then 0 else Suc (place n q))"
  by (simp_all add: place_def)

lemma place_append: "n \<in> set q \<Longrightarrow> place n (q @ r) = place n q"
  by (induction q) auto

lemma place_queue_add:
  "n \<in> set q \<Longrightarrow> place n (queue_add k q) = place n q"
  "n \<notin> set q \<Longrightarrow> place n (queue_add n q) = length q"
proof -
  show "n \<in> set q \<Longrightarrow> place n (queue_add k q) = place n q" by (simp add: queue_add_def place_append)
  show "n \<notin> set q \<Longrightarrow> place n (queue_add n q) = length q" by (induction q) (auto simp: queue_add_def)
qed

lemma place_nth: "distinct q \<Longrightarrow> k < length q \<Longrightarrow> place (q ! k) q = k"
proof (induction q arbitrary: k)
  case (Cons x q)
  then show ?case by (cases k) auto
qed simp

lemma andThen_getS: "andThen getS k w = k (ctl w) w"
  by (simp add: prog_simps)

text \<open>A program that starts with a call makes the history longer, whatever it does then.\<close>

lemma perform_calls:
  assumes "\<And>e. f (calls w) = Inl e \<Longrightarrow> emits P I (h e)" "\<And>a. f (calls w) = Inr a \<Longrightarrow> emits P I (k a)" "I (ctl w)"
  shows "length (calls w) < length (calls (snd (tryP (perform x f) h k w)))"
proof -
  obtain m where m: "emits P I m" "tryP (perform x f) h k w = m (w\<lparr>calls := calls w @ [x]\<rparr>)"
    using assms(1,2) by (cases "f (calls w)") (auto simp: prog_simps)
  from emitsD [OF m(1), of "w\<lparr>calls := calls w @ [x]\<rparr>"] assms(3) obtain cs where
    "calls (snd (m (w\<lparr>calls := calls w @ [x]\<rparr>))) = calls w @ x # cs" by auto
  with m(2) show ?thesis by simp
qed

locale retried =
  fixes sync :: "'s sync_fun" and winv :: "(call, 's) world \<Rightarrow> bool"
    and n :: string and goal :: "(call, 's) world \<Rightarrow> bool" and budget :: "(call, 's) world \<Rightarrow> nat"
  assumes sync_winv: "winv w \<Longrightarrow> winv (snd (sync k w))"
    and no_panic: "winv w \<Longrightarrow> fst (sync k w) \<noteq> Panic s"
    and budget_mono: "winv w \<Longrightarrow> budget (snd (sync k w)) \<le> budget w"
    and failure_costs: "winv w \<Longrightarrow> fst (sync n w) = Err e \<Longrightarrow> budget (snd (sync n w)) < budget w"
    and success: "winv w \<Longrightarrow> fst (sync n w) = Ok u \<Longrightarrow> goal (snd (sync n w))"
    and goal_stable: "winv w \<Longrightarrow> goal w \<Longrightarrow> goal (snd (sync k w))"
begin

text \<open>The work items left until the goal is reached.\<close>

definition rank :: "nat \<Rightarrow> 's worker \<Rightarrow> nat" where
  "rank U wk = budget (wworld wk) * U + place n (wqueue wk)"

definition on_track :: "string set \<Rightarrow> 's worker \<Rightarrow> bool" where
  "on_track A wk \<longleftrightarrow> winv (wworld wk) \<and> distinct (wqueue wk) \<and> set (wqueue wk) \<subseteq> A"

lemma work_on_track:
  assumes "on_track A wk"
  shows "on_track A (processNextWorkItem sync wk)"
proof (cases "wqueue wk")
  case (Cons k rest)
  with assms sync_winv [of "wworld wk" k] show ?thesis
    by (auto simp: on_track_def processNextWorkItem_def queue_add_distinct split: prod.split outcome.split)
qed (use assms in \<open>simp add: processNextWorkItem_def\<close>)

lemma event_on_track:
  "on_track A wk \<Longrightarrow> name \<in> A \<Longrightarrow> on_track A (eventHandler flt name wk)"
  by (auto simp: on_track_def eventHandler_def queue_add_distinct)

lemma goal_kept:
  assumes "on_track A wk" "goal (wworld wk)" "events_of steps \<subseteq> A"
  shows "goal (wworld (scheduled c sync steps wk))"
  using assms
proof (induction steps arbitrary: wk)
  case (Cons s steps)
  have "on_track A (worker_step c sync s wk)"
    using Cons.prems work_on_track event_on_track by (cases s) auto
  moreover have "goal (wworld (worker_step c sync s wk))"
    using Cons.prems goal_stable
    by (cases s) (auto simp: processNextWorkItem_world eventHandler_def on_track_def split: list.split)
  moreover have "events_of steps \<subseteq> A" using Cons.prems(3) by auto
  ultimately show ?case using Cons.IH by simp
qed simp

text \<open>A work item reaches the goal, or lowers the rank and leaves the name in the queue.\<close>

lemma work_progress:
  assumes "on_track A wk" "finite A" "n \<in> set (wqueue wk)"
  shows "goal (wworld (processNextWorkItem sync wk)) \<or>
    n \<in> set (wqueue (processNextWorkItem sync wk)) \<and>
    rank (card A) (processNextWorkItem sync wk) < rank (card A) wk"
proof -
  from assms(3) obtain k rest where q: "wqueue wk = k # rest" by (cases "wqueue wk") auto
  let ?w = "wworld wk"
  from assms(1) have inv: "winv ?w" and d: "k \<notin> set rest" by (simp_all add: on_track_def q)
  show ?thesis
  proof (cases "k = n")
    case False
    with q assms(3) have n: "n \<in> set rest" by simp
    have "budget (snd (sync k ?w)) * card A \<le> budget ?w * card A"
      using budget_mono [OF inv] by simp
    then have "budget (snd (sync k ?w)) * card A < Suc (budget ?w * card A)" by (rule le_imp_less_Suc)
    with n False no_panic [OF inv, of k] show ?thesis
      by (cases "sync k ?w") (auto simp: processNextWorkItem_def q rank_def place_queue_add split: outcome.split)
  next
    case True
    show ?thesis
    proof (cases "fst (sync n ?w)")
      case (Ok u)
      with success [OF inv] have "goal (snd (sync n ?w))" by simp
      with True show ?thesis by (simp add: processNextWorkItem_world q)
    next
      case (Err e)
      from assms(1) have "distinct (wqueue wk)" "set (wqueue wk) \<subseteq> A" by (simp_all add: on_track_def)
      with card_mono [OF assms(2)] have "length (wqueue wk) \<le> card A" by (metis distinct_card)
      moreover have "Suc (budget (snd (sync n ?w))) * card A \<le> budget ?w * card A"
        using failure_costs [OF inv Err] by (intro mult_right_mono) simp_all
      ultimately have "budget (snd (sync n ?w)) * card A + length rest < budget ?w * card A"
        by (simp add: q)
      moreover obtain w' where "sync n ?w = (Err e, w')" using Err by (cases "sync n ?w") simp
      ultimately show ?thesis
        using True d by (simp add: processNextWorkItem_def q rank_def place_queue_add)
    next
      case (Panic s)
      with no_panic [OF inv] show ?thesis by simp
    qed
  qed
qed

lemma retried_until_done:
  assumes "on_track A wk" "finite A" "n \<in> set (wqueue wk)" "events_of steps \<subseteq> A"
    and "rank (card A) wk < work_count steps"
  shows "goal (wworld (scheduled c sync steps wk))"
  using assms(1,3-5)
proof (induction steps arbitrary: wk)
  case (Cons s steps)
  have ev: "events_of steps \<subseteq> A" using Cons.prems(3) by auto
  show ?case
  proof (cases s)
    case None
    note track = work_on_track [OF Cons.prems(1)]
    from work_progress [OF Cons.prems(1) assms(2) Cons.prems(2)] show ?thesis
    proof
      assume "goal (wworld (processNextWorkItem sync wk))"
      from goal_kept [OF track this ev] None show ?thesis by simp
    next
      assume p: "n \<in> set (wqueue (processNextWorkItem sync wk)) \<and>
        rank (card A) (processNextWorkItem sync wk) < rank (card A) wk"
      with Cons.prems(4) None have "rank (card A) (processNextWorkItem sync wk) < work_count steps" by simp
      with Cons.IH [OF track _ ev] p None show ?thesis by simp
    qed
  next
    case (Some name)
    with Cons.prems(1,3) have track: "on_track A (eventHandler (ctrlFilter c) name wk)"
      by (intro event_on_track) auto
    from Some Cons.prems have "n \<in> set (wqueue (eventHandler (ctrlFilter c) name wk))"
      "rank (card A) (eventHandler (ctrlFilter c) name wk) < work_count steps"
      by (auto simp: eventHandler_def rank_def place_queue_add)
    with Cons.IH track ev Some show ?thesis by simp
  qed
qed simp

end

text \<open>
  The budget of the controllers here: the environment may fail as long as the history is shorter
  than \<open>N\<close>, and every sync makes at least one call.
\<close>

locale outage =
  fixes sync :: "'s sync_fun" and winv :: "(call, 's) world \<Rightarrow> bool"
    and n :: string and goal :: "(call, 's) world \<Rightarrow> bool" and N :: nat
  assumes keeps_winv: "winv w \<Longrightarrow> winv (snd (sync k w))"
    and never_panics: "winv w \<Longrightarrow> fst (sync k w) \<noteq> Panic s"
    and sync_calls: "winv w \<Longrightarrow> length (calls w) < length (calls (snd (sync k w)))"
    and recovered: "winv w \<Longrightarrow> N \<le> length (calls w) \<Longrightarrow> fst (sync n w) \<noteq> Err e"
    and succeeds: "winv w \<Longrightarrow> fst (sync n w) = Ok u \<Longrightarrow> goal (snd (sync n w))"
    and goal_stays: "winv w \<Longrightarrow> goal w \<Longrightarrow> goal (snd (sync k w))"

sublocale outage \<subseteq> retried sync winv n goal "\<lambda>w. N - length (calls w)"
proof (unfold_locales, goal_cases)
  case (3 w k)
  from sync_calls [OF this, of k] show ?case by simp
next
  case (4 w e)
  with recovered [of w e] sync_calls [of w n] show ?case by fastforce
qed (auto simp: never_panics intro: keeps_winv succeeds goal_stays)

context outage begin

lemma done_after_outage:
  assumes "worker_run c sync wk" "winv (wworld wk)" "n \<in> set (wqueue wk)"
    and "finite A" "set (wqueue wk) \<union> events_of steps \<subseteq> A"
    and "N * card A + place n (wqueue wk) < work_count steps"
  shows "goal (wworld (scheduled c sync steps wk))"
proof (rule retried_until_done [OF _ assms(4,3)])
  show "on_track A wk" using assms worker_run_queue_distinct by (auto simp: on_track_def)
  show "events_of steps \<subseteq> A" using assms(5) by simp
  have "(N - length (calls (wworld wk))) * card A \<le> N * card A" by (rule mult_right_mono) simp_all
  then show "rank (card A) wk < work_count steps"
    unfolding rank_def by (rule order.strict_trans1 [OF add_right_mono assms(6)])
qed

end

text \<open>A schedule with the work items that are enough for a name.\<close>

definition enough_work :: "nat \<Rightarrow> string set \<Rightarrow> string option list \<Rightarrow> 's worker \<Rightarrow> string \<Rightarrow> bool" where
  "enough_work N A steps wk n \<longleftrightarrow> n \<in> set (wqueue wk) \<and> finite A \<and> set (wqueue wk) \<union> events_of steps \<subseteq> A \<and>
     N * card A + place n (wqueue wk) < work_count steps"

subsection \<open>Queues that drain\<close>

text \<open>
  A queue drains when errors stop: a sync that succeeds, or panics, takes its name off the queue,
  and a failed one has used up calls of the time in which the environment may fail.
\<close>

definition queue_drains :: "'s controller \<Rightarrow> 's sync_fun \<Rightarrow> nat \<Rightarrow> bool" where
  "queue_drains c sync N \<longleftrightarrow> (\<forall>wk k. worker_run c sync wk \<longrightarrow>
     N - length (calls (wworld wk)) + length (wqueue wk) \<le> k \<longrightarrow> wqueue (work_items sync k wk) = [])"

locale settling =
  fixes sync :: "'s sync_fun" and winv :: "(call, 's) world \<Rightarrow> bool" and N :: nat
  assumes settling_keeps: "winv w \<Longrightarrow> winv (snd (sync k w))"
    and settling_calls: "winv w \<Longrightarrow> length (calls w) < length (calls (snd (sync k w)))"
    and no_error: "winv w \<Longrightarrow> N \<le> length (calls w) \<Longrightarrow> fst (sync k w) \<noteq> Err e"
begin

lemma drained:
  assumes "winv (wworld wk)" "N - length (calls (wworld wk)) + length (wqueue wk) \<le> k"
  shows "wqueue (work_items sync k wk) = []"
  using assms
proof (induction k arbitrary: wk)
  case (Suc k)
  let ?wk = "processNextWorkItem sync wk"
  show ?case
  proof (cases "wqueue wk")
    case Nil
    then have "work_items sync n wk = wk" for n by (induction n) (simp_all add: processNextWorkItem_def)
    with Nil show ?thesis by metis
  next
    case (Cons key rest)
    obtain r w' where s: "sync key (wworld wk) = (r, w')" by fastforce
    with settling_calls [OF Suc.prems(1), of key] have more: "length (calls (wworld wk)) < length (calls w')" by simp
    moreover have "length (calls (wworld wk)) < N" if "r = Err e" for e
      using no_error [OF Suc.prems(1), of key e] that by (auto simp: s intro: leI)
    ultimately have "N - length (calls (wworld ?wk)) + length (wqueue ?wk) \<le> k"
      using Suc.prems(2) by (cases r) (auto simp: processNextWorkItem_def Cons s queue_add_def)
    moreover have "winv (wworld ?wk)" using settling_keeps [OF Suc.prems(1), of key] by (simp add: processNextWorkItem_world Cons)
    ultimately have "wqueue (work_items sync k ?wk) = []" by (intro Suc.IH)
    then show ?thesis by (simp only: funpow_Suc_right o_apply)
  qed
qed simp

lemma drains: "(\<And>wk. worker_run c sync wk \<Longrightarrow> winv (wworld wk)) \<Longrightarrow> queue_drains c sync N"
  unfolding queue_drains_def using drained by blast

end

end
