(* ===== verification/Launcher.thy ===== *)
theory Launcher
  imports Retry
begin

section \<open>The launcher\<close>

text \<open>
  Two controllers keep a map from workspace names to cancel functions and start nested
  controllers the first time a workspace is ready. What they promise is an abstract machine: a
  set of names and the launches made so far, which grows by the whole block of launches of a
  ready name that was not served yet. \<open>ready n x\<close> allows a name to be served with \<open>x\<close> (a URL, a
  client configuration), \<open>block n x\<close> is what serving it launches, in order.
\<close>

type_synonym launches = "string set \<times> history"

inductive launch_step :: "(string \<Rightarrow> 'x \<Rightarrow> bool) \<Rightarrow> (string \<Rightarrow> 'x \<Rightarrow> history) \<Rightarrow> launches \<Rightarrow> launches \<Rightarrow> bool"
  for ready block where
  launch: "ready n x \<Longrightarrow> n \<notin> S \<Longrightarrow> launch_step ready block (S, tr) (insert n S, tr @ block n x)"

abbreviation launcher :: "(string \<Rightarrow> 'x \<Rightarrow> bool) \<Rightarrow> (string \<Rightarrow> 'x \<Rightarrow> history) \<Rightarrow> launches \<Rightarrow> bool" where
  "launcher ready block \<equiv> (launch_step ready block)\<^sup>*\<^sup>* ({}, [])"

text \<open>How a controller looks like a launcher: its map, and what it started, in order.\<close>

fun launched :: "call \<Rightarrow> bool" where
  "launched (GoInformer _) \<longleftrightarrow> True"
| "launched (GoController _) \<longleftrightarrow> True"
| "launched _ \<longleftrightarrow> False"

definition launch_view :: "('s \<Rightarrow> string set) \<Rightarrow> (call, 's) world \<Rightarrow> launches" where
  "launch_view started w = (started (ctl w), filter launched (calls w))"

text \<open>What every launcher guarantees: one launch of a kind for a name that is served, none for another.\<close>

lemma launcher_once:
  assumes "launcher ready block v" and "\<And>m n x. length (filter (L m) (block n x)) = (if m = n then 1 else 0)"
  shows "length (filter (L m) (snd v)) = (if m \<in> fst v then 1 else 0)"
  using assms(1)
proof (induction rule: rtranclp_induct)
  case (step v v')
  from step.hyps(2) step.IH show ?case by cases (auto simp: assms(2))
qed simp

text \<open>Everything it launched belongs to the block of a ready name.\<close>

lemma launcher_sound:
  assumes "launcher ready block v" "c \<in> set (snd v)"
  shows "\<exists>n x. n \<in> fst v \<and> ready n x \<and> c \<in> set (block n x)"
  using assms
proof (induction rule: rtranclp_induct)
  case (step v v')
  from step.hyps(2) step.IH step.prems show ?case by cases auto
qed simp

subsection \<open>The contract of a controller that is a launcher\<close>

text \<open>One sync is matched by at most one step of the launcher.\<close>

locale launching =
  fixes sync :: "'s sync_fun" and same :: "'s \<Rightarrow> bool" and started :: "'s \<Rightarrow> string set"
    and ready :: "string \<Rightarrow> 'x \<Rightarrow> bool" and block :: "string \<Rightarrow> 'x \<Rightarrow> history"
  assumes sync_same: "same (ctl w) \<Longrightarrow> same (ctl (snd (sync k w)))"
    and sync_launches: "same (ctl w) \<Longrightarrow>
      (launch_step ready block)\<^sup>=\<^sup>= (launch_view started w) (launch_view started (snd (sync k w)))"
begin

lemma worker_step_launches:
  assumes "same (ctl (wworld wk))"
  shows "(launch_step ready block)\<^sup>=\<^sup>= (launch_view started (wworld wk))
    (launch_view started (wworld (worker_step c sync s wk)))"
  using sync_launches [OF assms]
  by (cases s) (auto simp: processNextWorkItem_world eventHandler_def split: list.split)

lemma worker_launches:
  assumes "worker_run c sync wk" "same (ctrlState c)" "started (ctrlState c) = {}"
  shows "same (ctl (wworld wk)) \<and> launcher ready block (launch_view started (wworld wk))"
  using assms(1)
proof (induction rule: worker_run.induct)
  case (work wk)
  then have "same (ctl (wworld (processNextWorkItem sync wk)))"
    by (auto simp: processNextWorkItem_world sync_same split: list.split)
  with work.IH worker_step_launches [of wk c None] show ?case by auto
qed (use assms(2,3) in \<open>simp_all add: new_worker_def launch_view_def eventHandler_def\<close>)

lemma launched_once:
  assumes "worker_run c sync wk" "same (ctrlState c)" "started (ctrlState c) = {}"
    and "\<And>m n x. length (filter (L m) (block n x)) = (if m = n then 1 else 0)"
    and "\<And>m x. L m x \<Longrightarrow> launched x"
  shows "length (filter (L n) (calls (wworld wk))) = (if n \<in> started (ctl (wworld wk)) then 1 else 0)"
proof -
  let ?v = "launch_view started (wworld wk)"
  from assms(5) have "filter (L n) (calls (wworld wk)) = filter (L n) (snd ?v)"
    by (auto simp: launch_view_def intro!: filter_cong)
  moreover have "fst ?v = started (ctl (wworld wk))" by (simp add: launch_view_def)
  moreover from worker_launches [OF assms(1-3)] have "launcher ready block ?v" by blast
  note launcher_once [OF this assms(4), of n]
  ultimately show ?thesis by (simp only:)
qed

end

text \<open>
  What a sync has to do to be one: emit no launch and leave the map alone, up to the call that
  serves the name.
\<close>

abbreviation launches_from :: "('s \<Rightarrow> bool) \<Rightarrow> ('s \<Rightarrow> string set) \<Rightarrow> launches \<Rightarrow> (call, 's) world \<Rightarrow> bool" where
  "launches_from same started v w \<equiv> same (ctl w) \<and> launch_view started w = v"

abbreviation launches_to :: "('s \<Rightarrow> bool) \<Rightarrow> ('s \<Rightarrow> string set) \<Rightarrow> (string \<Rightarrow> 'x \<Rightarrow> bool) \<Rightarrow>
    (string \<Rightarrow> 'x \<Rightarrow> history) \<Rightarrow> launches \<Rightarrow> (call, 's) world \<Rightarrow> bool" where
  "launches_to same started ready block v w \<equiv>
     same (ctl w) \<and> (launch_step ready block)\<^sup>=\<^sup>= v (launch_view started w)"

lemma emits_launches:
  assumes "\<And>S. emits (\<lambda>c. \<not> launched c) (\<lambda>s. same s \<and> started s = S) m"
  shows "leads (launches_from same started v) (launches_from same started v) m"
  unfolding leads_def
proof (intro allI impI)
  fix w
  assume w: "launches_from same started v w"
  then obtain cs where "calls (snd (m w)) = calls w @ cs" "\<forall>c \<in> set cs. \<not> launched c"
    "same (ctl (snd (m w)))" "started (ctl (snd (m w))) = started (ctl w)"
    using assms [of "started (ctl w)"] by (auto elim: emitsD)
  with w show "launches_from same started v (snd (m w))"
    by (simp add: launch_view_def filter_empty_conv [THEN iffD2])
qed

lemma listed_launches:
  assumes "\<And>h obj. f h = Inr obj \<Longrightarrow>
    leads (launches_from same started v) (launches_to same started ready block v) (rec obj)"
  shows "leads (launches_from same started v) (launches_to same started ready block v)
    (tryP (perform (ListerGet kind n) f) (\<lambda>err. if IsNotFound err then ret () else fail err) rec)"
proof (rule leads_tryP_outcome, goal_cases)
  case 1
  show ?case by (intro emits_launches emits_perform) simp
next
  case (4 obj w)
  show ?case by (rule assms [OF perform_Ok [OF 4(2)]])
qed (auto intro!: leads_if leads_pure)

lemma launchingI:
  assumes "\<And>k v. leads (launches_from same started v) (launches_to same started ready block v) (sync k)"
  shows "launching sync same started ready block"
proof (unfold_locales, goal_cases)
  case (1 w k)
  with leadsD [OF assms [of "launch_view started w" k], of w] show ?case by simp
next
  case (2 w k)
  with leadsD [OF assms [of "launch_view started w" k], of w] show ?case by simp
qed

subsection \<open>Every launch is possible\<close>

text \<open>
  When serving a ready name always succeeds, the controller can do all that the launcher can:
  the launcher describes its launches exactly.
\<close>

locale launching_exactly = launching +
  assumes serves: "same (ctl w) \<Longrightarrow> ready n x \<Longrightarrow> n \<notin> started (ctl w) \<Longrightarrow>
    fst (sync n w) = Ok () \<and> launch_view started (snd (sync n w)) =
      (insert n (started (ctl w)), filter launched (calls w) @ block n x)"
begin

lemma launches_realized:
  assumes "launcher ready block v" "same (ctrlState c)" "started (ctrlState c) = {}" "\<And>n. ctrlFilter c n"
  shows "\<exists>wk. worker_run c sync wk \<and> wqueue wk = [] \<and> \<not> wcrashed wk \<and> launch_view started (wworld wk) = v"
  using assms(1)
proof (induction rule: rtranclp_induct)
  case base
  show ?case
    using assms(3) by (intro exI [of _ "new_worker c"] conjI worker_run.start)
      (simp_all add: new_worker_def launch_view_def)
next
  case (step v v')
  then obtain wk where wk: "worker_run c sync wk" "wqueue wk = []" "\<not> wcrashed wk"
    "launch_view started (wworld wk) = v" by blast
  with worker_launches [OF wk(1) assms(2,3)] have same: "same (ctl (wworld wk))" by blast
  from step.hyps(2) wk(4) obtain n x where n: "ready n x" "n \<notin> started (ctl (wworld wk))"
    "v' = (insert n (started (ctl (wworld wk))), filter launched (calls (wworld wk)) @ block n x)"
    by cases (auto simp: launch_view_def)
  note s = serves [OF same n(1,2)]
  let ?wk = "eventHandler (ctrlFilter c) n wk"
  have q: "wqueue ?wk = [n]" "wworld ?wk = wworld wk" "\<not> wcrashed ?wk"
    using wk(2,3) assms(4) by (simp_all add: eventHandler_def queue_add_def)
  from s obtain w' where w': "sync n (wworld wk) = (Ok (), w')" "launch_view started w' = v'"
    using n(3) by (cases "sync n (wworld wk)") simp
  with q have "processNextWorkItem sync ?wk = ?wk\<lparr>wqueue := [], wworld := w'\<rparr>"
    by (simp add: processNextWorkItem_def)
  moreover have "worker_run c sync (processNextWorkItem sync ?wk)"
    using wk(1) q(3) by (intro worker_run.work worker_run.event)
  ultimately show ?case
    using q(3) w'(2) by (intro exI [of _ "processNextWorkItem sync ?wk"]) simp
qed

lemma launches_exactly:
  assumes "same (ctrlState c)" "started (ctrlState c) = {}" "\<And>n. ctrlFilter c n"
  shows "(\<exists>wk. worker_run c sync wk \<and> launch_view started (wworld wk) = v) \<longleftrightarrow> launcher ready block v"
  using launches_realized [OF _ assms] worker_launches [OF _ assms(1,2)] by blast

end

end
