(* ===== verification/HubWorkspace.thy ===== *)
theory HubWorkspace
  imports Apply Launcher "HOL-Library.Sublist"
begin

section \<open>The hub workspace controller (workspace/hubworkspace.go)\<close>

text \<open>
  One controller per organization workspace. For each ready hub workspace of the organization it
  applies the cluster manager and its namespace, secret and webhook services on the hub, and
  once the workspace says its cluster manager is applied it starts the CSR signing controller
  and the managed cluster controller of the workspace, once. The map of cancel functions is the
  set of its keys; the node ports are Go \<^verbatim>\<open>int\<close>s, 64-bit words read as signed.
\<close>

definition hubFiles :: "string list" where
  "hubFiles =
    [''manifests/hub/cluster-manager-namespace.yaml'',
     ''manifests/hub/external-hub-kubeconfig-secret.yaml'',
     ''manifests/hub/cluster-manager-registration-webhook-service.yaml'',
     ''manifests/hub/cluster-manager-work-webhook-service.yaml'',
     ''manifests/hub/cluster-manager.yaml'']"

record hub_ctl =
  hubOrgWorkspaceName :: string
  hubCertFile :: string
  hubKeyFile :: string
  hubKcpRestConfig :: rest_config
  hubWorkspaceLister :: informer
  hubControllers :: "string set"
  registrationWebhookNodePort :: "64 word"
  workWebhookNodePort :: "64 word"

definition NewHubWorkspaceController ::
  "string \<Rightarrow> string \<Rightarrow> string \<Rightarrow> rest_config \<Rightarrow> informer \<Rightarrow> hub_ctl controller" where
  "NewHubWorkspaceController orgWorkspaceName certFile keyFile kcpRestConfig workspaceInformer =
     \<lparr>ctrlName = orgWorkspaceName @ ''-workspaces-controller'', ctrlFilter = (\<lambda>_. True),
      ctrlState = \<lparr>hubOrgWorkspaceName = orgWorkspaceName, hubCertFile = certFile,
        hubKeyFile = keyFile, hubKcpRestConfig = kcpRestConfig,
        hubWorkspaceLister = workspaceInformer, hubControllers = {},
        registrationWebhookNodePort = 30442, workWebhookNodePort = 30452\<rparr>\<rparr>"

definition buildKubeconfig :: "rest_config \<Rightarrow> kubeconfig" where
  "buildKubeconfig restConfig =
     \<lparr>Clusters = [(''default-cluster'',
        \<lparr>Server = Host restConfig, CertificateAuthorityData = CAData restConfig\<rparr>)],
      AuthInfos = [(''default-auth'', \<lparr>Token = BearerToken restConfig\<rparr>)],
      Contexts = [(''default-context'',
        \<lparr>ContextCluster = ''default-cluster'', ContextAuthInfo = ''default-auth'',
         ContextNamespace = ''configuration''\<rparr>)],
      CurrentContext = ''default-context''\<rparr>"

definition clusterManagerName :: "string \<Rightarrow> string \<Rightarrow> string" where
  "clusterManagerName orgWorkspaceName workspaceName =
     ''kcp-'' @ orgWorkspaceName @ ''-'' @ workspaceName @ ''-cluster-manager''"

text \<open>The struct the hub manifests are rendered with, from the state after the ports were raised.\<close>

definition clusterManager_config :: "hub_ctl \<Rightarrow> string \<Rightarrow> bytes \<Rightarrow> config" where
  "clusterManager_config c workspaceName kubeConfigData =
     [(''ClusterManagerName'', clusterManagerName (hubOrgWorkspaceName c) workspaceName),
      (''KubeConfig'', base64 kubeConfigData),
      (''Org'', hubOrgWorkspaceName c),
      (''Workspace'', workspaceName),
      (''RegistrationWebhookNodePort'', int_to_string (sint (registrationWebhookNodePort c))),
      (''WorkWebhookNodePort'', int_to_string (sint (workWebhookNodePort c)))]"

definition next_ports :: "hub_ctl \<Rightarrow> hub_ctl" where
  "next_ports c = c\<lparr>registrationWebhookNodePort := registrationWebhookNodePort c + 1,
     workWebhookNodePort := workWebhookNodePort c + 1\<rparr>"

definition prepareClusterManager :: "env \<Rightarrow> string \<Rightarrow> rest_config \<Rightarrow> (hub_ctl, unit) go" where
  "prepareClusterManager E workspaceName restConfig =
     andThen (ofSum (env_clientcmdWrite E (buildKubeconfig restConfig))) (\<lambda>kubeConfigData.
     andThen (modifyS next_ports) (\<lambda>_.
     andThen getS (\<lambda>c.
     ApplyObjects E Hub HubClient workspace_manifestFiles
       (clusterManager_config c workspaceName kubeConfigData) hubFiles)))"

definition startHubControllers :: "env \<Rightarrow> string \<Rightarrow> rest_config \<Rightarrow> (hub_ctl, unit) go" where
  "startHubControllers E workspaceName restConfig = andThen getS (\<lambda>c.
     if workspaceName \<in> hubControllers c then ret ()
     else
       andThen (newForConfig E restConfig) (\<lambda>kubeClient.
       andThen (newForConfig E restConfig) (\<lambda>clusterClient.
       andThen (modifyS (\<lambda>c. c\<lparr>hubControllers := insert workspaceName (hubControllers c)\<rparr>)) (\<lambda>_.
       andThen (emit (GoInformer (KubeInformer kubeClient))) (\<lambda>_.
       andThen (emit (GoInformer (ClusterInformer clusterClient))) (\<lambda>_.
       andThen (emit (GoController (CSRSigningController workspaceName (hubCertFile c)
         (hubKeyFile c) kubeClient (KubeInformer kubeClient)))) (\<lambda>_.
       emit (GoController (ManagedClusterController (hubOrgWorkspaceName c) workspaceName
         (hubKcpRestConfig c) (ClusterInformer clusterClient))))))))))"

text \<open>The sync from the workspace's phase on, for the workspace the lister returned.\<close>

definition hub_reconcile :: "env \<Rightarrow> rest_config \<Rightarrow> string \<Rightarrow> object \<Rightarrow> (hub_ctl, unit) go" where
  "hub_reconcile E kcpRestConfig workspaceName workspace =
     andThen (ofOutcome (GetWorkspacePhase workspace)) (\<lambda>phase.
     if phase \<noteq> ''Ready'' then ret ()
     else
       andThen (ofOutcome (GetWorkspaceURL workspace)) (\<lambda>url.
       let workspaceConfig = (CopyConfig kcpRestConfig)\<lparr>Host := url\<rparr> in
       andThen (prepareClusterManager E workspaceName workspaceConfig) (\<lambda>_.
       andThen (ofOutcome (IsWorkspaceStatusConditionTrue E workspace ''ClusterManagerApplied''))
         (\<lambda>applied.
         if \<not> applied then ret ()
         else startHubControllers E workspaceName workspaceConfig))))"

definition hub_sync :: "env \<Rightarrow> hub_ctl sync_fun" where
  "hub_sync E workspaceName = andThen getS (\<lambda>c.
     tryP (perform (ListerGet ''clusterworkspaces'' workspaceName)
            (\<lambda>h. env_workspaceLister E h (hubWorkspaceLister c) workspaceName))
       (\<lambda>err. if IsNotFound err then ret () else fail err)
       (hub_reconcile E (hubKcpRestConfig c) workspaceName))"

subsection \<open>The kubeconfig and the manifests\<close>

lemma buildKubeconfig_current:
  "\<exists>ctx cl auth. map_of (Contexts (buildKubeconfig rc)) (CurrentContext (buildKubeconfig rc)) = Some ctx \<and>
     map_of (Clusters (buildKubeconfig rc)) (ContextCluster ctx) = Some cl \<and>
     map_of (AuthInfos (buildKubeconfig rc)) (ContextAuthInfo ctx) = Some auth \<and>
     Server cl = Host rc \<and> CertificateAuthorityData cl = CAData rc \<and> Token auth = BearerToken rc"
  by (simp add: buildKubeconfig_def)

lemma hub_manifests_render:
  "list_all (renders workspace_manifestFiles (clusterManager_config c n data)) hubFiles"
  by (auto simp: list_all_iff hubFiles_def workspace_manifestFiles_def clusterManager_config_def
      yaml_defs template_fields_def intro!: rendersI)

subsection \<open>Ports\<close>

definition ports_from :: "nat \<Rightarrow> hub_ctl \<Rightarrow> bool" where
  "ports_from k c \<longleftrightarrow> registrationWebhookNodePort c = 30442 + of_nat k \<and>
     workWebhookNodePort c = 30452 + of_nat k"

lemma ports_from_next: "ports_from k c \<Longrightarrow> ports_from (Suc k) (next_ports c)"
  by (simp add: ports_from_def next_ports_def)

lemma ApplyObjects_state: "ctl (snd (ApplyObjects E cl cmc fs config names w)) = ctl w"
  using emits_ApplyObjects [of cl cmc "\<lambda>s. s = ctl w" E fs config names] by (auto elim: emitsD)

lemma prepareClusterManager_state:
  "env_clientcmdWrite E (buildKubeconfig rc) = Inr data \<Longrightarrow>
     prepareClusterManager E n rc w =
       ApplyObjects E Hub HubClient workspace_manifestFiles
         (clusterManager_config (next_ports (ctl w)) n data) hubFiles (w\<lparr>ctl := next_ports (ctl w)\<rparr>)"
  by (simp add: prepareClusterManager_def prog_simps)

lemma prepareClusterManager_ports:
  "env_clientcmdWrite E (buildKubeconfig rc) = Inr data \<Longrightarrow>
     ctl (snd (prepareClusterManager E n rc w)) = next_ports (ctl w)"
  by (simp add: prepareClusterManager_state ApplyObjects_state)

lemma prepareClusterManager_no_kubeconfig:
  "env_clientcmdWrite E (buildKubeconfig rc) = Inl err \<Longrightarrow>
     prepareClusterManager E n rc w = (Err err, w)"
  by (simp add: prepareClusterManager_def prog_simps)

subsection \<open>Starting the nested controllers\<close>

definition csr_controller_of :: "hub_ctl \<Rightarrow> string \<Rightarrow> rest_config \<Rightarrow> controller_id" where
  "csr_controller_of c n rc = CSRSigningController n (hubCertFile c) (hubKeyFile c)
     (Kcp (Host rc)) (KubeInformer (Kcp (Host rc)))"

definition mc_controller_of :: "hub_ctl \<Rightarrow> string \<Rightarrow> rest_config \<Rightarrow> controller_id" where
  "mc_controller_of c n rc = ManagedClusterController (hubOrgWorkspaceName c) n
     (hubKcpRestConfig c) (ClusterInformer (Kcp (Host rc)))"

definition hub_start_calls :: "hub_ctl \<Rightarrow> string \<Rightarrow> rest_config \<Rightarrow> call list" where
  "hub_start_calls c n rc =
     [NewForConfig (Host rc), NewForConfig (Host rc), GoInformer (KubeInformer (Kcp (Host rc))),
      GoInformer (ClusterInformer (Kcp (Host rc))), GoController (csr_controller_of c n rc),
      GoController (mc_controller_of c n rc)]"

lemma startHubControllers_again:
  "n \<in> hubControllers (ctl w) \<Longrightarrow> startHubControllers E n rc w = (Ok (), w)"
  by (simp add: startHubControllers_def prog_simps)

lemma startHubControllers_first:
  "n \<notin> hubControllers (ctl w) \<Longrightarrow> startHubControllers E n rc w =
     (let h1 = calls w @ [NewForConfig (Host rc)]; h2 = h1 @ [NewForConfig (Host rc)] in
      case env_newForConfig E (calls w) rc of
        Some e \<Rightarrow> (Err e, w\<lparr>calls := h1\<rparr>)
      | None \<Rightarrow> (case env_newForConfig E h1 rc of
          Some e \<Rightarrow> (Err e, w\<lparr>calls := h2\<rparr>)
        | None \<Rightarrow> (Ok (), w\<lparr>calls := calls w @ hub_start_calls (ctl w) n rc,
            ctl := (ctl w)\<lparr>hubControllers := insert n (hubControllers (ctl w))\<rparr>\<rparr>)))"
  by (simp add: startHubControllers_def newForConfig_def prog_simps hub_start_calls_def
      csr_controller_of_def mc_controller_of_def Let_def split: option.split)

fun launches_csr :: "string \<Rightarrow> call \<Rightarrow> bool" where
  "launches_csr n (GoController (CSRSigningController ws _ _ _ _)) \<longleftrightarrow> ws = n"
| "launches_csr n _ \<longleftrightarrow> False"

fun launches_mc :: "string \<Rightarrow> call \<Rightarrow> bool" where
  "launches_mc n (GoController (ManagedClusterController _ ws _ _)) \<longleftrightarrow> ws = n"
| "launches_mc n _ \<longleftrightarrow> False"

subsection \<open>The contract\<close>

text \<open>
  A workspace that may get its controllers: listed, ready, with its cluster manager applied; its
  client is configured for the URL in its status.
\<close>

definition hub_ready :: "env \<Rightarrow> hub_ctl \<Rightarrow> string \<Rightarrow> rest_config \<Rightarrow> bool" where
  "hub_ready E c0 n rc \<longleftrightarrow> (\<exists>h ws url.
     env_workspaceLister E h (hubWorkspaceLister c0) n = Inr ws \<and>
     GetWorkspacePhase ws = Ok ''Ready'' \<and> GetWorkspaceURL ws = Ok url \<and>
     IsWorkspaceStatusConditionTrue E ws ''ClusterManagerApplied'' = Ok True \<and>
     rc = (hubKcpRestConfig c0)\<lparr>Host := url\<rparr>)"

fun hub_allowed :: "env \<Rightarrow> hub_ctl \<Rightarrow> call \<Rightarrow> bool" where
  "hub_allowed E c0 (GoController cid) \<longleftrightarrow> (\<exists>n rc. hub_ready E c0 n rc \<and>
     (cid = csr_controller_of c0 n rc \<or> cid = mc_controller_of c0 n rc))"
| "hub_allowed E c0 (GoInformer i) \<longleftrightarrow> (\<exists>n rc. hub_ready E c0 n rc \<and>
     (i = KubeInformer (Kcp (Host rc)) \<or> i = ClusterInformer (Kcp (Host rc))))"
| "hub_allowed E c0 (NewForConfig host) \<longleftrightarrow> (\<exists>n rc. hub_ready E c0 n rc \<and> host = Host rc)"
| "hub_allowed E c0 (ListerGet _ _) \<longleftrightarrow> True"
| "hub_allowed E c0 x \<longleftrightarrow> apply_call Hub HubClient x"

definition hub_same :: "hub_ctl \<Rightarrow> hub_ctl \<Rightarrow> bool" where
  "hub_same c0 c \<longleftrightarrow> hubOrgWorkspaceName c = hubOrgWorkspaceName c0 \<and>
     hubCertFile c = hubCertFile c0 \<and> hubKeyFile c = hubKeyFile c0 \<and>
     hubKcpRestConfig c = hubKcpRestConfig c0 \<and> hubWorkspaceLister c = hubWorkspaceLister c0 \<and>
     (\<exists>k. ports_from k c)"

lemma hub_same_fields:
  assumes "hub_same c0 c"
  shows "csr_controller_of c n rc = csr_controller_of c0 n rc"
    "mc_controller_of c n rc = mc_controller_of c0 n rc"
    "hubWorkspaceLister c = hubWorkspaceLister c0" "hubKcpRestConfig c = hubKcpRestConfig c0"
  using assms by (simp_all add: hub_same_def csr_controller_of_def mc_controller_of_def)

lemma hub_same_next: "hub_same c0 c \<Longrightarrow> hub_same c0 (next_ports c)"
  using ports_from_next by (auto simp: hub_same_def next_ports_def)

lemma hub_same_insert:
  "hub_same c0 c \<Longrightarrow> hub_same c0 (c\<lparr>hubControllers := S\<rparr>)"
  by (simp add: hub_same_def ports_from_def)

lemma apply_call_hub: "apply_call Hub HubClient x \<Longrightarrow> hub_allowed E c0 x"
  by (cases x) auto

lemma emits_prepareClusterManager:
  "emits (hub_allowed E c0) (hub_same c0) (prepareClusterManager E n rc)"
  unfolding prepareClusterManager_def
  by (intro emits_andThen emits_ofSum emits_modifyS emits_getS emits_ApplyObjects_weak)
    (auto intro: hub_same_next apply_call_hub)

lemma hub_start_calls_allowed:
  "hub_same c0 c \<Longrightarrow> hub_ready E c0 n rc \<Longrightarrow> x \<in> set (hub_start_calls c n rc) \<Longrightarrow> hub_allowed E c0 x"
  by (auto simp: hub_start_calls_def hub_same_fields; blast)

lemma emits_startHubControllers:
  assumes "hub_ready E c0 n rc"
  shows "emits (hub_allowed E c0) (hub_same c0) (startHubControllers E n rc)"
  unfolding emits_def
proof (intro allI impI)
  fix w :: "(call, hub_ctl) world"
  assume same: "hub_same c0 (ctl w)"
  have "hub_allowed E c0 (NewForConfig (Host rc))" using assms by auto
  moreover note hub_start_calls_allowed [OF same assms]
  ultimately show "(\<exists>cs. calls (snd (startHubControllers E n rc w)) = calls w @ cs \<and>
      (\<forall>c \<in> set cs. hub_allowed E c0 c)) \<and> hub_same c0 (ctl (snd (startHubControllers E n rc w)))"
    using same
    by (cases "n \<in> hubControllers (ctl w)")
      (auto simp: startHubControllers_again startHubControllers_first Let_def hub_same_insert
        simp del: hub_allowed.simps split: option.split)
qed

lemma emits_hub_reconcile:
  assumes "env_workspaceLister E h (hubWorkspaceLister c0) n = Inr ws"
  shows "emits (hub_allowed E c0) (hub_same c0) (hub_reconcile E (hubKcpRestConfig c0) n ws)"
  unfolding hub_reconcile_def
  by (rule emits_andThen_outcome emits_if emits_ret emits_ofOutcome emits_prepareClusterManager
      emits_startHubControllers | simp only: Let_def)+
    (use assms in \<open>auto simp: hub_ready_def ofOutcome_def\<close>)

interpretation hub_loop: reconciler "hub_sync E" "hub_same c0" "hub_allowed E c0"
  for E :: env and c0 :: hub_ctl
proof (unfold_locales)
  fix n
  show "emits (hub_allowed E c0) (hub_same c0) (hub_sync E n)"
    unfolding hub_sync_def
  proof (rule emits_getS_bind, goal_cases)
    case (1 c)
    show ?case
      unfolding hub_same_fields [OF 1]
      by (rule emits_tryP_outcome)
        (auto intro!: emits_perform emits_ret emits_fail emits_hub_reconcile dest: perform_Ok)
  qed
qed

subsection \<open>The controller is a launcher\<close>

text \<open>What serving a workspace launches: the informers, then the two controllers.\<close>

definition hub_block :: "hub_ctl \<Rightarrow> string \<Rightarrow> rest_config \<Rightarrow> history" where
  "hub_block c n rc = [GoInformer (KubeInformer (Kcp (Host rc))), GoInformer (ClusterInformer (Kcp (Host rc))),
     GoController (csr_controller_of c n rc), GoController (mc_controller_of c n rc)]"

lemma hub_block_counts:
  "length (filter (launches_csr m) (hub_block c n rc)) = (if m = n then 1 else 0)"
  "length (filter (launches_mc m) (hub_block c n rc)) = (if m = n then 1 else 0)"
  by (simp_all add: hub_block_def csr_controller_of_def mc_controller_of_def)

lemma launches_launched: "launches_csr n x \<Longrightarrow> launched x" "launches_mc n x \<Longrightarrow> launched x"
  by (cases x; simp)+

lemma apply_call_not_launched: "apply_call cl cmc x \<Longrightarrow> \<not> launched x"
  by (cases x) auto

lemma prepareClusterManager_launches:
  "leads (launches_from (hub_same c0) hubControllers v) (launches_from (hub_same c0) hubControllers v)
     (prepareClusterManager E n rc)"
  unfolding prepareClusterManager_def
  by (intro emits_launches emits_andThen emits_ofSum emits_modifyS emits_getS emits_ApplyObjects_weak)
    (auto simp: hub_same_next next_ports_def dest: apply_call_not_launched intro: hub_same_next [unfolded next_ports_def])

lemma startHubControllers_launches:
  assumes "hub_ready E c0 n rc"
  shows "leads (launches_from (hub_same c0) hubControllers v)
    (launches_to (hub_same c0) hubControllers (hub_ready E c0) (hub_block c0) v) (startHubControllers E n rc)"
  unfolding leads_def
proof (intro allI impI)
  fix w
  assume w: "launches_from (hub_same c0) hubControllers v w"
  then have b: "hub_block (ctl w) = hub_block c0" by (simp add: hub_block_def hub_same_fields fun_eq_iff)
  from w have v: "v = (hubControllers (ctl w), filter launched (calls w))" by (simp add: launch_view_def)
  show "launches_to (hub_same c0) hubControllers (hub_ready E c0) (hub_block c0) v (snd (startHubControllers E n rc w))"
  proof (cases "n \<in> hubControllers (ctl w)")
    case False
    with assms have "launch_step (hub_ready E c0) (hub_block c0) v
        (insert n (hubControllers (ctl w)), filter launched (calls w) @ hub_block c0 n rc)"
      unfolding v by (intro launch_step.launch)
    with w False show ?thesis
      by (auto simp: startHubControllers_first Let_def hub_same_insert hub_start_calls_def launch_view_def b [symmetric]
          hub_block_def split: option.split)
  qed (use w in \<open>simp add: startHubControllers_again\<close>)
qed

lemma hub_sync_launches:
  "leads (launches_from (hub_same c0) hubControllers v)
     (launches_to (hub_same c0) hubControllers (hub_ready E c0) (hub_block c0) v) (hub_sync E n)"
proof -
  let ?A = "launches_from (hub_same c0) hubControllers v"
  let ?B = "launches_to (hub_same c0) hubControllers (hub_ready E c0) (hub_block c0) v"
  have AB: "?A w \<Longrightarrow> ?B w" for w by simp
  have o: "leads ?A ?A (ofOutcome r)" for r by (rule leads_pure) simp
  have rec: "leads ?A ?B (hub_reconcile E (hubKcpRestConfig c0) n ws)"
    if "env_workspaceLister E h (hubWorkspaceLister c0) n = Inr ws" for h ws
    unfolding hub_reconcile_def Let_def
    by (rule leads_andThen_outcome leads_if o AB prepareClusterManager_launches startHubControllers_launches
        leads_pure | assumption)+ (use that in \<open>auto simp: hub_ready_def ofOutcome_def\<close>)
  show ?thesis
    unfolding hub_sync_def
  proof (rule leads_getS_bind)
    fix w
    assume "?A w"
    then have f: "hubWorkspaceLister (ctl w) = hubWorkspaceLister c0" "hubKcpRestConfig (ctl w) = hubKcpRestConfig c0"
      by (simp_all add: hub_same_fields)
    show "leads ?A ?B (tryP (perform (ListerGet ''clusterworkspaces'' n)
        (\<lambda>h. env_workspaceLister E h (hubWorkspaceLister (ctl w)) n))
        (\<lambda>err. if IsNotFound err then ret () else fail err) (hub_reconcile E (hubKcpRestConfig (ctl w)) n))"
      unfolding f by (intro listed_launches rec)
  qed
qed

interpretation hub_launching: launching "hub_sync E" "hub_same c0" hubControllers "hub_ready E c0" "hub_block c0"
  for E :: env and c0 :: hub_ctl
  by (rule launchingI [OF hub_sync_launches])

subsection \<open>Panics and progress\<close>

text \<open>
  What keeps the controller from panicking: the fields of a listed workspace have the types the
  accessors expect, its conditions convert, and the hub manifests decode.
\<close>

definition hub_sane :: "env \<Rightarrow> hub_ctl \<Rightarrow> bool" where
  "hub_sane E c0 \<longleftrightarrow> (\<forall>h n ws. env_workspaceLister E h (hubWorkspaceLister c0) n = Inr ws \<longrightarrow>
     (\<forall>s. GetWorkspacePhase ws \<noteq> Panic s \<and> GetWorkspaceURL ws \<noteq> Panic s \<and>
        IsWorkspaceStatusConditionTrue E ws ''ClusterManagerApplied'' \<noteq> Panic s) \<and>
     (\<forall>c data. hub_same c0 c \<longrightarrow>
        list_all (decodes E HubClient workspace_manifestFiles (clusterManager_config c n data)) hubFiles))"

lemma safe_startHubControllers: "safe (hub_same c0) (startHubControllers E n rc)"
  unfolding startHubControllers_def
  by (auto intro!: safe_getS_bind safe_intros simp: hub_same_def ports_from_def)

lemma safe_hub_sync:
  assumes "hub_sane E c0"
  shows "safe (hub_same c0) (hub_sync E n)"
  unfolding hub_sync_def
proof (rule safe_getS_bind, rule safe_tryP_outcome, goal_cases)
  case (3 c ws w)
  then have "env_workspaceLister E (calls w) (hubWorkspaceLister c0) n = Inr ws"
    by (auto dest!: perform_Ok simp: hub_same_def)
  with assms have ws: "GetWorkspacePhase ws \<noteq> Panic s" "GetWorkspaceURL ws \<noteq> Panic s"
    "IsWorkspaceStatusConditionTrue E ws ''ClusterManagerApplied'' \<noteq> Panic s"
    and d: "hub_same c0 c \<Longrightarrow>
      list_all (decodes E HubClient workspace_manifestFiles (clusterManager_config c n data)) hubFiles" for s c data
    unfolding hub_sane_def by blast+
  then show ?case
    unfolding hub_reconcile_def prepareClusterManager_def Let_def
    by (auto intro!: safe_intros safe_getS_bind safe_startHubControllers safe_ApplyObjects
        hub_manifests_render hub_same_next)
qed (auto intro!: safe_intros)

interpretation hub_crash_free: crash_free "hub_sync E" "\<lambda>c. hub_same c0 c \<and> hub_sane E c0" "hub_allowed E c0"
  for E :: env and c0 :: hub_ctl
  by (rule crash_freeI [OF hub_loop.reconciler_axioms safe_hub_sync])

text \<open>
  The calls of the controller succeed once the history is as long as \<open>N\<close>; and a workspace whose
  controllers can be started.
\<close>

definition hub_calls_work :: "nat \<Rightarrow> env \<Rightarrow> bool" where
  "hub_calls_work N E \<longleftrightarrow> (\<forall>kc. \<exists>data. env_clientcmdWrite E kc = Inr data) \<and>
     (\<forall>h rc. N \<le> length h \<longrightarrow> env_newForConfig E h rc = None) \<and> apply_works N E Hub"

definition hub_works :: "nat \<Rightarrow> env \<Rightarrow> hub_ctl \<Rightarrow> string \<Rightarrow> bool" where
  "hub_works N E c0 n \<longleftrightarrow> hub_calls_work N E \<and>
     (\<forall>h. \<exists>ws url. env_workspaceLister E h (hubWorkspaceLister c0) n = Inr ws \<and>
        GetWorkspacePhase ws = Ok ''Ready'' \<and> GetWorkspaceURL ws = Ok url \<and>
        IsWorkspaceStatusConditionTrue E ws ''ClusterManagerApplied'' = Ok True)"

lemma hub_sync_listed:
  assumes "env_workspaceLister E (calls w) (hubWorkspaceLister c0) n = Inr ws" "hub_same c0 (ctl w)"
    and "GetWorkspacePhase ws = Ok ''Ready''" "GetWorkspaceURL ws = Ok url"
    and "IsWorkspaceStatusConditionTrue E ws ''ClusterManagerApplied'' = Ok True"
  shows "hub_sync E n w = andThen (prepareClusterManager E n ((hubKcpRestConfig c0)\<lparr>Host := url\<rparr>))
    (\<lambda>_. startHubControllers E n ((hubKcpRestConfig c0)\<lparr>Host := url\<rparr>))
    (w\<lparr>calls := calls w @ [ListerGet ''clusterworkspaces'' n]\<rparr>)"
  using assms by (simp add: hub_sync_def hub_reconcile_def prog_simps hub_same_fields [OF assms(2)] Let_def)

lemma startHubControllers_Ok:
  assumes "fst (startHubControllers E n rc w) = Ok u"
  shows "n \<in> hubControllers (ctl (snd (startHubControllers E n rc w)))"
proof (cases "n \<in> hubControllers (ctl w)")
  case False
  with assms show ?thesis by (auto simp: startHubControllers_first Let_def split: option.splits)
qed (simp add: startHubControllers_again)

lemma prepareClusterManager_works:
  assumes "hub_calls_work N E" "N \<le> length (calls w)" "hub_sane E c0" "hub_same c0 (ctl w)"
    and "env_workspaceLister E h (hubWorkspaceLister c0) n = Inr ws"
  shows "fst (prepareClusterManager E n rc w) = Ok ()"
proof -
  from assms(1) obtain data where d: "env_clientcmdWrite E (buildKubeconfig rc) = Inr data"
    unfolding hub_calls_work_def by blast
  have "list_all (decodes E HubClient workspace_manifestFiles
      (clusterManager_config (next_ports (ctl w)) n data)) hubFiles"
    using assms(3,5) hub_same_next [OF assms(4)] unfolding hub_sane_def by blast
  with assms(1,2) show ?thesis
    by (simp add: prepareClusterManager_state [OF d] ApplyObjects_works [where N = N] hub_manifests_render hub_calls_work_def)
qed

lemma hub_sync_starts:
  assumes "hub_works N E c0 n" "N \<le> length (calls w)" "hub_sane E c0" "hub_same c0 (ctl w)"
  shows "\<exists>w'. hub_sync E n w = (Ok (), w') \<and> n \<in> hubControllers (ctl w')"
proof -
  from assms(1) have wk: "hub_calls_work N E" by (simp add: hub_works_def)
  from assms(1) obtain ws url where ws: "env_workspaceLister E (calls w) (hubWorkspaceLister c0) n = Inr ws"
    "GetWorkspacePhase ws = Ok ''Ready''" "GetWorkspaceURL ws = Ok url"
    "IsWorkspaceStatusConditionTrue E ws ''ClusterManagerApplied'' = Ok True"
    unfolding hub_works_def by blast
  let ?rc = "(hubKcpRestConfig c0)\<lparr>Host := url\<rparr>"
  let ?w1 = "w\<lparr>calls := calls w @ [ListerGet ''clusterworkspaces'' n]\<rparr>"
  have "fst (prepareClusterManager E n ?rc ?w1) = Ok ()"
    by (rule prepareClusterManager_works [OF wk _ assms(3) _ ws(1)]) (use assms(2,4) in simp_all)
  then obtain w2 where p: "prepareClusterManager E n ?rc ?w1 = (Ok (), w2)" by (metis prod.collapse)
  from emitsD(1) [OF emits_prepareClusterManager, of c0 ?w1 E n ?rc] assms(2,4) p have "N \<le> length (calls w2)"
    by fastforce
  with wk have "\<exists>w'. startHubControllers E n ?rc w2 = (Ok (), w') \<and> n \<in> hubControllers (ctl w')"
    by (cases "n \<in> hubControllers (ctl w2)")
      (simp_all add: startHubControllers_again startHubControllers_first hub_calls_work_def)
  with p show ?thesis by (simp add: hub_sync_listed [OF ws(1) assms(4) ws(2-4)] andThen_def tryP_def)
qed

lemma hub_sync_calls:
  assumes "hub_same c0 (ctl w)"
  shows "length (calls w) < length (calls (snd (hub_sync E k w)))"
proof -
  note f = hub_same_fields [OF assms]
  show ?thesis
    unfolding hub_sync_def andThen_getS f
    by (rule perform_calls [OF _ emits_hub_reconcile assms]) (auto intro!: emits_ret emits_fail)
qed

text \<open>
  A steady environment: the lister's answers do not change, nothing fails and the manifests decode.
  In it every ready workspace can be served at any time.
\<close>

definition hub_steady :: "env \<Rightarrow> hub_ctl \<Rightarrow> bool" where
  "hub_steady E c0 \<longleftrightarrow> hub_calls_work 0 E \<and> hub_sane E c0 \<and>
     (\<forall>h n. env_workspaceLister E h (hubWorkspaceLister c0) n = env_workspaceLister E [] (hubWorkspaceLister c0) n)"

lemma hub_serves:
  assumes "hub_steady E c0" "hub_same c0 (ctl w)" "hub_ready E c0 n rc" "n \<notin> hubControllers (ctl w)"
  shows "fst (hub_sync E n w) = Ok () \<and> launch_view hubControllers (snd (hub_sync E n w)) =
    (insert n (hubControllers (ctl w)), filter launched (calls w) @ hub_block c0 n rc)"
proof -
  from assms(1,3) obtain ws url where ws: "env_workspaceLister E (calls w) (hubWorkspaceLister c0) n = Inr ws"
    "GetWorkspacePhase ws = Ok ''Ready''" "GetWorkspaceURL ws = Ok url"
    "IsWorkspaceStatusConditionTrue E ws ''ClusterManagerApplied'' = Ok True"
    and rc: "(hubKcpRestConfig c0)\<lparr>Host := url\<rparr> = rc"
    unfolding hub_ready_def hub_steady_def by metis
  let ?w1 = "w\<lparr>calls := calls w @ [ListerGet ''clusterworkspaces'' n]\<rparr>"
  have "fst (prepareClusterManager E n rc ?w1) = Ok ()"
    by (rule prepareClusterManager_works [of 0, OF _ _ _ _ ws(1)]) (use assms(1,2) in \<open>simp_all add: hub_steady_def\<close>)
  then obtain w2 where p: "prepareClusterManager E n rc ?w1 = (Ok (), w2)" by (metis prod.collapse)
  from leadsD [OF prepareClusterManager_launches, of c0 ?w1 "launch_view hubControllers w" E n rc] assms(2)
  have w2: "hub_same c0 (ctl w2)" "hubControllers (ctl w2) = hubControllers (ctl w)"
    "filter launched (calls w2) = filter launched (calls w)"
    by (simp_all add: launch_view_def p)
  have b: "hub_block (ctl w2) n rc = hub_block c0 n rc" by (simp add: hub_block_def hub_same_fields [OF w2(1)])
  have "env_newForConfig E h rc' = None" for h rc' using assms(1) by (simp add: hub_steady_def hub_calls_work_def)
  with w2 assms(4) have "startHubControllers E n rc w2 = (Ok (), w2\<lparr>calls := calls w2 @ hub_start_calls (ctl w2) n rc,
      ctl := (ctl w2)\<lparr>hubControllers := insert n (hubControllers (ctl w2))\<rparr>\<rparr>)"
    by (simp add: startHubControllers_first)
  with w2 p b show ?thesis
    by (simp add: hub_sync_listed [OF ws(1) assms(2) ws(2-4)] rc andThen_def tryP_def launch_view_def
        hub_start_calls_def hub_block_def)
qed

interpretation hub_launching_exactly: launching_exactly "hub_sync E" "\<lambda>c. hub_same c0 c \<and> hub_steady E c0"
    hubControllers "hub_ready E c0" "hub_block c0"
  for E :: env and c0 :: hub_ctl
proof (unfold_locales, goal_cases)
  case (1 w k)
  then show ?case using hub_launching.sync_same by blast
next
  case (2 w k)
  then show ?case using hub_launching.sync_launches by blast
next
  case (3 w n rc)
  then show ?case using hub_serves by blast
qed

lemma hub_initial: "hub_same (ctrlState (NewHubWorkspaceController on cf kf rc ifr))
    (ctrlState (NewHubWorkspaceController on cf kf rc ifr))"
  by (auto simp: hub_same_def ports_from_def NewHubWorkspaceController_def intro: exI [of _ 0])

lemma hub_launched_once:
  assumes "worker_run (NewHubWorkspaceController on cf kf rc ifr) (hub_sync E) wk"
  shows "length (filter (launches_csr n) (calls (wworld wk))) = (if n \<in> hubControllers (ctl (wworld wk)) then 1 else 0)"
    and "length (filter (launches_mc n) (calls (wworld wk))) = (if n \<in> hubControllers (ctl (wworld wk)) then 1 else 0)"
proof -
  have e: "hubControllers (ctrlState (NewHubWorkspaceController on cf kf rc ifr)) = {}"
    by (simp add: NewHubWorkspaceController_def)
  note once = hub_launching.launched_once [OF assms hub_initial e]
  show "length (filter (launches_csr n) (calls (wworld wk))) = (if n \<in> hubControllers (ctl (wworld wk)) then 1 else 0)"
    by (rule once [OF hub_block_counts(1) launches_launched(1)])
  show "length (filter (launches_mc n) (calls (wworld wk))) = (if n \<in> hubControllers (ctl (wworld wk)) then 1 else 0)"
    by (rule once [OF hub_block_counts(2) launches_launched(2)])
qed

lemma hub_starts_in_turn:
  assumes "worker_run (NewHubWorkspaceController on cf kf rc ifr) (hub_sync E) wk"
    and "hub_sane E (ctrlState (NewHubWorkspaceController on cf kf rc ifr))"
    and "k < length (wqueue wk)"
    and "hub_works 0 E (ctrlState (NewHubWorkspaceController on cf kf rc ifr)) (wqueue wk ! k)"
  shows "\<not> wcrashed (work_items (hub_sync E) (Suc k) wk) \<and>
    length (filter (launches_csr (wqueue wk ! k)) (calls (wworld (work_items (hub_sync E) (Suc k) wk)))) = 1 \<and>
    length (filter (launches_mc (wqueue wk ! k)) (calls (wworld (work_items (hub_sync E) (Suc k) wk)))) = 1"
proof -
  let ?c = "ctrlState (NewHubWorkspaceController on cf kf rc ifr)" and ?n = "wqueue wk ! k"
  let ?wk = "\<lambda>k. work_items (hub_sync E) k wk"
  have init: "hub_same ?c ?c \<and> hub_sane E ?c" using hub_initial assms(2) by blast
  have run: "worker_run (NewHubWorkspaceController on cf kf rc ifr) (hub_sync E) (?wk k)" for k
    by (rule hub_crash_free.work_items_run [OF assms(1) init])
  have same: "hub_same ?c (ctl (wworld (?wk k)))" using hub_loop.worker_sound [OF run] init by blast
  from hub_sync_starts [OF assms(4) _ assms(2) same] obtain w' where
    s: "hub_sync E ?n (wworld (?wk k)) = (Ok (), w')" "?n \<in> hubControllers (ctl w')" by blast
  from work_items_head [OF assms(3)] obtain rest where "wqueue (?wk k) = ?n # rest" by blast
  with s have "?n \<in> hubControllers (ctl (wworld (?wk (Suc k))))" by (simp add: processNextWorkItem_world)
  with hub_launched_once [OF run [of "Suc k"]] hub_crash_free.worker_never_crashes [OF run [of "Suc k"] init]
  show ?thesis
    by (simp del: funpow.simps)
qed

lemma hub_started_stays:
  assumes "n \<in> hubControllers (ctl w)"
  shows "n \<in> hubControllers (ctl (snd (hub_sync E k w)))"
proof -
  have "emits (\<lambda>_. True) (\<lambda>c. n \<in> hubControllers c) (hub_sync E k)"
    unfolding hub_sync_def hub_reconcile_def prepareClusterManager_def startHubControllers_def Let_def
    by (auto intro!: emits_intros simp: next_ports_def)
  with assms show ?thesis by (simp add: emits_def)
qed

text \<open>The nested controllers are started when the calls for them stop failing.\<close>

interpretation hub_outage: outage "hub_sync E"
  "\<lambda>w. hub_same c0 (ctl w) \<and> hub_sane E c0 \<and> hub_works N E c0 n" n "\<lambda>w. n \<in> hubControllers (ctl w)" N
  for E c0 n N
proof (unfold_locales, goal_cases)
  case (1 w k)
  then show ?case using emitsD [OF hub_loop.sync_emits] by blast
next
  case (2 w k s)
  then show ?case by (simp add: hub_crash_free.no_panic [of c0 w E])
next
  case (3 w k)
  then show ?case by (blast intro: hub_sync_calls)
next
  case (4 w e)
  then show ?case using hub_sync_starts [of N E c0 n w] by auto
next
  case (5 w u)
  then obtain ws url where ws: "env_workspaceLister E (calls w) (hubWorkspaceLister c0) n = Inr ws"
    "GetWorkspacePhase ws = Ok ''Ready''" "GetWorkspaceURL ws = Ok url"
    "IsWorkspaceStatusConditionTrue E ws ''ClusterManagerApplied'' = Ok True"
    unfolding hub_works_def by blast
  let ?w1 = "w\<lparr>calls := calls w @ [ListerGet ''clusterworkspaces'' n]\<rparr>"
  obtain r w2 where p: "prepareClusterManager E n ((hubKcpRestConfig c0)\<lparr>Host := url\<rparr>) ?w1 = (r, w2)" by fastforce
  from 5 have "hub_same c0 (ctl w)" by blast
  note eq = hub_sync_listed [OF ws(1) this ws(2-4)]
  from 5 p have "r = Ok ()" by (cases r) (auto simp: eq andThen_def tryP_def fail_def panic_def)
  with 5 p show ?case by (auto simp: eq andThen_def tryP_def intro: startHubControllers_Ok)
next
  case (6 w k)
  then show ?case using hub_started_stays by blast
qed

lemma hub_starts_after_outage:
  assumes "worker_run (NewHubWorkspaceController on cf kf rc ifr) (hub_sync E) wk" "n \<in> set (wqueue wk)"
    and "hub_sane E (ctrlState (NewHubWorkspaceController on cf kf rc ifr))"
    and "hub_works N E (ctrlState (NewHubWorkspaceController on cf kf rc ifr)) n"
    and "finite A" "set (wqueue wk) \<union> events_of steps \<subseteq> A"
    and "N * card A + place n (wqueue wk) < work_count steps"
  defines "wk' \<equiv> scheduled (NewHubWorkspaceController on cf kf rc ifr) (hub_sync E) steps wk"
  shows "\<not> wcrashed wk' \<and> length (filter (launches_csr n) (calls (wworld wk'))) = 1 \<and>
    length (filter (launches_mc n) (calls (wworld wk'))) = 1"
proof -
  let ?c = "ctrlState (NewHubWorkspaceController on cf kf rc ifr)"
  have same: "hub_same ?c (ctl (wworld wk))" using hub_loop.worker_sound [OF assms(1)] hub_initial by blast
  with assms(3,4) have "n \<in> hubControllers (ctl (wworld wk'))"
    unfolding wk'_def by (intro hub_outage.done_after_outage [OF assms(1) _ assms(2,5-7)]) simp
  moreover have run: "worker_run (NewHubWorkspaceController on cf kf rc ifr) (hub_sync E) wk'"
    unfolding wk'_def
    by (rule hub_crash_free.scheduled_run [OF assms(1) conjI [OF hub_initial assms(3)]])
  ultimately show ?thesis
    using hub_launched_once [OF run] hub_crash_free.worker_never_crashes [OF run conjI [OF hub_initial assms(3)]]
    by simp
qed

subsection \<open>The queue drains\<close>

text \<open>
  No sync fails any more once \<open>N\<close> calls were made: the calls work, and a workspace the lister returns
  has the fields the sync reads. Missing workspaces and workspaces that are not ready are fine.
\<close>

definition hub_answer_fine :: "env \<Rightarrow> go_error + object \<Rightarrow> bool" where
  "hub_answer_fine E reply \<longleftrightarrow> (case reply of
     Inl err \<Rightarrow> IsNotFound err
   | Inr ws \<Rightarrow> (\<forall>e. GetWorkspacePhase ws \<noteq> Err e \<and> (GetWorkspacePhase ws = Ok ''Ready'' \<longrightarrow>
       GetWorkspaceURL ws \<noteq> Err e \<and> IsWorkspaceStatusConditionTrue E ws ''ClusterManagerApplied'' \<noteq> Err e)))"

definition hub_settled :: "nat \<Rightarrow> env \<Rightarrow> hub_ctl \<Rightarrow> bool" where
  "hub_settled N E c0 \<longleftrightarrow> hub_calls_work N E \<and> hub_sane E c0 \<and>
     (\<forall>h n. N \<le> length h \<longrightarrow> hub_answer_fine E (env_workspaceLister E h (hubWorkspaceLister c0) n))"

lemma hub_settled_listed:
  "hub_settled N E c0 \<Longrightarrow> N \<le> length h \<Longrightarrow> hub_answer_fine E (env_workspaceLister E h (hubWorkspaceLister c0) n)"
  by (simp add: hub_settled_def)

lemma startHubControllers_no_error:
  "hub_calls_work N E \<Longrightarrow> N \<le> length (calls w) \<Longrightarrow> fst (startHubControllers E n rc w) = Ok ()"
  by (cases "n \<in> hubControllers (ctl w)")
    (simp_all add: startHubControllers_again startHubControllers_first hub_calls_work_def)

lemma hub_sync_no_error:
  assumes "hub_settled N E c0" "N \<le> length (calls w)" "hub_same c0 (ctl w)"
  shows "fst (hub_sync E n w) \<noteq> Err e"
proof (cases "env_workspaceLister E (calls w) (hubWorkspaceLister c0) n")
  case (Inl err)
  with hub_settled_listed [OF assms(1,2), of n] have "IsNotFound err" by (simp add: hub_answer_fine_def)
  with Inl show ?thesis by (simp add: hub_sync_def prog_simps hub_same_fields [OF assms(3)])
next
  case (Inr ws)
  from assms(1) have wk: "hub_calls_work N E" "hub_sane E c0" by (simp_all add: hub_settled_def)
  from hub_settled_listed [OF assms(1,2), of n] Inr have ws: "GetWorkspacePhase ws \<noteq> Err e"
    "GetWorkspacePhase ws = Ok ''Ready'' \<Longrightarrow>
      GetWorkspaceURL ws \<noteq> Err e \<and> IsWorkspaceStatusConditionTrue E ws ''ClusterManagerApplied'' \<noteq> Err e" for e
    by (simp_all add: hub_answer_fine_def)
  let ?w1 = "w\<lparr>calls := calls w @ [ListerGet ''clusterworkspaces'' n]\<rparr>"
  have start: "fst (startHubControllers E n rc (snd (prepareClusterManager E n rc' ?w1))) = Ok ()" for rc rc'
    by (rule startHubControllers_no_error [OF wk(1)], rule emitsD(1) [OF emits_prepareClusterManager, of c0 ?w1 E n rc'])
      (use assms(2,3) in simp_all)
  have prep: "fst (prepareClusterManager E n rc ?w1) = Ok ()" for rc
    by (rule prepareClusterManager_works [OF wk(1) _ wk(2) _ Inr]) (use assms(2,3) in simp_all)
  have "hub_sync E n w = hub_reconcile E (hubKcpRestConfig c0) n ws ?w1"
    using Inr by (simp add: hub_sync_def prog_simps hub_same_fields [OF assms(3)])
  also have "fst \<dots> \<noteq> Err e"
    using ws prep start
    by (auto simp: hub_reconcile_def Let_def andThen_def tryP_def ofOutcome_def ret_def
        split: outcome.split prod.split) (metis fst_conv snd_conv outcome.distinct(1))+
  finally show ?thesis .
qed

interpretation hub_settling: settling "hub_sync E" "\<lambda>w. hub_same c0 (ctl w) \<and> hub_settled N E c0" N for E c0 N
proof (unfold_locales, goal_cases)
  case (1 w k)
  then show ?case using hub_launching.sync_same by blast
next
  case (2 w k)
  then show ?case by (blast intro: hub_sync_calls)
next
  case (3 w k e)
  then show ?case using hub_sync_no_error by blast
qed

lemma hub_drains:
  assumes "hub_settled N E (ctrlState (NewHubWorkspaceController on cf kf rc ifr))"
  shows "queue_drains (NewHubWorkspaceController on cf kf rc ifr) (hub_sync E) N"
proof (rule hub_settling.drains)
  let ?c = "ctrlState (NewHubWorkspaceController on cf kf rc ifr)"
  show "hub_same ?c (ctl (wworld wk)) \<and> hub_settled N E ?c"
    if "worker_run (NewHubWorkspaceController on cf kf rc ifr) (hub_sync E) wk" for wk
    using that assms hub_loop.worker_sound hub_initial by blast
qed

subsection \<open>Node ports after several syncs\<close>

lemma next_ports_pow:
  "(next_ports ^^ k) c = c\<lparr>registrationWebhookNodePort := registrationWebhookNodePort c + of_nat k,
     workWebhookNodePort := workWebhookNodePort c + of_nat k\<rparr>"
  by (induction k) (simp_all add: next_ports_def)

subsection \<open>Properties\<close>

definition demo_hub_env :: env where
  "demo_hub_env = (demo_ws_env [demo_applied])\<lparr>env_decode := \<lambda>buf. Some (demo_object ''m'')\<rparr>"

definition demo_hub :: "hub_ctl controller" where
  "demo_hub = NewHubWorkspaceController ''org'' ''tls.crt'' ''tls.key'' demo_kcp
     (WorkspaceInformer ''https://kcp:org'' (Some ''kcp-integration.open-cluster-management.io/hub=true''))"

definition demo_hub_worker :: "hub_ctl worker" where
  "demo_hub_worker = first_work demo_hub (hub_sync demo_hub_env) ''ws''"

lemma demo_hub_run: "worker_run demo_hub (hub_sync demo_hub_env) demo_hub_worker"
  unfolding demo_hub_worker_def by (rule first_work_run)

lemma demo_hub_started: "''ws'' \<in> hubControllers (ctl (wworld demo_hub_worker))"
  by code_simp

text \<open>C8: over any run, both nested controllers of a workspace are started once if the workspace is in the map of started controllers, and never otherwise.\<close>

theorem hub_controllers_started_once:
  assumes "worker_run (NewHubWorkspaceController org cf kf rc ifr) (hub_sync E) wk"
  shows "length (filter (launches_csr n) (calls (wworld wk))) =
      (if n \<in> hubControllers (ctl (wworld wk)) then 1 else 0) \<and>
    length (filter (launches_mc n) (calls (wworld wk))) =
      (if n \<in> hubControllers (ctl (wworld wk)) then 1 else 0)"
  using hub_launched_once [OF assms] by blast

theorem hub_controllers_started_once_witness:
  "length (filter (launches_csr ''ws'') (calls (wworld demo_hub_worker))) = 1"
  using hub_controllers_started_once [OF demo_hub_run [unfolded demo_hub_def], of "''ws''"] demo_hub_started
  by simp

text \<open>C7: seen through its map of started controllers and what it launched, the hub workspace controller is a launcher: every run reaches a state of the abstract machine, and every work item and informer event is matched by at most one of its steps. So a workspace is served as a whole, informers first, then the signer, then the managed cluster controller, never in part, never twice, and only while it is ready with its cluster manager applied.\<close>

theorem hub_refines_launcher:
  assumes "worker_run (NewHubWorkspaceController on cf kf rc ifr) (hub_sync E) wk"
  shows "launcher (hub_ready E (ctrlState (NewHubWorkspaceController on cf kf rc ifr)))
      (hub_block (ctrlState (NewHubWorkspaceController on cf kf rc ifr))) (launch_view hubControllers (wworld wk)) \<and>
    (launch_step (hub_ready E (ctrlState (NewHubWorkspaceController on cf kf rc ifr)))
        (hub_block (ctrlState (NewHubWorkspaceController on cf kf rc ifr))))\<^sup>=\<^sup>=
      (launch_view hubControllers (wworld wk))
      (launch_view hubControllers (wworld (worker_step (NewHubWorkspaceController on cf kf rc ifr) (hub_sync E) s wk)))"
proof -
  have "hubControllers (ctrlState (NewHubWorkspaceController on cf kf rc ifr)) = {}"
    by (simp add: NewHubWorkspaceController_def)
  from hub_launching.worker_launches [OF assms hub_initial this] hub_launching.worker_step_launches show ?thesis by blast
qed

theorem hub_refines_launcher_witness:
  "launcher (hub_ready demo_hub_env (ctrlState demo_hub)) (hub_block (ctrlState demo_hub))
     (launch_view hubControllers (wworld demo_hub_worker)) \<and>
   ''ws'' \<in> fst (launch_view hubControllers (wworld demo_hub_worker))"
  using hub_refines_launcher [OF demo_hub_run [unfolded demo_hub_def], folded demo_hub_def] demo_hub_started
  by (simp add: launch_view_def)

text \<open>C6: a nested controller is only started for a listed workspace that is ready and says its cluster manager is applied, with the certificate files of the hub controller and a client of the URL of the workspace.\<close>

theorem hub_starts_only_applied:
  assumes "worker_run (NewHubWorkspaceController org cf kf rc ifr) (hub_sync E) wk"
    and "GoController cid \<in> set (calls (wworld wk))"
  shows "\<exists>h n ws url. env_workspaceLister E h ifr n = Inr ws \<and> GetWorkspacePhase ws = Ok ''Ready'' \<and>
    IsWorkspaceStatusConditionTrue E ws ''ClusterManagerApplied'' = Ok True \<and> GetWorkspaceURL ws = Ok url \<and>
    (cid = CSRSigningController n cf kf (Kcp url) (KubeInformer (Kcp url)) \<or>
     cid = ManagedClusterController org n rc (ClusterInformer (Kcp url)))"
proof -
  let ?c = "ctrlState (NewHubWorkspaceController org cf kf rc ifr)"
  from hub_loop.worker_sound [OF assms(1) hub_initial] assms(2) have "hub_allowed E ?c (GoController cid)" by blast
  then show ?thesis
    by (auto simp: hub_ready_def csr_controller_of_def mc_controller_of_def NewHubWorkspaceController_def) blast+
qed

definition demo_csr_id :: controller_id where
  "demo_csr_id = CSRSigningController ''ws'' ''tls.crt'' ''tls.key'' (Kcp ''https://kcp:org'')
     (KubeInformer (Kcp ''https://kcp:org''))"

definition demo_mc_id :: controller_id where
  "demo_mc_id = ManagedClusterController ''org'' ''ws'' demo_kcp (ClusterInformer (Kcp ''https://kcp:org''))"

lemma demo_hub_calls: "GoController demo_csr_id \<in> set (calls (wworld demo_hub_worker)) \<and>
    GoController demo_mc_id \<in> set (calls (wworld demo_hub_worker))"
  by code_simp

theorem hub_starts_only_applied_witness:
  "\<exists>h n ws url. env_workspaceLister demo_hub_env h
     (WorkspaceInformer ''https://kcp:org'' (Some ''kcp-integration.open-cluster-management.io/hub=true'')) n = Inr ws \<and>
     GetWorkspaceURL ws = Ok url \<and> demo_csr_id = CSRSigningController n ''tls.crt'' ''tls.key''
       (Kcp url) (KubeInformer (Kcp url))"
  using hub_starts_only_applied [OF demo_hub_run [unfolded demo_hub_def], of demo_csr_id] demo_hub_calls
  by (auto simp: demo_csr_id_def)

text \<open>The node port of the registration webhook after ten more syncs is the node port the work webhook of any other workspace got.\<close>

lemma hub_ports_collide:
  assumes "ports_from k c"
  shows "map_of (clusterManager_config ((next_ports ^^ 10) c) n d) ''RegistrationWebhookNodePort'' =
    map_of (clusterManager_config c n' d') ''WorkWebhookNodePort''"
  using assms by (simp add: clusterManager_config_def next_ports_pow ports_from_def)

lemma hub_ports_collide_example:
  "map_of (clusterManager_config ((next_ports ^^ 10) (ctrlState demo_hub)) ''ws1'' ''d'') ''RegistrationWebhookNodePort'' =
   map_of (clusterManager_config (ctrlState demo_hub) ''ws2'' ''d'') ''WorkWebhookNodePort''"
  by (rule hub_ports_collide [of 0]) (simp add: ports_from_def demo_hub_def NewHubWorkspaceController_def)

text \<open>C9: a ready workspace with its cluster manager applied whose name is queued gets both nested controllers, each started exactly once, whatever fails on the way: if the calls stop failing once N of them have been made, N rounds of the work queue and its turn in the next are enough, with informer events arriving in between; nothing on the way takes the process down.\<close>

theorem hub_eventually_starts:
  assumes "worker_run (NewHubWorkspaceController on cf kf rc ifr) (hub_sync E) wk" "n \<in> set (wqueue wk)"
    and "hub_sane E (ctrlState (NewHubWorkspaceController on cf kf rc ifr))"
    and "hub_works N E (ctrlState (NewHubWorkspaceController on cf kf rc ifr)) n"
    and "finite A" "set (wqueue wk) \<union> events_of steps \<subseteq> A"
    and "N * card A + place n (wqueue wk) < work_count steps"
  shows "\<not> wcrashed (scheduled (NewHubWorkspaceController on cf kf rc ifr) (hub_sync E) steps wk) \<and>
    length (filter (launches_csr n) (calls (wworld
      (scheduled (NewHubWorkspaceController on cf kf rc ifr) (hub_sync E) steps wk)))) = 1 \<and>
    length (filter (launches_mc n) (calls (wworld
      (scheduled (NewHubWorkspaceController on cf kf rc ifr) (hub_sync E) steps wk)))) = 1"
  by (rule hub_starts_after_outage [OF assms])

lemma demo_hub_sane: "hub_sane demo_hub_env c"
proof -
  have "IsWorkspaceStatusConditionTrue demo_hub_env (demo_workspace (ToConditionSlice base_env [demo_applied]))
      ''ClusterManagerApplied'' = Ok True" by code_simp
  then show ?thesis
    by (simp add: hub_sane_def list_all_iff decodes_def demo_hub_env_def demo_ws_env_def base_env_def)
      (simp add: demo_workspace_def GetWorkspacePhase_def GetWorkspaceURL_def NestedString_def found_or_def)
qed

lemma demo_hub_works: "hub_works N demo_hub_env c n"
proof -
  have "IsWorkspaceStatusConditionTrue demo_hub_env (demo_workspace (ToConditionSlice base_env [demo_applied]))
      ''ClusterManagerApplied'' = Ok True" by code_simp
  then show ?thesis
    by (simp add: hub_works_def hub_calls_work_def demo_hub_env_def demo_ws_env_def base_env_def apply_works_def)
      (simp add: demo_workspace_def GetWorkspacePhase_def GetWorkspaceURL_def NestedString_def found_or_def)
qed

definition demo_hub_waiting :: "hub_ctl worker" where
  "demo_hub_waiting = eventHandler (ctrlFilter demo_hub) ''ws'' (new_worker demo_hub)"

text \<open>Applying anything on the hub fails for the first three calls.\<close>

definition demo_hub_outage :: env where
  "demo_hub_outage = demo_hub_env\<lparr>env_applyResource := \<lambda>h _ _. if length h < 3 then Some down else None\<rparr>"

lemma demo_hub_outage_ok: "hub_sane demo_hub_outage c" "hub_works 3 demo_hub_outage c n"
proof -
  have "IsWorkspaceStatusConditionTrue demo_hub_outage (demo_workspace (ToConditionSlice base_env [demo_applied]))
      ''ClusterManagerApplied'' = Ok True" by code_simp
  then show "hub_sane demo_hub_outage c" "hub_works 3 demo_hub_outage c n"
    by (simp_all add: hub_sane_def list_all_iff decodes_def hub_works_def hub_calls_work_def demo_hub_outage_def
        demo_hub_env_def demo_ws_env_def base_env_def apply_works_def)
      (simp_all add: demo_workspace_def GetWorkspacePhase_def GetWorkspaceURL_def NestedString_def found_or_def)
qed

lemma demo_hub_waiting_queue: "wqueue demo_hub_waiting = [''ws'']"
  by (simp add: demo_hub_waiting_def eventHandler_def queue_add_def new_worker_def demo_hub_def NewHubWorkspaceController_def)

lemma demo_hub_waiting_run: "worker_run demo_hub (hub_sync E) demo_hub_waiting"
  unfolding demo_hub_waiting_def by (intro worker_run.event worker_run.start)

theorem hub_eventually_starts_witness:
  "length (filter (launches_csr ''ws'') (calls (wworld (scheduled demo_hub (hub_sync demo_hub_outage)
     (Some ''ws2'' # replicate 7 None) demo_hub_waiting)))) = 1"
proof -
  have "set (wqueue demo_hub_waiting) \<union> events_of (Some ''ws2'' # replicate 7 None) \<subseteq> {''ws'', ''ws2''}"
    "''ws'' \<in> set (wqueue demo_hub_waiting)"
    "3 * card {''ws'', ''ws2''} + place ''ws'' (wqueue demo_hub_waiting) < work_count (Some ''ws2'' # replicate 7 None)"
    by (auto simp: demo_hub_waiting_queue)
  then show ?thesis
    using hub_eventually_starts [OF demo_hub_waiting_run [unfolded demo_hub_def] _ demo_hub_outage_ok]
    unfolding demo_hub_def by (metis finite.emptyI finite.insertI)
qed

lemma demo_hub_settled: "hub_settled 3 demo_hub_outage c"
proof -
  have "IsWorkspaceStatusConditionTrue demo_hub_outage (demo_workspace (ToConditionSlice base_env [demo_applied]))
      ''ClusterManagerApplied'' = Ok True" by code_simp
  moreover have "env_workspaceLister demo_hub_outage h i n = Inr (demo_workspace (ToConditionSlice base_env [demo_applied]))"
    for h i n by (simp add: demo_hub_outage_def demo_hub_env_def demo_ws_env_def)
  moreover have "GetWorkspacePhase (demo_workspace cs) = Ok ''Ready''" "GetWorkspaceURL (demo_workspace cs) = Ok ''https://kcp:org''" for cs
    by (simp_all add: demo_workspace_def GetWorkspacePhase_def GetWorkspaceURL_def NestedString_def found_or_def)
  moreover have "hub_calls_work 3 demo_hub_outage" using demo_hub_outage_ok(2) by (simp add: hub_works_def)
  ultimately show ?thesis using demo_hub_outage_ok(1) by (simp add: hub_settled_def hub_answer_fine_def)
qed

end
