(* ===== verification/OrgWorkspace.thy ===== *)
theory OrgWorkspace
  imports HubWorkspace
begin

section \<open>The organization workspace controller (workspace/orgworkspace.go)\<close>

text \<open>
  Watches the workspaces of the kcp root and starts, once per ready organization workspace, a
  hub workspace controller with an informer on the workspaces of that organization that carry
  the hub label.
\<close>

abbreviation "hubSelector \<equiv> ''kcp-integration.open-cluster-management.io/hub=true''"

record org_ctl =
  orgCertFile :: string
  orgKeyFile :: string
  orgKcpRestConfig :: rest_config
  orgWorkspaceLister :: informer
  orgWorkspaces :: "string set"

definition NewOrgWorkspaceController ::
  "string \<Rightarrow> string \<Rightarrow> rest_config \<Rightarrow> informer \<Rightarrow> org_ctl controller" where
  "NewOrgWorkspaceController certFile keyFile kcpRestConfig workspaceInformer =
     \<lparr>ctrlName = ''all-org-workspaces-controller'', ctrlFilter = (\<lambda>_. True),
      ctrlState = \<lparr>orgCertFile = certFile, orgKeyFile = keyFile, orgKcpRestConfig = kcpRestConfig,
        orgWorkspaceLister = workspaceInformer, orgWorkspaces = {}\<rparr>\<rparr>"

definition startOCMHubWorkspaceController :: "env \<Rightarrow> string \<Rightarrow> string \<Rightarrow> (org_ctl, unit) go" where
  "startOCMHubWorkspaceController E workspaceName workspaceURL = andThen getS (\<lambda>c.
     if workspaceName \<in> orgWorkspaces c then ret ()
     else
       let hubWorkspaceConfig = (CopyConfig (orgKcpRestConfig c))\<lparr>Host := workspaceURL\<rparr>;
           workspaceDynamicInformer = WorkspaceInformer workspaceURL (Some hubSelector) in
       andThen (newForConfig E hubWorkspaceConfig) (\<lambda>_.
       andThen (modifyS (\<lambda>c. c\<lparr>orgWorkspaces := insert workspaceName (orgWorkspaces c)\<rparr>)) (\<lambda>_.
       andThen (emit (GoInformer workspaceDynamicInformer)) (\<lambda>_.
       emit (GoController (HubWorkspaceController workspaceName (orgCertFile c) (orgKeyFile c)
         (orgKcpRestConfig c) workspaceDynamicInformer))))))"

definition org_reconcile :: "env \<Rightarrow> string \<Rightarrow> object \<Rightarrow> (org_ctl, unit) go" where
  "org_reconcile E workspaceName workspace =
     andThen (ofOutcome (GetWorkspaceType workspace)) (\<lambda>type.
     if type \<noteq> ''organization'' then ret ()
     else andThen (ofOutcome (GetWorkspacePhase workspace)) (\<lambda>phase.
       if phase \<noteq> ''Ready'' then ret ()
       else andThen (ofOutcome (GetWorkspaceURL workspace)) (\<lambda>url.
         startOCMHubWorkspaceController E workspaceName url)))"

definition org_sync :: "env \<Rightarrow> org_ctl sync_fun" where
  "org_sync E workspaceName = andThen getS (\<lambda>c.
     tryP (perform (ListerGet ''clusterworkspaces'' workspaceName)
            (\<lambda>h. env_workspaceLister E h (orgWorkspaceLister c) workspaceName))
       (\<lambda>err. if IsNotFound err then ret () else fail err)
       (org_reconcile E workspaceName))"

subsection \<open>Starting the nested controller\<close>

definition hub_controller_of :: "org_ctl \<Rightarrow> string \<Rightarrow> string \<Rightarrow> controller_id" where
  "hub_controller_of c n url = HubWorkspaceController n (orgCertFile c) (orgKeyFile c)
     (orgKcpRestConfig c) (WorkspaceInformer url (Some hubSelector))"

lemma startOCM_again:
  "n \<in> orgWorkspaces (ctl w) \<Longrightarrow> startOCMHubWorkspaceController E n url w = (Ok (), w)"
  by (simp add: startOCMHubWorkspaceController_def prog_simps)

lemma startOCM_first:
  "n \<notin> orgWorkspaces (ctl w) \<Longrightarrow> startOCMHubWorkspaceController E n url w =
     (case env_newForConfig E (calls w) ((orgKcpRestConfig (ctl w))\<lparr>Host := url\<rparr>) of
        Some e \<Rightarrow> (Err e, w\<lparr>calls := calls w @ [NewForConfig url]\<rparr>)
      | None \<Rightarrow> (Ok (), w\<lparr>
          calls := calls w @ [NewForConfig url, GoInformer (WorkspaceInformer url (Some hubSelector)),
            GoController (hub_controller_of (ctl w) n url)],
          ctl := (ctl w)\<lparr>orgWorkspaces := insert n (orgWorkspaces (ctl w))\<rparr>\<rparr>))"
  by (simp add: startOCMHubWorkspaceController_def newForConfig_def prog_simps hub_controller_of_def
      Let_def split: option.split)

fun launches_hub :: "string \<Rightarrow> call \<Rightarrow> bool" where
  "launches_hub n (GoController (HubWorkspaceController ws _ _ _ _)) \<longleftrightarrow> ws = n"
| "launches_hub n _ \<longleftrightarrow> False"

subsection \<open>The contract\<close>

definition org_ready :: "env \<Rightarrow> org_ctl \<Rightarrow> string \<Rightarrow> string \<Rightarrow> bool" where
  "org_ready E c0 n url \<longleftrightarrow> (\<exists>h ws. env_workspaceLister E h (orgWorkspaceLister c0) n = Inr ws \<and>
     GetWorkspaceType ws = Ok ''organization'' \<and> GetWorkspacePhase ws = Ok ''Ready'' \<and>
     GetWorkspaceURL ws = Ok url)"

fun org_allowed :: "env \<Rightarrow> org_ctl \<Rightarrow> call \<Rightarrow> bool" where
  "org_allowed E c0 (GoController cid) \<longleftrightarrow>
     (\<exists>n url. org_ready E c0 n url \<and> cid = hub_controller_of c0 n url)"
| "org_allowed E c0 (GoInformer i) \<longleftrightarrow>
     (\<exists>n url. org_ready E c0 n url \<and> i = WorkspaceInformer url (Some hubSelector))"
| "org_allowed E c0 (NewForConfig url) \<longleftrightarrow> (\<exists>n. org_ready E c0 n url)"
| "org_allowed E c0 (ListerGet _ _) \<longleftrightarrow> True"
| "org_allowed E c0 _ \<longleftrightarrow> False"

definition org_same :: "org_ctl \<Rightarrow> org_ctl \<Rightarrow> bool" where
  "org_same c0 c \<longleftrightarrow> orgCertFile c = orgCertFile c0 \<and> orgKeyFile c = orgKeyFile c0 \<and>
     orgKcpRestConfig c = orgKcpRestConfig c0 \<and> orgWorkspaceLister c = orgWorkspaceLister c0"

lemma hub_controller_of_same: "org_same c0 c \<Longrightarrow> hub_controller_of c = hub_controller_of c0"
  by (simp add: org_same_def hub_controller_of_def fun_eq_iff)

lemma emits_startOCM:
  assumes "org_ready E c0 n url"
  shows "emits (org_allowed E c0) (org_same c0) (startOCMHubWorkspaceController E n url)"
  unfolding emits_def
proof (intro allI impI)
  fix w :: "(call, org_ctl) world"
  assume same: "org_same c0 (ctl w)"
  then have "org_same c0 (ctl w\<lparr>orgWorkspaces := S\<rparr>)" for S by (simp add: org_same_def)
  with assms same show "(\<exists>cs. calls (snd (startOCMHubWorkspaceController E n url w)) = calls w @ cs \<and>
      (\<forall>c \<in> set cs. org_allowed E c0 c)) \<and>
      org_same c0 (ctl (snd (startOCMHubWorkspaceController E n url w)))"
    by (cases "n \<in> orgWorkspaces (ctl w)")
      (auto simp: startOCM_again startOCM_first hub_controller_of_same split: option.split)
qed

lemma emits_org_reconcile:
  assumes "env_workspaceLister E h (orgWorkspaceLister c0) n = Inr ws"
  shows "emits (org_allowed E c0) (org_same c0) (org_reconcile E n ws)"
  unfolding org_reconcile_def
  by (rule emits_andThen_outcome emits_if emits_ret emits_ofOutcome emits_startOCM)+
    (use assms in \<open>auto simp: org_ready_def ofOutcome_def\<close>)

interpretation org_loop: reconciler "org_sync E" "org_same c0" "org_allowed E c0"
  for E :: env and c0 :: org_ctl
proof (unfold_locales)
  fix n
  show "emits (org_allowed E c0) (org_same c0) (org_sync E n)"
    unfolding org_sync_def
  proof (rule emits_getS_bind, goal_cases)
    case (1 c)
    then have l: "orgWorkspaceLister c = orgWorkspaceLister c0" by (simp add: org_same_def)
    show ?case
      unfolding l
      by (rule emits_tryP_outcome)
        (auto intro!: emits_perform emits_ret emits_fail emits_org_reconcile dest: perform_Ok)
  qed
qed

subsection \<open>The controller is a launcher\<close>

text \<open>What serving an organization launches: the informer on its workspaces, then the controller.\<close>

definition org_block :: "org_ctl \<Rightarrow> string \<Rightarrow> string \<Rightarrow> history" where
  "org_block c n url = [GoInformer (WorkspaceInformer url (Some hubSelector)), GoController (hub_controller_of c n url)]"

lemma org_block_count: "length (filter (launches_hub m) (org_block c n url)) = (if m = n then 1 else 0)"
  by (simp add: org_block_def hub_controller_of_def)

lemma launches_hub_launched: "launches_hub n x \<Longrightarrow> launched x"
  by (cases x) simp_all

lemma startOCM_launches:
  assumes "org_ready E c0 n url"
  shows "leads (launches_from (org_same c0) orgWorkspaces v)
    (launches_to (org_same c0) orgWorkspaces (org_ready E c0) (org_block c0) v) (startOCMHubWorkspaceController E n url)"
  unfolding leads_def
proof (intro allI impI)
  fix w
  assume w: "launches_from (org_same c0) orgWorkspaces v w"
  then have b: "org_block (ctl w) = org_block c0" by (auto simp: org_block_def fun_eq_iff dest: hub_controller_of_same)
  from w have v: "v = (orgWorkspaces (ctl w), filter launched (calls w))" by (simp add: launch_view_def)
  show "launches_to (org_same c0) orgWorkspaces (org_ready E c0) (org_block c0) v
      (snd (startOCMHubWorkspaceController E n url w))"
  proof (cases "n \<in> orgWorkspaces (ctl w)")
    case False
    with assms have "launch_step (org_ready E c0) (org_block c0) v
        (insert n (orgWorkspaces (ctl w)), filter launched (calls w) @ org_block c0 n url)"
      unfolding v by (intro launch_step.launch)
    with w False show ?thesis
      by (auto simp: startOCM_first org_same_def launch_view_def b [symmetric] org_block_def split: option.split)
  qed (use w in \<open>simp add: startOCM_again\<close>)
qed

lemma org_sync_launches:
  "leads (launches_from (org_same c0) orgWorkspaces v)
     (launches_to (org_same c0) orgWorkspaces (org_ready E c0) (org_block c0) v) (org_sync E n)"
proof -
  let ?A = "launches_from (org_same c0) orgWorkspaces v"
  let ?B = "launches_to (org_same c0) orgWorkspaces (org_ready E c0) (org_block c0) v"
  have AB: "?A w \<Longrightarrow> ?B w" for w by simp
  have o: "leads ?A ?A (ofOutcome r)" for r by (rule leads_pure) simp
  have rec: "leads ?A ?B (org_reconcile E n ws)"
    if "env_workspaceLister E h (orgWorkspaceLister c0) n = Inr ws" for h ws
    unfolding org_reconcile_def
    by (rule leads_andThen_outcome leads_if o AB startOCM_launches leads_pure | assumption)+
      (use that in \<open>auto simp: org_ready_def ofOutcome_def\<close>)
  show ?thesis
    unfolding org_sync_def
  proof (rule leads_getS_bind)
    fix w
    assume "?A w"
    then have f: "orgWorkspaceLister (ctl w) = orgWorkspaceLister c0" by (simp add: org_same_def)
    show "leads ?A ?B (tryP (perform (ListerGet ''clusterworkspaces'' n)
        (\<lambda>h. env_workspaceLister E h (orgWorkspaceLister (ctl w)) n))
        (\<lambda>err. if IsNotFound err then ret () else fail err) (org_reconcile E n))"
      unfolding f by (intro listed_launches rec)
  qed
qed

interpretation org_launching: launching "org_sync E" "org_same c0" orgWorkspaces "org_ready E c0" "org_block c0"
  for E :: env and c0 :: org_ctl
  by (rule launchingI [OF org_sync_launches])

subsection \<open>Panics\<close>

definition org_sane :: "env \<Rightarrow> org_ctl \<Rightarrow> bool" where
  "org_sane E c \<longleftrightarrow> (\<forall>h n ws s. env_workspaceLister E h (orgWorkspaceLister c) n = Inr ws \<longrightarrow>
     GetWorkspaceType ws \<noteq> Panic s \<and> GetWorkspacePhase ws \<noteq> Panic s \<and> GetWorkspaceURL ws \<noteq> Panic s)"

lemma safe_startOCM: "safe (org_same c0) (startOCMHubWorkspaceController E n url)"
  unfolding startOCMHubWorkspaceController_def Let_def
  by (auto intro!: safe_getS_bind safe_intros simp: org_same_def)

lemma safe_org_sync:
  assumes "org_sane E c0"
  shows "safe (org_same c0) (org_sync E n)"
  unfolding org_sync_def
proof (rule safe_getS_bind, rule safe_tryP_outcome, goal_cases)
  case (3 c ws w)
  then have "env_workspaceLister E (calls w) (orgWorkspaceLister c0) n = Inr ws"
    by (auto dest!: perform_Ok simp: org_same_def)
  with assms show ?case
    unfolding org_reconcile_def org_sane_def
    by (auto intro!: safe_intros safe_startOCM)
qed (auto intro!: safe_intros)

interpretation org_crash_free: crash_free "org_sync E" "\<lambda>c. org_same c0 c \<and> org_sane E c0" "org_allowed E c0"
  for E :: env and c0 :: org_ctl
  by (rule crash_freeI [OF org_loop.reconciler_axioms safe_org_sync])

subsection \<open>Progress\<close>

text \<open>A ready organization, and clients that can be built once the history is as long as \<open>N\<close>.\<close>

definition org_works :: "nat \<Rightarrow> env \<Rightarrow> org_ctl \<Rightarrow> string \<Rightarrow> bool" where
  "org_works N E c0 n \<longleftrightarrow> (\<forall>h. \<exists>ws url. env_workspaceLister E h (orgWorkspaceLister c0) n = Inr ws \<and>
       GetWorkspaceType ws = Ok ''organization'' \<and> GetWorkspacePhase ws = Ok ''Ready'' \<and> GetWorkspaceURL ws = Ok url) \<and>
     (\<forall>h rc. N \<le> length h \<longrightarrow> env_newForConfig E h rc = None)"

lemma org_works_sync:
  assumes "org_works N E c0 n" "org_same c0 (ctl w)"
  obtains url where "org_sync E n w = startOCMHubWorkspaceController E n url
    (w\<lparr>calls := calls w @ [ListerGet ''clusterworkspaces'' n]\<rparr>)"
proof -
  from assms(1) obtain ws url where ws: "env_workspaceLister E (calls w) (orgWorkspaceLister c0) n = Inr ws"
    "GetWorkspaceType ws = Ok ''organization''" "GetWorkspacePhase ws = Ok ''Ready''" "GetWorkspaceURL ws = Ok url"
    unfolding org_works_def by blast
  moreover from assms(2) have "orgWorkspaceLister (ctl w) = orgWorkspaceLister c0" by (simp add: org_same_def)
  ultimately show thesis by (intro that [of url]) (simp add: org_sync_def org_reconcile_def prog_simps)
qed

text \<open>
  A steady environment: the lister's answers do not change and every client can be built. In it
  every ready organization can be served at any time.
\<close>

definition org_steady :: "env \<Rightarrow> org_ctl \<Rightarrow> bool" where
  "org_steady E c0 \<longleftrightarrow> (\<forall>h rc. env_newForConfig E h rc = None) \<and>
     (\<forall>h n. env_workspaceLister E h (orgWorkspaceLister c0) n = env_workspaceLister E [] (orgWorkspaceLister c0) n)"

lemma org_serves:
  assumes "org_steady E c0" "org_same c0 (ctl w)" "org_ready E c0 n url" "n \<notin> orgWorkspaces (ctl w)"
  shows "fst (org_sync E n w) = Ok () \<and> launch_view orgWorkspaces (snd (org_sync E n w)) =
    (insert n (orgWorkspaces (ctl w)), filter launched (calls w) @ org_block c0 n url)"
proof -
  from assms(1,3) obtain ws where "env_workspaceLister E (calls w) (orgWorkspaceLister c0) n = Inr ws"
    "GetWorkspaceType ws = Ok ''organization''" "GetWorkspacePhase ws = Ok ''Ready''" "GetWorkspaceURL ws = Ok url"
    unfolding org_ready_def org_steady_def by metis
  moreover from assms(2) have "orgWorkspaceLister (ctl w) = orgWorkspaceLister c0" by (simp add: org_same_def)
  ultimately have "org_sync E n w = startOCMHubWorkspaceController E n url
      (w\<lparr>calls := calls w @ [ListerGet ''clusterworkspaces'' n]\<rparr>)"
    by (simp add: org_sync_def org_reconcile_def prog_simps)
  with assms(1,4) show ?thesis
    by (simp add: startOCM_first org_steady_def launch_view_def org_block_def hub_controller_of_same [OF assms(2)])
qed

interpretation org_launching_exactly: launching_exactly "org_sync E" "\<lambda>c. org_same c0 c \<and> org_steady E c0"
    orgWorkspaces "org_ready E c0" "org_block c0"
  for E :: env and c0 :: org_ctl
proof (unfold_locales, goal_cases)
  case (1 w k)
  then show ?case using org_launching.sync_same by blast
next
  case (2 w k)
  then show ?case using org_launching.sync_launches by blast
next
  case (3 w n url)
  then show ?case using org_serves by blast
qed

lemma org_sync_calls:
  assumes "org_same c0 (ctl w)"
  shows "length (calls w) < length (calls (snd (org_sync E k w)))"
proof -
  from assms have f: "orgWorkspaceLister (ctl w) = orgWorkspaceLister c0" by (simp add: org_same_def)
  show ?thesis
    unfolding org_sync_def andThen_getS f
    by (rule perform_calls [OF _ emits_org_reconcile assms]) (auto intro!: emits_ret emits_fail)
qed

lemma org_started_stays:
  assumes "n \<in> orgWorkspaces (ctl w)"
  shows "n \<in> orgWorkspaces (ctl (snd (org_sync E k w)))"
proof -
  have "emits (\<lambda>_. True) (\<lambda>c. n \<in> orgWorkspaces c) (org_sync E k)"
    unfolding org_sync_def org_reconcile_def startOCMHubWorkspaceController_def Let_def
    by (auto intro!: emits_intros)
  with assms show ?thesis by (simp add: emits_def)
qed

text \<open>The hub workspace controller is started when its client can be built.\<close>

interpretation org_outage: outage "org_sync E"
  "\<lambda>w. org_same c0 (ctl w) \<and> org_sane E c0 \<and> org_works N E c0 n" n "\<lambda>w. n \<in> orgWorkspaces (ctl w)" N
  for E c0 n N
proof (unfold_locales, goal_cases)
  case (1 w k)
  then show ?case using emitsD [OF org_loop.sync_emits] by blast
next
  case (2 w k s)
  then show ?case by (simp add: org_crash_free.no_panic [of c0 w E])
next
  case (3 w k)
  then show ?case by (blast intro: org_sync_calls)
next
  case (4 w e)
  then have same: "org_works N E c0 n" "org_same c0 (ctl w)" by simp_all
  from org_works_sync [OF same] obtain url where "org_sync E n w = startOCMHubWorkspaceController E n url
    (w\<lparr>calls := calls w @ [ListerGet ''clusterworkspaces'' n]\<rparr>)" .
  with 4 show ?case
    by (cases "n \<in> orgWorkspaces (ctl w)") (auto simp: startOCM_again startOCM_first org_works_def)
next
  case (5 w u)
  then have same: "org_works N E c0 n" "org_same c0 (ctl w)" by simp_all
  from org_works_sync [OF same] obtain url where "org_sync E n w = startOCMHubWorkspaceController E n url
    (w\<lparr>calls := calls w @ [ListerGet ''clusterworkspaces'' n]\<rparr>)" .
  with 5 show ?case
    by (cases "n \<in> orgWorkspaces (ctl w)") (auto simp: startOCM_again startOCM_first split: option.splits)
next
  case (6 w k)
  then show ?case using org_started_stays by blast
qed

subsection \<open>Properties\<close>

definition demo_org :: "org_ctl controller" where
  "demo_org = NewOrgWorkspaceController ''tls.crt'' ''tls.key'' demo_kcp (WorkspaceInformer ''https://kcp'' None)"

definition demo_org_worker :: "org_ctl worker" where
  "demo_org_worker = first_work demo_org (org_sync demo_hub_env) ''org''"

lemma demo_org_run: "worker_run demo_org (org_sync demo_hub_env) demo_org_worker"
  unfolding demo_org_worker_def by (rule first_work_run)

lemma demo_org_started: "''org'' \<in> orgWorkspaces (ctl (wworld demo_org_worker))"
  by code_simp

lemma demo_org_calls: "GoController (HubWorkspaceController ''org'' ''tls.crt'' ''tls.key'' demo_kcp
    (WorkspaceInformer ''https://kcp:org'' (Some hubSelector))) \<in> set (calls (wworld demo_org_worker))"
  by code_simp

lemma org_launched_once:
  assumes "worker_run (NewOrgWorkspaceController cf kf rc ifr) (org_sync E) wk"
  shows "length (filter (launches_hub n) (calls (wworld wk))) =
    (if n \<in> orgWorkspaces (ctl (wworld wk)) then 1 else 0)"
proof (rule org_launching.launched_once [OF assms _ _ org_block_count launches_hub_launched])
  show "org_same (ctrlState (NewOrgWorkspaceController cf kf rc ifr)) (ctrlState (NewOrgWorkspaceController cf kf rc ifr))"
    by (simp add: org_same_def)
qed (simp add: NewOrgWorkspaceController_def)

text \<open>C22: over any run, the hub workspace controller of an organization is started once if it is in the map, and never otherwise.\<close>

theorem org_controllers_started_once:
  assumes "worker_run (NewOrgWorkspaceController cf kf rc ifr) (org_sync E) wk"
  shows "length (filter (launches_hub n) (calls (wworld wk))) =
    (if n \<in> orgWorkspaces (ctl (wworld wk)) then 1 else 0)"
  by (rule org_launched_once [OF assms])

theorem org_controllers_started_once_witness:
  "length (filter (launches_hub ''org'') (calls (wworld demo_org_worker))) = 1"
  using org_controllers_started_once [OF demo_org_run [unfolded demo_org_def], of "''org''"] demo_org_started
  by simp

text \<open>C23: in a steady environment the launcher describes the organization workspace controller exactly: the maps and launches its runs can have are those the abstract machine reaches, so besides doing nothing else it can serve the ready organizations in any order.\<close>

theorem org_launches_exactly:
  assumes "org_steady E (ctrlState (NewOrgWorkspaceController cf kf rc ifr))"
  shows "(\<exists>wk. worker_run (NewOrgWorkspaceController cf kf rc ifr) (org_sync E) wk \<and>
      launch_view orgWorkspaces (wworld wk) = v) \<longleftrightarrow>
    launcher (org_ready E (ctrlState (NewOrgWorkspaceController cf kf rc ifr)))
      (org_block (ctrlState (NewOrgWorkspaceController cf kf rc ifr))) v"
proof (rule org_launching_exactly.launches_exactly)
  let ?c = "ctrlState (NewOrgWorkspaceController cf kf rc ifr)"
  show "org_same ?c ?c \<and> org_steady E ?c" using assms by (simp add: org_same_def)
qed (simp_all add: NewOrgWorkspaceController_def)

lemma demo_org_steady: "org_steady demo_hub_env c"
  by (simp add: org_steady_def demo_hub_env_def demo_ws_env_def base_env_def)

lemma demo_org_ready: "org_ready demo_hub_env c n ''https://kcp:org''"
  by (simp add: org_ready_def demo_hub_env_def demo_ws_env_def demo_workspace_def GetWorkspaceType_def
      GetWorkspacePhase_def GetWorkspaceURL_def nested_defs found_or_def)

theorem org_launches_exactly_witness:
  "\<exists>wk. worker_run demo_org (org_sync demo_hub_env) wk \<and> launch_view orgWorkspaces (wworld wk) =
     ({''org2'', ''org1''}, org_block (ctrlState demo_org) ''org1'' ''https://kcp:org'' @
       org_block (ctrlState demo_org) ''org2'' ''https://kcp:org'')"
proof -
  let ?c = "ctrlState demo_org" and ?u = "''https://kcp:org''"
  have "launch_step (org_ready demo_hub_env ?c) (org_block ?c) ({}, []) ({''org1''}, [] @ org_block ?c ''org1'' ?u)"
    by (intro launch_step.launch demo_org_ready) simp
  moreover have "launch_step (org_ready demo_hub_env ?c) (org_block ?c) ({''org1''}, [] @ org_block ?c ''org1'' ?u)
      ({''org2'', ''org1''}, ([] @ org_block ?c ''org1'' ?u) @ org_block ?c ''org2'' ?u)"
    by (intro launch_step.launch demo_org_ready) simp
  ultimately have "launcher (org_ready demo_hub_env ?c) (org_block ?c)
      ({''org2'', ''org1''}, org_block ?c ''org1'' ?u @ org_block ?c ''org2'' ?u)"
    by (simp add: rtranclp.rtrancl_into_rtrancl)
  then show ?thesis
    using org_launches_exactly [OF demo_org_steady] unfolding demo_org_def by blast
qed

text \<open>C24: a hub workspace controller is only started for a listed, ready workspace of type organization, and watches the labelled workspaces at the URL in its status.\<close>

theorem org_starts_only_ready:
  assumes "worker_run (NewOrgWorkspaceController cf kf rc ifr) (org_sync E) wk"
    and "GoController cid \<in> set (calls (wworld wk))"
  shows "\<exists>h n ws url. env_workspaceLister E h ifr n = Inr ws \<and> GetWorkspaceType ws = Ok ''organization'' \<and>
    GetWorkspacePhase ws = Ok ''Ready'' \<and> GetWorkspaceURL ws = Ok url \<and>
    cid = HubWorkspaceController n cf kf rc (WorkspaceInformer url (Some hubSelector))"
proof -
  let ?c = "ctrlState (NewOrgWorkspaceController cf kf rc ifr)"
  have "org_same ?c ?c" by (simp add: org_same_def)
  from org_loop.worker_sound [OF assms(1) this] assms(2) have "org_allowed E ?c (GoController cid)" by blast
  then show ?thesis
    by (auto simp: org_ready_def hub_controller_of_def NewOrgWorkspaceController_def)
qed

theorem org_starts_only_ready_witness:
  "\<exists>h n ws url. env_workspaceLister demo_hub_env h (WorkspaceInformer ''https://kcp'' None) n = Inr ws \<and>
     GetWorkspaceType ws = Ok ''organization'' \<and> n = ''org''"
  using org_starts_only_ready [OF demo_org_run [unfolded demo_org_def] demo_org_calls] by auto

text \<open>The start of the hub workspace controller, through failures.\<close>

lemma org_starts_after_outage:
  assumes "worker_run (NewOrgWorkspaceController cf kf rc ifr) (org_sync E) wk" "n \<in> set (wqueue wk)"
    and "org_sane E (ctrlState (NewOrgWorkspaceController cf kf rc ifr))"
    and "org_works N E (ctrlState (NewOrgWorkspaceController cf kf rc ifr)) n"
    and "finite A" "set (wqueue wk) \<union> events_of steps \<subseteq> A"
    and "N * card A + place n (wqueue wk) < work_count steps"
  shows "length (filter (launches_hub n) (calls (wworld
    (scheduled (NewOrgWorkspaceController cf kf rc ifr) (org_sync E) steps wk)))) = 1"
proof -
  let ?ctrl = "NewOrgWorkspaceController cf kf rc ifr"
  have init: "org_same (ctrlState ?ctrl) (ctrlState ?ctrl)" by (simp add: org_same_def)
  then have "org_same (ctrlState ?ctrl) (ctl (wworld wk))" using org_loop.worker_sound [OF assms(1)] by blast
  with assms(3,4) have "n \<in> orgWorkspaces (ctl (wworld (scheduled ?ctrl (org_sync E) steps wk)))"
    by (intro org_outage.done_after_outage [OF assms(1) _ assms(2,5-7)]) simp
  moreover have "worker_run ?ctrl (org_sync E) (scheduled ?ctrl (org_sync E) steps wk)"
    by (rule org_crash_free.scheduled_run [OF assms(1) conjI [OF init assms(3)]])
  ultimately show ?thesis using org_launched_once by auto
qed

text \<open>C25: a ready organization workspace whose name is queued gets its hub workspace controller, started exactly once, whatever fails on the way: if clients can be built once N calls have been made, N rounds of the work queue and its turn in the next are enough, with informer events arriving in between.\<close>

theorem org_eventually_starts:
  assumes "worker_run (NewOrgWorkspaceController cf kf rc ifr) (org_sync E) wk" "n \<in> set (wqueue wk)"
    and "org_sane E (ctrlState (NewOrgWorkspaceController cf kf rc ifr))"
    and "org_works N E (ctrlState (NewOrgWorkspaceController cf kf rc ifr)) n"
    and "finite A" "set (wqueue wk) \<union> events_of steps \<subseteq> A"
    and "N * card A + place n (wqueue wk) < work_count steps"
  shows "length (filter (launches_hub n) (calls (wworld
    (scheduled (NewOrgWorkspaceController cf kf rc ifr) (org_sync E) steps wk)))) = 1"
  by (rule org_starts_after_outage [OF assms])

text \<open>The client of the organization cannot be built during the first two calls.\<close>

definition demo_org_outage :: env where
  "demo_org_outage = demo_hub_env\<lparr>env_newForConfig := \<lambda>h _. if length h < 2 then Some down else None\<rparr>"

lemma demo_org_outage_ok: "org_sane demo_org_outage c" "org_works 2 demo_org_outage c n"
  by (simp_all add: org_sane_def org_works_def demo_org_outage_def demo_hub_env_def demo_ws_env_def base_env_def)
    (simp_all add: demo_workspace_def GetWorkspaceType_def GetWorkspacePhase_def GetWorkspaceURL_def nested_defs found_or_def)

definition demo_org_waiting :: "org_ctl worker" where
  "demo_org_waiting = eventHandler (\<lambda>_. True) ''org'' (new_worker demo_org)"

lemma demo_org_waiting_run: "worker_run demo_org (org_sync E) demo_org_waiting"
proof -
  have "ctrlFilter demo_org = (\<lambda>_. True)" by (simp add: demo_org_def NewOrgWorkspaceController_def)
  then show ?thesis
    using worker_run.event [OF worker_run.start, of demo_org "org_sync E" "''org''"] by (simp add: demo_org_waiting_def)
qed

theorem org_eventually_starts_witness:
  "length (filter (launches_hub ''org'') (calls (wworld (scheduled demo_org (org_sync demo_org_outage)
     (Some ''org2'' # replicate 5 None) demo_org_waiting)))) = 1"
proof -
  have q: "wqueue demo_org_waiting = [''org'']" by (simp add: demo_org_waiting_def eventHandler_def queue_add_def new_worker_def)
  have "set (wqueue demo_org_waiting) \<union> events_of (Some ''org2'' # replicate 5 None) \<subseteq> {''org'', ''org2''}"
    "''org'' \<in> set (wqueue demo_org_waiting)"
    "2 * card {''org'', ''org2''} + place ''org'' (wqueue demo_org_waiting) < work_count (Some ''org2'' # replicate 5 None)"
    by (auto simp: q)
  then show ?thesis
    using org_eventually_starts [OF demo_org_waiting_run [unfolded demo_org_def] _ demo_org_outage_ok]
    unfolding demo_org_def by (metis finite.emptyI finite.insertI)
qed

end
