(* ===== verification/ClusterManagerCtl.thy ===== *)
theory ClusterManagerCtl
  imports Apply Retry "HOL-Library.Sublist"
begin

section \<open>The cluster manager controller (clustermanager/clustermanager.go)\<close>

text \<open>
  Watches the cluster managers of the hub whose name starts with \<^verbatim>\<open>kcp-\<close>. For one that carries the
  workspace annotation \<^verbatim>\<open>org:workspace\<close> and that the operator has handled, it applies the webhook
  configurations in the workspace and reports the state of the cluster manager as a condition of
  the workspace's status.
\<close>

abbreviation clusterManagerApplied :: string where "clusterManagerApplied \<equiv> ''ClusterManagerApplied''"
abbreviation workspaceAnnotation :: string where "workspaceAnnotation \<equiv> ''kcp-integration.open-cluster-management.io/workspace''"
abbreviation caBundleConfigmapName :: string where "caBundleConfigmapName \<equiv> ''ca-bundle-configmap''"
abbreviation caBundleConfigmapKey :: string where "caBundleConfigmapKey \<equiv> ''ca-bundle.crt''"

definition webhookFiles :: "string list" where
  "webhookFiles =
    [''manifests/cluster-manager-registration-webhook-clustersetbinding-validatingconfiguration.yaml'',
     ''manifests/cluster-manager-registration-webhook-mutatingconfiguration.yaml'',
     ''manifests/cluster-manager-registration-webhook-validatingconfiguration.yaml'',
     ''manifests/cluster-manager-work-webhook-validatingconfiguration.yaml'']"

record cm_ctl =
  cmKcpRestConfig :: rest_config
  registrationWebhookHost :: string
  workWebhookHost :: string

definition NewClusterManagerController :: "rest_config \<Rightarrow> string \<Rightarrow> string \<Rightarrow> cm_ctl controller" where
  "NewClusterManagerController kcpRestConfig regHost workHost =
     \<lparr>ctrlName = ''ClusterManagerSyncController'', ctrlFilter = prefix ''kcp-'',
      ctrlState = \<lparr>cmKcpRestConfig = kcpRestConfig, registrationWebhookHost = regHost,
        workWebhookHost = workHost\<rparr>\<rparr>"

subsection \<open>The condition to report\<close>

definition isClusterManagerApplied :: "cluster_manager \<Rightarrow> condition option" where
  "isClusterManagerApplied clusterManager =
     (let conditions = cmConditions clusterManager;
          appliedConditon = zero_condition\<lparr>condType := clusterManagerApplied,
            condReason := ''ClusterManagerApplied'', condStatus := ConditionTrue,
            condMessage := ''ClusterManager is applied''\<rparr> in
      if \<not> IsStatusConditionTrue conditions ''Applied''
      then (case FindStatusCondition conditions ''Applied'' of
          None \<Rightarrow> None
        | Some condition \<Rightarrow> Some (appliedConditon\<lparr>condReason := ''ClusterManagerApplyFailed'',
            condMessage := condMessage condition\<rparr>))
      else if IsStatusConditionTrue conditions ''HubRegistrationDegraded''
      then (case FindStatusCondition conditions ''HubRegistrationDegraded'' of
          None \<Rightarrow> None
        | Some condition \<Rightarrow> Some (appliedConditon\<lparr>condReason := ''ClusterManagerApplyDegraded'',
            condMessage := condMessage condition\<rparr>))
      else if IsStatusConditionTrue conditions ''HubPlacementDegraded''
      then (case FindStatusCondition conditions ''HubPlacementDegraded'' of
          None \<Rightarrow> None
        | Some condition \<Rightarrow> Some (appliedConditon\<lparr>condReason := ''ClusterManagerApplyDegraded'',
            condMessage := condMessage condition\<rparr>))
      else Some appliedConditon)"

text \<open>Nil exactly when the operator has set no condition \<^verbatim>\<open>Applied\<close>: the other nil checks never fire.\<close>

lemma isClusterManagerApplied_None:
  "isClusterManagerApplied cm = None \<longleftrightarrow> FindStatusCondition (cmConditions cm) ''Applied'' = None"
  by (auto simp: isClusterManagerApplied_def Let_def IsStatusConditionTrue_find split: option.split)

lemma isClusterManagerApplied_Some:
  assumes "isClusterManagerApplied cm = Some c"
  shows "condType c = clusterManagerApplied" "condStatus c = ConditionTrue"
    "condLastTransitionTime c = 0" "condObservedGeneration c = 0"
  using assms
  by (auto simp: isClusterManagerApplied_def Let_def zero_condition_def split: option.splits if_splits)

subsection \<open>Reporting it on the workspace\<close>

definition org_endpoint :: "cm_ctl \<Rightarrow> string \<Rightarrow> string" where
  "org_endpoint c orgWorkspaceName = Host (cmKcpRestConfig c) @ '':'' @ orgWorkspaceName"

text \<open>\<^verbatim>\<open>meta.SetStatusCondition\<close> with the clock read it makes where the transition time is unset.\<close>

definition setStatusCondition :: "env \<Rightarrow> condition list \<Rightarrow> condition \<Rightarrow> ('s, condition list) go" where
  "setStatusCondition E conditions new =
     (if condLastTransitionTime new = 0 \<and>
         (case FindStatusCondition conditions (condType new) of
            None \<Rightarrow> True | Some existing \<Rightarrow> condStatus existing \<noteq> condStatus new)
      then andThen (timeNow E) (\<lambda>now. ret (SetStatusCondition now conditions new))
      else ret (SetStatusCondition 0 conditions new))"

text \<open>From the workspace that was read on: set the condition, write the status if it changed.\<close>

definition writeCondition :: "env \<Rightarrow> string \<Rightarrow> condition \<Rightarrow> object \<Rightarrow> (cm_ctl, unit) go" where
  "writeCondition E host appliedConditon workspace =
     andThen (ofSum (NestedSlice workspace [''status'', ''conditions''])) (\<lambda>slice.
     let conditionSlice = (case slice of None \<Rightarrow> [] | Some xs \<Rightarrow> xs) in
     andThen (ofOutcome (ToConditions E conditionSlice)) (\<lambda>oldConditions.
     andThen (setStatusCondition E oldConditions appliedConditon) (\<lambda>newConditions.
     if oldConditions = newConditions then ret ()
     else
       andThen (ofSum (SetNestedSlice workspace (ToConditionSlice E newConditions) ''status'' [''conditions'']))
         (\<lambda>workspace'.
       andThen (perform (UpdateWorkspaceStatus host workspace')
                 (\<lambda>h. answer (env_updateWorkspaceStatus E h host workspace'))) (\<lambda>_.
       emit (Event ''UpdateWorkspaceStatus''))))))"

definition updateWorksapceStatus :: "env \<Rightarrow> string \<Rightarrow> string \<Rightarrow> condition \<Rightarrow> (cm_ctl, unit) go" where
  "updateWorksapceStatus E orgWorkspaceName worksapceName appliedConditon = andThen getS (\<lambda>c.
     let workspaceConfig = (CopyConfig (cmKcpRestConfig c))\<lparr>Host := org_endpoint c orgWorkspaceName\<rparr>;
         host = Host workspaceConfig in
     andThen (newForConfig E workspaceConfig) (\<lambda>_.
     tryP (perform (GetWorkspace host worksapceName) (\<lambda>h. env_getWorkspace E h host worksapceName))
       (\<lambda>err. if IsNotFound err then ret () else fail err)
       (writeCondition E host appliedConditon)))"

subsection \<open>The webhooks\<close>

definition webhook_config :: "cm_ctl \<Rightarrow> int \<Rightarrow> int \<Rightarrow> bytes \<Rightarrow> config" where
  "webhook_config c regPort workPort caBundle =
     [(''RegistrationWebhookHost'', ''https://'' @ registrationWebhookHost c @ '':'' @ int_to_string regPort),
      (''WorkWebhookHost'', ''https://'' @ workWebhookHost c @ '':'' @ int_to_string workPort),
      (''CABundle'', base64 caBundle)]"

definition getService :: "env \<Rightarrow> string \<Rightarrow> string \<Rightarrow> (cm_ctl, int list) go" where
  "getService E ns name = perform (GetService Hub ns name) (\<lambda>h. env_getService E h Hub ns name)"

definition applyWebhooks :: "env \<Rightarrow> string \<Rightarrow> string \<Rightarrow> (cm_ctl, unit) go" where
  "applyWebhooks E clusterManagerName workspaceId = andThen getS (\<lambda>c.
     andThen (perform (GetConfigMap Hub clusterManagerName caBundleConfigmapName)
               (\<lambda>h. env_getConfigMap E h Hub clusterManagerName caBundleConfigmapName)) (\<lambda>data.
     case map_of data caBundleConfigmapKey of
       None \<Rightarrow> fail (Errorf ''the ca bundle is not found in %s/%s''
         [AStr clusterManagerName, AStr caBundleConfigmapKey])
     | Some caBundle \<Rightarrow>
         andThen (getService E clusterManagerName ''cluster-manager-registration-webhook'') (\<lambda>regPorts.
         andThen (getService E clusterManagerName ''cluster-manager-work-webhook'') (\<lambda>workPorts.
         let workspaceConfig = (CopyConfig (cmKcpRestConfig c))\<lparr>Host := org_endpoint c workspaceId\<rparr> in
         andThen (newForConfig E workspaceConfig) (\<lambda>workspaceKubeClient.
         if regPorts = [] \<or> workPorts = [] then panic ''index out of range''
         else ApplyObjects E workspaceKubeClient NilClient clustermanager_manifestFiles
           (webhook_config c (regPorts ! 0) (workPorts ! 0) caBundle) webhookFiles)))))"

lemma webhook_manifests_render:
  "list_all (renders clustermanager_manifestFiles (webhook_config c regPort workPort caBundle)) webhookFiles"
  by (auto simp: list_all_iff webhookFiles_def clustermanager_manifestFiles_def webhook_config_def
      yaml_defs template_fields_def intro!: rendersI)

subsection \<open>sync\<close>

definition cm_reconcile :: "env \<Rightarrow> cluster_manager \<Rightarrow> (cm_ctl, unit) go" where
  "cm_reconcile E clusterManager = (case map_of (cmAnnotations clusterManager) workspaceAnnotation of
       None \<Rightarrow> ret ()
     | Some workspaceId \<Rightarrow>
         (let workspaceIds = split_on CHR '':'' workspaceId in
          if length workspaceIds \<noteq> 2
          then fail (Errorf ''unexpected format for workspace annotation, <org-worksapce>:<ocm-hub-workspace> is required'' [])
          else (case isClusterManagerApplied clusterManager of
              None \<Rightarrow> ret ()
            | Some appliedConditon \<Rightarrow>
                if condStatus appliedConditon = ConditionFalse
                then updateWorksapceStatus E (workspaceIds ! 0) (workspaceIds ! 1) appliedConditon
                else
                  andThen (applyWebhooks E (cmName clusterManager) workspaceId) (\<lambda>_.
                  updateWorksapceStatus E (workspaceIds ! 0) (workspaceIds ! 1) appliedConditon))))"

definition cm_sync :: "env \<Rightarrow> cm_ctl sync_fun" where
  "cm_sync E clusterManagerName =
     tryP (perform (ListerGet ''clustermanagers'' clusterManagerName)
            (\<lambda>h. env_clusterManagerLister E h clusterManagerName))
       (\<lambda>err. if IsNotFound err then ret () else fail err)
       (cm_reconcile E)"

subsection \<open>The contract\<close>

text \<open>A listed cluster manager with the annotation of a workspace.\<close>

definition cm_target :: "env \<Rightarrow> cluster_manager \<Rightarrow> string \<Rightarrow> string \<Rightarrow> bool" where
  "cm_target E cm org ws \<longleftrightarrow> (\<exists>h n. env_clusterManagerLister E h n = Inr cm) \<and>
     map_of (cmAnnotations cm) workspaceAnnotation = Some (org @ '':'' @ ws) \<and>
     CHR '':'' \<notin> set org \<and> CHR '':'' \<notin> set ws"

definition old_conditions :: "env \<Rightarrow> object \<Rightarrow> condition list outcome" where
  "old_conditions E workspace = (case NestedSlice workspace [''status'', ''conditions''] of
      Inl err \<Rightarrow> Err err
    | Inr None \<Rightarrow> Ok []
    | Inr (Some xs) \<Rightarrow> ToConditions E xs)"

text \<open>An object whose only change is the reported condition, and which does change.\<close>

definition reports :: "env \<Rightarrow> condition \<Rightarrow> object \<Rightarrow> object \<Rightarrow> bool" where
  "reports E applied workspace workspace' \<longleftrightarrow> (\<exists>old now. old_conditions E workspace = Ok old \<and>
     SetStatusCondition now old applied \<noteq> old \<and>
     SetNestedSlice workspace (ToConditionSlice E (SetStatusCondition now old applied))
       ''status'' [''conditions''] = Inr workspace')"

fun cm_allowed :: "env \<Rightarrow> cm_ctl \<Rightarrow> call \<Rightarrow> bool" where
  "cm_allowed E c0 (ListerGet _ _) \<longleftrightarrow> True"
| "cm_allowed E c0 Now \<longleftrightarrow> True"
| "cm_allowed E c0 (Event _) \<longleftrightarrow> True"
| "cm_allowed E c0 (GetConfigMap cl ns name) \<longleftrightarrow> cl = Hub \<and> name = caBundleConfigmapName \<and>
     (\<exists>cm org ws. cm_target E cm org ws \<and> ns = cmName cm)"
| "cm_allowed E c0 (GetService cl ns name) \<longleftrightarrow> cl = Hub \<and>
     (\<exists>cm org ws. cm_target E cm org ws \<and> ns = cmName cm)"
| "cm_allowed E c0 (NewForConfig host) \<longleftrightarrow> (\<exists>cm org ws. cm_target E cm org ws \<and>
     (host = org_endpoint c0 org \<or> host = org_endpoint c0 (org @ '':'' @ ws)))"
| "cm_allowed E c0 (ApplyResource cl obj) \<longleftrightarrow> (\<exists>cm org ws. cm_target E cm org ws \<and>
     cl = Kcp (org_endpoint c0 (org @ '':'' @ ws)))"
| "cm_allowed E c0 (GetWorkspace host ws) \<longleftrightarrow> (\<exists>cm org. cm_target E cm org ws \<and>
     host = org_endpoint c0 org)"
| "cm_allowed E c0 (UpdateWorkspaceStatus host workspace') \<longleftrightarrow>
     (\<exists>cm org ws applied h workspace. cm_target E cm org ws \<and> host = org_endpoint c0 org \<and>
       isClusterManagerApplied cm = Some applied \<and> env_getWorkspace E h host ws = Inr workspace \<and>
       reports E applied workspace workspace')"
| "cm_allowed E c0 _ \<longleftrightarrow> False"

lemma setStatusCondition_Ok:
  "fst (setStatusCondition E cs new w) = Ok cs' \<Longrightarrow> \<exists>now. cs' = SetStatusCondition now cs new"
  by (auto simp: setStatusCondition_def timeNow_def prog_simps split: if_splits)

lemma emits_setStatusCondition: "P Now \<Longrightarrow> emits P I (setStatusCondition E cs new)"
  by (auto simp: setStatusCondition_def intro!: emits_intros)

lemma old_conditions_slice:
  "NestedSlice workspace [''status'', ''conditions''] = Inr sl \<Longrightarrow>
     old_conditions E workspace = ToConditions E (case sl of None \<Rightarrow> [] | Some xs \<Rightarrow> xs)"
  by (simp add: old_conditions_def split: option.split)

lemma emits_writeCondition:
  assumes "cm_target E cm org ws" "isClusterManagerApplied cm = Some applied"
    and "env_getWorkspace E h (org_endpoint c0 org) ws = Inr workspace"
  shows "emits (cm_allowed E c0) I (writeCondition E (org_endpoint c0 org) applied workspace)"
  unfolding writeCondition_def Let_def
proof (rule emits_andThen_outcome [OF emits_ofSum],
    rule emits_andThen_outcome [OF emits_ofOutcome],
    rule emits_andThen_outcome [OF emits_setStatusCondition], goal_cases)
  case (2 sl w1 old w2 new w3)
  then have "old_conditions E workspace = Ok old"
    by (auto simp: old_conditions_slice dest!: ofSum_Ok ofOutcome_Ok)
  moreover from 2 obtain now where "new = SetStatusCondition now old applied"
    using setStatusCondition_Ok by blast
  ultimately have "reports E applied workspace workspace'"
    if "old \<noteq> new" "SetNestedSlice workspace (ToConditionSlice E new) ''status'' [''conditions''] = Inr workspace'"
    for workspace'
    using that unfolding reports_def by (intro exI [of _ old] exI [of _ now]) simp
  with assms have "cm_allowed E c0 (UpdateWorkspaceStatus (org_endpoint c0 org) workspace')"
    if "old \<noteq> new" "SetNestedSlice workspace (ToConditionSlice E new) ''status'' [''conditions''] = Inr workspace'"
    for workspace'
    using that by (simp, blast)
  then show ?case
    by (auto intro!: emits_if emits_ret emits_andThen_outcome [OF emits_ofSum]
        emits_andThen [OF emits_perform] emits_emit dest: ofSum_Ok
        simp del: cm_allowed.simps(9))
qed simp

lemma emits_updateWorksapceStatus:
  assumes "cm_target E cm org ws" "isClusterManagerApplied cm = Some applied"
  shows "emits (cm_allowed E c0) (\<lambda>s. s = c0) (updateWorksapceStatus E org ws applied)"
  unfolding updateWorksapceStatus_def Let_def
proof (rule emits_getS_bind, goal_cases)
  case (1 c)
  have "cm_allowed E c0 (NewForConfig (org_endpoint c0 org))"
    "cm_allowed E c0 (GetWorkspace (org_endpoint c0 org) ws)" using assms(1) by auto
  then show ?case
    unfolding 1
    by (intro emits_andThen emits_newForConfig emits_tryP_outcome)
      (auto intro!: emits_perform emits_ret emits_fail emits_writeCondition assms dest: perform_Ok
        simp del: cm_allowed.simps)
qed

lemma apply_call_cm:
  "cm_target E cm org ws \<Longrightarrow> apply_call (Kcp (org_endpoint c0 (org @ '':'' @ ws))) NilClient x \<Longrightarrow>
     cm_allowed E c0 x"
  by (cases x) auto

lemma newForConfig_Ok: "fst (newForConfig E config w) = Ok cl \<Longrightarrow> cl = Kcp (Host config)"
  by (auto simp: newForConfig_def prog_simps split: sum.splits)

lemma emits_applyWebhooks:
  assumes "cm_target E cm org ws"
  shows "emits (cm_allowed E c0) (\<lambda>s. s = c0) (applyWebhooks E (cmName cm) (org @ '':'' @ ws))"
  unfolding applyWebhooks_def Let_def getService_def
proof (rule emits_getS_bind, goal_cases)
  case (1 c)
  have a: "cm_allowed E c0 (NewForConfig (org_endpoint c0 (org @ '':'' @ ws)))"
    "cm_allowed E c0 (GetConfigMap Hub (cmName cm) caBundleConfigmapName)"
    "\<And>n. cm_allowed E c0 (GetService Hub (cmName cm) n)" using assms by auto
  have app: "emits (cm_allowed E c0) I (ApplyObjects E cl NilClient fs config names)"
    if "fst (newForConfig E (rc\<lparr>Host := org_endpoint c0 (org @ '':'' @ ws)\<rparr>) w) = Ok cl"
    for cl fs config names rc I and w :: "(call, cm_ctl) world"
    using newForConfig_Ok [OF that] apply_call_cm [OF assms] by (auto intro!: emits_ApplyObjects_weak)
  show ?case
    unfolding 1
    by (auto intro!: emits_andThen [OF emits_perform] emits_fail emits_panic a
        emits_andThen_fst [OF emits_newForConfig] app
        simp del: cm_allowed.simps append.simps split: option.split)
qed

lemma split_annotation:
  "length (split_on CHR '':'' s) = 2 \<Longrightarrow> \<exists>org ws. s = org @ '':'' @ ws \<and>
     split_on CHR '':'' s = [org, ws] \<and> CHR '':'' \<notin> set org \<and> CHR '':'' \<notin> set ws"
proof -
  assume len: "length (split_on CHR '':'' s) = 2"
  then have "count_list s CHR '':'' = 1" by (simp add: length_split_on)
  then have "CHR '':'' \<in> set s" using count_notin [of "CHR '':''" s] by fastforce
  then obtain org ws where s: "s = org @ CHR '':'' # ws" and o: "CHR '':'' \<notin> set org"
    by (meson split_list_first)
  with len have w: "CHR '':'' \<notin> set ws"
    by (simp add: split_on_append length_split_on count_list_0_iff)
  with s o show ?thesis by (auto simp: split_on_append split_on_no_sep)
qed

lemma emits_cm_reconcile:
  assumes "env_clusterManagerLister E h n = Inr cm"
  shows "emits (cm_allowed E c0) (\<lambda>s. s = c0) (cm_reconcile E cm)"
proof (cases "map_of (cmAnnotations cm) workspaceAnnotation")
  case None
  then show ?thesis by (simp add: cm_reconcile_def emits_ret)
next
  case (Some wid)
  show ?thesis
  proof (cases "length (split_on CHR '':'' wid) = 2")
    case True
    then obtain org ws where w: "wid = org @ '':'' @ ws" "split_on CHR '':'' wid = [org, ws]"
      "CHR '':'' \<notin> set org" "CHR '':'' \<notin> set ws" using split_annotation by blast
    with Some assms have t: "cm_target E cm org ws" by (auto simp: cm_target_def)
    have aw: "emits (cm_allowed E c0) (\<lambda>s. s = c0) (applyWebhooks E (cmName cm) wid)"
      unfolding w(1) by (rule emits_applyWebhooks [OF t])
    show ?thesis
      unfolding cm_reconcile_def
      using Some w(2) emits_updateWorksapceStatus [OF t] aw
      by (auto intro!: emits_ret emits_andThen simp: Let_def split: option.split)
  qed (use Some in \<open>simp add: cm_reconcile_def Let_def emits_fail\<close>)
qed

interpretation cm_loop: reconciler "cm_sync E" "\<lambda>s. s = c0" "cm_allowed E c0"
  for E :: env and c0 :: cm_ctl
proof (unfold_locales)
  fix n
  show "emits (cm_allowed E c0) (\<lambda>s. s = c0) (cm_sync E n)"
    unfolding cm_sync_def
    by (rule emits_tryP_outcome)
      (auto intro!: emits_perform emits_ret emits_fail emits_cm_reconcile dest: perform_Ok)
qed

subsection \<open>The lookups\<close>

lemma cm_reconcile_no_lister: "emits (\<lambda>x. \<forall>k n. x \<noteq> ListerGet k n) (\<lambda>_. True) (cm_reconcile E cm)"
proof -
  have a: "apply_call cl cmc x \<Longrightarrow> \<forall>k n. x \<noteq> ListerGet k n" for cl cmc x by (cases x) auto
  have u: "emits (\<lambda>x. \<forall>k n. x \<noteq> ListerGet k n) (\<lambda>_. True) (updateWorksapceStatus E org ws c)" for org ws c
    unfolding updateWorksapceStatus_def writeCondition_def Let_def
    by (auto intro!: emits_intros emits_newForConfig emits_setStatusCondition split: option.split)
  have w: "emits (\<lambda>x. \<forall>k n. x \<noteq> ListerGet k n) (\<lambda>_. True) (applyWebhooks E m wid)" for m wid
    unfolding applyWebhooks_def getService_def Let_def
    by (auto intro!: emits_intros emits_newForConfig dest: a split: option.split)
  show ?thesis
    unfolding cm_reconcile_def Let_def
    by (auto intro!: emits_intros u w split: option.split)
qed

subsection \<open>The outcomes of the sync\<close>

lemma cm_reconcile_annotated:
  assumes "map_of (cmAnnotations cm) workspaceAnnotation = Some (org @ '':'' @ ws)"
    and "CHR '':'' \<notin> set org" "CHR '':'' \<notin> set ws"
  shows "cm_reconcile E cm = (case isClusterManagerApplied cm of
      None \<Rightarrow> ret ()
    | Some c \<Rightarrow> andThen (applyWebhooks E (cmName cm) (org @ '':'' @ ws)) (\<lambda>_. updateWorksapceStatus E org ws c))"
proof -
  have "split_on CHR '':'' (org @ '':'' @ ws) = [org, ws]"
    using assms(2,3) by (simp add: split_on_append split_on_no_sep)
  with assms(1) show ?thesis
    by (auto simp: cm_reconcile_def Let_def dest: isClusterManagerApplied_Some split: option.split)
qed

text \<open>The conditions of a workspace already carry the condition to report.\<close>

definition carries :: "condition list \<Rightarrow> condition \<Rightarrow> bool" where
  "carries old c \<longleftrightarrow> (case FindStatusCondition old (condType c) of
      None \<Rightarrow> False
    | Some ex \<Rightarrow> condStatus ex = condStatus c \<and> condReason ex = condReason c \<and>
        condMessage ex = condMessage c \<and> condObservedGeneration ex = condObservedGeneration c)"

lemma carries_same: "carries old c \<longleftrightarrow> SetStatusCondition now old c = old"
  by (auto simp: carries_def SetStatusCondition_same split: option.splits)

lemma old_conditions_Ok:
  "old_conditions E ws = Ok old \<Longrightarrow> \<exists>sl. NestedSlice ws [''status'', ''conditions''] = Inr sl \<and>
     ToConditions E (case sl of None \<Rightarrow> [] | Some xs \<Rightarrow> xs) = Ok old"
  by (auto simp: old_conditions_def split: sum.splits option.splits)

lemma setStatusCondition_result:
  fixes w :: "(call, 's) world"
  shows "\<exists>now w2 cs. setStatusCondition E old c w = (Ok (SetStatusCondition now old c), w2) \<and>
     calls w2 = calls w @ cs \<and> writes_of cs = []"
proof (cases "(setStatusCondition E old c :: ('s, condition list) go) = ret (SetStatusCondition 0 old c)")
  case True
  then show ?thesis by (auto simp: ret_def intro!: exI)
next
  case False
  then have "(setStatusCondition E old c :: ('s, condition list) go) = andThen (timeNow E) (\<lambda>now. ret (SetStatusCondition now old c))"
    by (auto simp: setStatusCondition_def)
  then show ?thesis by (auto simp: prog_simps timeNow_def intro!: exI)
qed

lemma updateWorksapceStatus_read:
  assumes "env_newForConfig E (calls w) ((cmKcpRestConfig (ctl w))\<lparr>Host := org_endpoint (ctl w) org\<rparr>) = None"
    and "env_getWorkspace E (calls w @ [NewForConfig (org_endpoint (ctl w) org)]) (org_endpoint (ctl w) org) n = Inr ws"
  shows "updateWorksapceStatus E org n c w = writeCondition E (org_endpoint (ctl w) org) c ws
    (w\<lparr>calls := calls w @ [NewForConfig (org_endpoint (ctl w) org), GetWorkspace (org_endpoint (ctl w) org) n]\<rparr>)"
  using assms by (simp add: updateWorksapceStatus_def newForConfig_def prog_simps Let_def)

lemma old_conditions_read:
  assumes "old_conditions E ws = Ok old"
  shows "writeCondition E host c ws w = andThen (setStatusCondition E old c) (\<lambda>newConditions.
     if old = newConditions then ret ()
     else
       andThen (ofSum (SetNestedSlice ws (ToConditionSlice E newConditions) ''status'' [''conditions'']))
         (\<lambda>workspace'.
       andThen (perform (UpdateWorkspaceStatus host workspace')
                 (\<lambda>h. answer (env_updateWorkspaceStatus E h host workspace'))) (\<lambda>_.
       emit (Event ''UpdateWorkspaceStatus'')))) w"
proof -
  from old_conditions_Ok [OF assms] obtain sl where
    "NestedSlice ws [''status'', ''conditions''] = Inr sl"
    "ToConditions E (case sl of None \<Rightarrow> [] | Some xs \<Rightarrow> xs) = Ok old" by blast
  then show ?thesis
    by (simp add: writeCondition_def ofSum_def ofOutcome_def ret_def andThen_def [of "\<lambda>w. (Ok _, w)"] tryP_def Let_def)
qed

lemma status_can_be_set:
  assumes "old_conditions E ws = Ok old" "map_of ws ''status'' \<noteq> Some JNull"
  shows "\<exists>ws'. SetNestedSlice ws xs ''status'' [''conditions''] = Inr ws'"
  using assms
  by (cases "map_of ws ''status''"; cases "the (map_of ws ''status'')")
    (auto simp: old_conditions_def NestedSlice_def SetNestedSlice_def split: option.splits json.splits)

subsection \<open>Panics\<close>

text \<open>
  What keeps the controller from panicking: the services have a port, the webhook manifests decode
  and not to a \<open>ClusterManager\<close>, and the conditions of a workspace convert.
\<close>

definition cm_sane :: "env \<Rightarrow> cm_ctl \<Rightarrow> bool" where
  "cm_sane E c \<longleftrightarrow> (\<forall>h ns n. env_getService E h Hub ns n \<noteq> Inr []) \<and>
     (\<forall>p q ca. list_all (decodes E NilClient clustermanager_manifestFiles (webhook_config c p q ca)) webhookFiles) \<and>
     (\<forall>h host n ws s. env_getWorkspace E h host n = Inr ws \<longrightarrow> old_conditions E ws \<noteq> Panic s)"

lemma safe_writeCondition:
  assumes "\<And>s. old_conditions E ws \<noteq> Panic s"
  shows "safe I (writeCondition E host cond ws)"
  unfolding writeCondition_def Let_def
proof (rule safe_andThen_outcome [OF safe_ofSum], rule safe_andThen, goal_cases)
  case (1 sl w)
  then have "old_conditions E ws = ToConditions E (case sl of None \<Rightarrow> [] | Some xs \<Rightarrow> xs)"
    by (intro old_conditions_slice) (auto dest: ofSum_Ok)
  with assms show ?case by (intro safe_ofOutcome) simp
qed (auto simp: setStatusCondition_def intro!: safe_intros)

lemma safe_updateWorksapceStatus:
  assumes "cm_sane E c0"
  shows "safe (\<lambda>c. c = c0) (updateWorksapceStatus E org n cond)"
  unfolding updateWorksapceStatus_def Let_def
proof (rule safe_getS_bind, rule safe_andThen [OF safe_newForConfig], rule safe_tryP_outcome, goal_cases)
  case (3 c x ws w)
  with assms show ?case
    by (auto dest!: perform_Ok simp: cm_sane_def intro!: safe_writeCondition)
qed (auto intro!: safe_intros)

lemma safe_getService:
  assumes "cm_sane E c0" and "\<And>ports. ports \<noteq> [] \<Longrightarrow> safe I (k ports)"
  shows "safe I (andThen (getService E ns n) k)"
  unfolding getService_def
proof (rule safe_andThen_outcome [OF safe_perform])
  fix ports w
  assume "fst (perform (GetService Hub ns n) (\<lambda>h. env_getService E h Hub ns n) w) = Ok ports"
  with assms(1) have "ports \<noteq> []" by (auto simp: cm_sane_def dest!: perform_Ok)
  then show "safe I (k ports)" by (rule assms(2))
qed

lemma safe_applyWebhooks:
  assumes "cm_sane E c0"
  shows "safe (\<lambda>c. c = c0) (applyWebhooks E cmn wid)"
  unfolding applyWebhooks_def Let_def
  by (rule safe_getS_bind)
    (use assms in \<open>auto intro!: safe_getService [OF assms] safe_tryP safe_fail safe_andThen [OF safe_perform]
      safe_andThen [OF safe_newForConfig] safe_ApplyObjects webhook_manifests_render
      simp: cm_sane_def split: option.split\<close>)

lemma safe_cm_sync:
  assumes "cm_sane E c0"
  shows "safe (\<lambda>c. c = c0) (cm_sync E n)"
  unfolding cm_sync_def cm_reconcile_def Let_def
  by (auto intro!: safe_intros safe_applyWebhooks [OF assms] safe_updateWorksapceStatus [OF assms]
      split: option.split)

interpretation cm_crash_free: crash_free "cm_sync E" "\<lambda>c. c = c0 \<and> cm_sane E c0" "cm_allowed E c0"
  for E :: env and c0 :: cm_ctl
  by (rule crash_freeI [OF cm_loop.reconciler_axioms safe_cm_sync])

lemma no_status_update: "emits (\<lambda>x. \<forall>host ws. x \<noteq> UpdateWorkspaceStatus host ws) I (applyWebhooks E m wid)"
proof -
  have a: "apply_call cl cmc x \<Longrightarrow> \<forall>host ws. x \<noteq> UpdateWorkspaceStatus host ws" for cl cmc x by (cases x) auto
  show ?thesis
    unfolding applyWebhooks_def getService_def Let_def
    by (auto intro!: emits_intros emits_newForConfig dest: a split: option.split)
qed

text \<open>A sync either stops at once or applies the webhooks and then reports.\<close>

lemma cm_reconcile_cases:
  obtains r where "\<And>w. cm_reconcile E cm w = (r, w)"
  | wid org wsn c where "map_of (cmAnnotations cm) workspaceAnnotation = Some wid"
    "cm_reconcile E cm = andThen (applyWebhooks E (cmName cm) wid) (\<lambda>_. updateWorksapceStatus E org wsn c)"
proof (cases "map_of (cmAnnotations cm) workspaceAnnotation")
  case (Some wid)
  show thesis
  proof (cases "length (split_on CHR '':'' wid) = 2")
    case True
    then obtain org wsn where s: "wid = org @ '':'' @ wsn" "CHR '':'' \<notin> set org" "CHR '':'' \<notin> set wsn"
      using split_annotation by blast
    note rec = cm_reconcile_annotated [OF Some [unfolded s(1)] s(2,3), of E]
    show thesis
    proof (cases "isClusterManagerApplied cm")
      case None
      show thesis by (rule that(1)) (simp add: rec None ret_def)
    next
      case (Some c)
      show thesis
        by (rule that(2)) (simp_all add: \<open>map_of _ _ = Some wid\<close> rec Some s(1))
    qed
  next
    case False
    show thesis by (rule that(1)) (simp add: cm_reconcile_def Some False Let_def fail_def)
  qed
next
  case None
  show thesis by (rule that(1)) (simp add: cm_reconcile_def None ret_def)
qed

lemma updateWorksapceStatus_appends:
  obtains post where "calls (snd (updateWorksapceStatus E org wsn c w)) = calls w @ post"
proof -
  have "emits (\<lambda>_. True) (\<lambda>_. True) (updateWorksapceStatus E org wsn c)"
    unfolding updateWorksapceStatus_def writeCondition_def Let_def
    by (auto intro!: emits_intros emits_setStatusCondition split: option.split)
  with that show thesis by (auto elim: emitsD)
qed

subsection \<open>Progress\<close>

text \<open>A cluster manager whose workspace can be told: annotated, handled by the operator, every call succeeds
  once the history is as long as \<open>N\<close>.\<close>

definition cm_calls_work :: "nat \<Rightarrow> env \<Rightarrow> bool" where
  "cm_calls_work N E \<longleftrightarrow> (\<forall>h. N \<le> length h \<longrightarrow>
        (\<forall>ns. \<exists>data ca. env_getConfigMap E h Hub ns caBundleConfigmapName = Inr data \<and>
           map_of data caBundleConfigmapKey = Some ca) \<and>
        (\<forall>ns s. \<exists>ports. env_getService E h Hub ns s = Inr ports) \<and> (\<forall>rc. env_newForConfig E h rc = None)) \<and>
     (\<forall>host. apply_works N E (Kcp host))"

definition cm_works :: "nat \<Rightarrow> env \<Rightarrow> cm_ctl \<Rightarrow> string \<Rightarrow> string \<Rightarrow> string \<Rightarrow> condition \<Rightarrow> bool" where
  "cm_works N E c0 n org ws c \<longleftrightarrow>
     (\<forall>h. \<exists>cm. env_clusterManagerLister E h n = Inr cm \<and> isClusterManagerApplied cm = Some c \<and>
        map_of (cmAnnotations cm) workspaceAnnotation = Some (org @ '':'' @ ws)) \<and>
     CHR '':'' \<notin> set org \<and> CHR '':'' \<notin> set ws \<and> cm_calls_work N E"

lemma applyWebhooks_works:
  assumes "cm_calls_work N E" "cm_sane E c0" "ctl w = c0" "N \<le> length (calls w)"
  shows "fst (applyWebhooks E name wid w) = Ok ()"
proof -
  from assms(1) obtain data ca where d: "env_getConfigMap E (calls w) Hub name caBundleConfigmapName = Inr data"
    "map_of data caBundleConfigmapKey = Some ca" using assms(4) unfolding cm_calls_work_def by blast
  let ?h1 = "calls w @ [GetConfigMap Hub name caBundleConfigmapName]"
  let ?h2 = "?h1 @ [GetService Hub name ''cluster-manager-registration-webhook'']"
  from assms(1) have "\<exists>ports. env_getService E h Hub name s = Inr ports" if "N \<le> length h" for h s
    using that unfolding cm_calls_work_def by blast
  with assms(4) obtain p q where p: "env_getService E ?h1 Hub name ''cluster-manager-registration-webhook'' = Inr p"
    and q: "env_getService E ?h2 Hub name ''cluster-manager-work-webhook'' = Inr q" by (metis length_append trans_le_add1)
  from assms(2) p q have "p \<noteq> []" "q \<noteq> []" by (auto simp: cm_sane_def)
  moreover have "apply_works N E (Kcp host)" "N \<le> length h \<Longrightarrow> env_newForConfig E h rc = None" for host h rc
    using assms(1) by (simp_all add: cm_calls_work_def)
  moreover have "list_all (decodes E NilClient clustermanager_manifestFiles
      (webhook_config c0 (p ! 0) (q ! 0) ca)) webhookFiles" using assms(2) by (simp add: cm_sane_def)
  ultimately show ?thesis
    using d p q assms(3,4)
    by (simp add: applyWebhooks_def getService_def newForConfig_def prog_simps Let_def
        ApplyObjects_works [where N = N] webhook_manifests_render)
qed

lemma updateWorksapceStatus_writes:
  assumes "env_newForConfig E (calls w) ((cmKcpRestConfig (ctl w))\<lparr>Host := org_endpoint (ctl w) org\<rparr>) = None"
    and "env_getWorkspace E (calls w @ [NewForConfig (org_endpoint (ctl w) org)]) (org_endpoint (ctl w) org) n = Inr ws"
    and "old_conditions E ws = Ok old" "map_of ws ''status'' \<noteq> Some JNull" and "\<not> carries old c"
  shows "\<exists>ws' cs. reports E c ws ws' \<and> calls (snd (updateWorksapceStatus E org n c w)) = calls w @ cs \<and>
    writes_of cs = [UpdateWorkspaceStatus (org_endpoint (ctl w) org) ws']"
proof -
  let ?host = "org_endpoint (ctl w) org"
  let ?w1 = "w\<lparr>calls := calls w @ [NewForConfig ?host, GetWorkspace ?host n]\<rparr>"
  obtain now w2 cs where new: "setStatusCondition E old c ?w1 = (Ok (SetStatusCondition now old c), w2)"
    and w2: "calls w2 = calls ?w1 @ cs" "writes_of cs = []"
    using setStatusCondition_result by blast
  from status_can_be_set [OF assms(3,4)] obtain ws' where
    ws': "SetNestedSlice ws (ToConditionSlice E (SetStatusCondition now old c)) ''status'' [''conditions''] = Inr ws'"
    by blast
  have ch: "SetStatusCondition now old c \<noteq> old" using assms(5) carries_same by blast
  with assms(3) ws' have "reports E c ws ws'"
    unfolding reports_def by (intro exI [of _ old] exI [of _ now]) simp
  moreover have "\<exists>ds. calls (snd (updateWorksapceStatus E org n c w)) =
      calls w2 @ UpdateWorkspaceStatus ?host ws' # ds \<and> writes_of ds = []"
    using new ws' ch
    by (auto simp: updateWorksapceStatus_read [OF assms(1,2)] old_conditions_read [OF assms(3)] prog_simps
        answer_def split: option.split)
  ultimately show ?thesis using w2 by fastforce
qed

lemma cm_sync_reports:
  assumes "cm_works 0 E c0 n org wsn c" "cm_sane E c0" "ctl w = c0"
    and "\<And>h. env_getWorkspace E h (org_endpoint c0 org) wsn = Inr ws"
    and "old_conditions E ws = Ok old" "map_of ws ''status'' \<noteq> Some JNull" "\<not> carries old c"
  shows "\<exists>ws'. reports E c ws ws' \<and> UpdateWorkspaceStatus (org_endpoint c0 org) ws' \<in> set (calls (snd (cm_sync E n w)))"
proof -
  let ?w0 = "w\<lparr>calls := calls w @ [ListerGet ''clustermanagers'' n]\<rparr>"
  from assms(1) have "\<exists>cm. env_clusterManagerLister E (calls w) n = Inr cm \<and> isClusterManagerApplied cm = Some c \<and>
      map_of (cmAnnotations cm) workspaceAnnotation = Some (org @ '':'' @ wsn)"
    and s: "CHR '':'' \<notin> set org" "CHR '':'' \<notin> set wsn" "\<And>h rc. env_newForConfig E h rc = None"
    by (auto simp: cm_works_def cm_calls_work_def)
  then obtain cm where cm: "env_clusterManagerLister E (calls w) n = Inr cm" "isClusterManagerApplied cm = Some c"
    "map_of (cmAnnotations cm) workspaceAnnotation = Some (org @ '':'' @ wsn)" by blast
  let ?aw = "applyWebhooks E (cmName cm) (org @ '':'' @ wsn)"
  have "fst (?aw ?w0) = Ok ()" by (rule applyWebhooks_works [where N = 0 and ?c0.0 = c0]) (use assms(1-3) in \<open>simp_all add: cm_works_def\<close>)
  then obtain w1 where aw: "?aw ?w0 = (Ok (), w1)" by (metis prod.collapse)
  have "ctl (snd (?aw ?w0)) = c0"
    using emitsD [OF emits_frame [OF no_status_update], of "\<lambda>s. s = c0" ?w0] assms(3) by auto
  with aw have c1: "ctl w1 = c0" by simp
  obtain ws' cs where "reports E c ws ws'"
    "calls (snd (updateWorksapceStatus E org wsn c w1)) = calls w1 @ cs"
    "writes_of cs = [UpdateWorkspaceStatus (org_endpoint (ctl w1) org) ws']"
    using updateWorksapceStatus_writes [of E w1 org wsn ws old c] assms(4-7) s(3) c1 by auto
  moreover have "cm_sync E n w = updateWorksapceStatus E org wsn c w1"
    using cm_reconcile_annotated [OF cm(3) s(1,2), of E] cm(1,2) aw
    by (simp add: cm_sync_def perform_def tryP_def andThen_def)
  ultimately show ?thesis
    using c1 by (intro exI [of _ ws']) (auto simp: writes_of_def filter_eq_Cons_iff)
qed

text \<open>The status is written once the calls for it stop failing.\<close>

lemma writeCondition_result:
  assumes "old_conditions E ws = Ok old" "map_of ws ''status'' \<noteq> Some JNull" "\<not> carries old c"
  obtains ws' cs where "reports E c ws ws'"
    "fst (writeCondition E host c ws w) = (case env_updateWorkspaceStatus E (calls w @ cs) host ws' of
       None \<Rightarrow> Ok () | Some e \<Rightarrow> Err e)"
    "calls (snd (writeCondition E host c ws w)) = calls w @ cs @ UpdateWorkspaceStatus host ws' #
       (case env_updateWorkspaceStatus E (calls w @ cs) host ws' of None \<Rightarrow> [Event ''UpdateWorkspaceStatus''] | Some e \<Rightarrow> [])"
proof -
  obtain now w2 cs where new: "setStatusCondition E old c w = (Ok (SetStatusCondition now old c), w2)"
    and w2: "calls w2 = calls w @ cs"
    using setStatusCondition_result by blast
  from status_can_be_set [OF assms(1,2)] obtain ws' where
    ws': "SetNestedSlice ws (ToConditionSlice E (SetStatusCondition now old c)) ''status'' [''conditions''] = Inr ws'"
    by blast
  have ch: "SetStatusCondition now old c \<noteq> old" using assms(3) carries_same by blast
  with assms(1) ws' have "reports E c ws ws'"
    unfolding reports_def by (intro exI [of _ old] exI [of _ now]) simp
  then show thesis
    by (rule that [of ws' cs]) (use new ws' ch w2 in
        \<open>auto simp: old_conditions_read [OF assms(1)] prog_simps answer_def split: option.split\<close>)
qed

text \<open>The workspace can be read and written once the history is as long as \<open>N\<close>, and is not found missing before.\<close>

definition cm_reaches :: "nat \<Rightarrow> env \<Rightarrow> string \<Rightarrow> string \<Rightarrow> object \<Rightarrow> condition \<Rightarrow> bool" where
  "cm_reaches N E host wsn ws c \<longleftrightarrow>
     (\<forall>h. case env_getWorkspace E h host wsn of Inl e \<Rightarrow> \<not> IsNotFound e \<and> length h < N | Inr ws' \<Rightarrow> ws' = ws) \<and>
     (\<forall>h ws'. N \<le> length h \<longrightarrow> env_updateWorkspaceStatus E h host ws' = None) \<and>
     (\<exists>old. old_conditions E ws = Ok old \<and> \<not> carries old c) \<and> map_of ws ''status'' \<noteq> Some JNull"

text \<open>The report has been accepted: the event is only recorded then.\<close>

definition reported_in :: "env \<Rightarrow> string \<Rightarrow> object \<Rightarrow> condition \<Rightarrow> history \<Rightarrow> bool" where
  "reported_in E host ws c h \<longleftrightarrow> (\<exists>pre ws' post. reports E c ws ws' \<and>
     h = pre @ [UpdateWorkspaceStatus host ws', Event ''UpdateWorkspaceStatus''] @ post)"

lemma reported_in_append: "reported_in E host ws c h \<Longrightarrow> reported_in E host ws c (h @ h')"
  unfolding reported_in_def by (metis append_assoc)

lemma updateWorksapceStatus_recovers:
  assumes "cm_reaches N E (org_endpoint (ctl w) org) wsn ws c" "N \<le> length (calls w)"
    and "\<And>h rc. N \<le> length h \<Longrightarrow> env_newForConfig E h rc = None"
  shows "fst (updateWorksapceStatus E org wsn c w) = Ok ()"
proof -
  let ?host = "org_endpoint (ctl w) org"
  from assms(1) have upd: "N \<le> length h \<Longrightarrow> env_updateWorkspaceStatus E h ?host ws' = None"
    and get: "case env_getWorkspace E h ?host wsn of Inl e \<Rightarrow> \<not> IsNotFound e \<and> length h < N | Inr ws' \<Rightarrow> ws' = ws" for h ws'
    by (simp_all add: cm_reaches_def)
  from get [of "calls w @ [NewForConfig ?host]"] assms(2)
  have g: "env_getWorkspace E (calls w @ [NewForConfig ?host]) ?host wsn = Inr ws" by (auto split: sum.splits)
  from assms(1) obtain old where old: "old_conditions E ws = Ok old" "map_of ws ''status'' \<noteq> Some JNull" "\<not> carries old c"
    by (auto simp: cm_reaches_def)
  note eq = updateWorksapceStatus_read [OF assms(3) [OF assms(2)] g]
  obtain ws' cs where "fst (updateWorksapceStatus E org wsn c w) =
      (case env_updateWorkspaceStatus E ((calls w @ [NewForConfig ?host, GetWorkspace ?host wsn]) @ cs) ?host ws' of
         None \<Rightarrow> Ok () | Some e \<Rightarrow> Err e)"
    unfolding eq
    by (rule writeCondition_result [OF old, where host = ?host and
          w = "w\<lparr>calls := calls w @ [NewForConfig ?host, GetWorkspace ?host wsn]\<rparr>"]) auto
  with upd assms(2) show ?thesis by simp
qed

lemma updateWorksapceStatus_accepted:
  assumes "cm_reaches N E (org_endpoint (ctl w) org) wsn ws c" "fst (updateWorksapceStatus E org wsn c w) = Ok u"
  shows "reported_in E (org_endpoint (ctl w) org) ws c (calls (snd (updateWorksapceStatus E org wsn c w)))"
proof -
  let ?host = "org_endpoint (ctl w) org"
  have n: "env_newForConfig E (calls w) ((cmKcpRestConfig (ctl w))\<lparr>Host := ?host\<rparr>) = None"
    using assms(2) by (auto simp: updateWorksapceStatus_def newForConfig_def prog_simps Let_def answer_def
        split: option.splits)
  have get: "case env_getWorkspace E h ?host wsn of Inl e \<Rightarrow> \<not> IsNotFound e \<and> length h < N | Inr ws' \<Rightarrow> ws' = ws" for h
    using assms(1) by (simp add: cm_reaches_def)
  have g: "env_getWorkspace E (calls w @ [NewForConfig ?host]) ?host wsn = Inr ws"
    using assms(2) n get [of "calls w @ [NewForConfig ?host]"]
    by (auto simp: updateWorksapceStatus_def newForConfig_def prog_simps Let_def split: sum.splits if_splits)
  from assms(1) obtain old where old: "old_conditions E ws = Ok old" "map_of ws ''status'' \<noteq> Some JNull" "\<not> carries old c"
    by (auto simp: cm_reaches_def)
  note eq = updateWorksapceStatus_read [OF n g]
  let ?w1 = "w\<lparr>calls := calls w @ [NewForConfig ?host, GetWorkspace ?host wsn]\<rparr>"
  obtain ws' cs where r: "reports E c ws ws'"
    "fst (writeCondition E ?host c ws ?w1) = (case env_updateWorkspaceStatus E (calls ?w1 @ cs) ?host ws' of
       None \<Rightarrow> Ok () | Some e \<Rightarrow> Err e)"
    "calls (snd (writeCondition E ?host c ws ?w1)) = calls ?w1 @ cs @ UpdateWorkspaceStatus ?host ws' #
       (case env_updateWorkspaceStatus E (calls ?w1 @ cs) ?host ws' of None \<Rightarrow> [Event ''UpdateWorkspaceStatus''] | Some e \<Rightarrow> [])"
    by (rule writeCondition_result [OF old])
  with assms(2) have "calls (snd (updateWorksapceStatus E org wsn c w)) =
      (calls ?w1 @ cs) @ [UpdateWorkspaceStatus ?host ws', Event ''UpdateWorkspaceStatus''] @ []"
    by (auto simp: eq split: option.splits)
  with r(1) show ?thesis unfolding reported_in_def by blast
qed

text \<open>The sync of such a cluster manager, with the webhooks before the report.\<close>

lemma cm_works_sync:
  assumes "cm_works N E c0 n org wsn c"
  obtains name where "cm_sync E n w = andThen (applyWebhooks E name (org @ '':'' @ wsn))
    (\<lambda>_. updateWorksapceStatus E org wsn c) (w\<lparr>calls := calls w @ [ListerGet ''clustermanagers'' n]\<rparr>)"
proof -
  from assms have "\<exists>cm. env_clusterManagerLister E (calls w) n = Inr cm \<and> isClusterManagerApplied cm = Some c \<and>
      map_of (cmAnnotations cm) workspaceAnnotation = Some (org @ '':'' @ wsn)"
    and s: "CHR '':'' \<notin> set org" "CHR '':'' \<notin> set wsn" by (auto simp: cm_works_def)
  then obtain cm where cm: "env_clusterManagerLister E (calls w) n = Inr cm" "isClusterManagerApplied cm = Some c"
    "map_of (cmAnnotations cm) workspaceAnnotation = Some (org @ '':'' @ wsn)" by blast
  then show thesis
    using cm_reconcile_annotated [OF cm(3) s, of E]
    by (intro that [of "cmName cm"]) (simp add: cm_sync_def perform_def tryP_def andThen_def)
qed

lemma applyWebhooks_ctl: "ctl (snd (applyWebhooks E m wid w)) = ctl w"
  and applyWebhooks_calls: "\<exists>cs. calls (snd (applyWebhooks E m wid w)) = calls w @ cs"
  using emitsD [OF emits_frame [OF no_status_update], of "\<lambda>s. s = ctl w" w E m wid] by auto

lemma cm_sync_calls: "length (calls w) < length (calls (snd (cm_sync E k w)))"
proof -
  have "emits (cm_allowed E (ctl w)) (\<lambda>s. s = ctl w) (cm_reconcile E cm)"
    if "env_clusterManagerLister E (calls w) k = Inr cm" for cm
    by (rule emits_cm_reconcile [OF that])
  from perform_calls [OF _ this] show ?thesis
    unfolding cm_sync_def by (rule meta_mp) (auto intro!: emits_ret emits_fail)
qed

interpretation cm_outage: outage "cm_sync E"
  "\<lambda>w. ctl w = c0 \<and> cm_sane E c0 \<and> cm_works N E c0 n org wsn c \<and> cm_reaches N E (org_endpoint c0 org) wsn ws c" n
  "\<lambda>w. reported_in E (org_endpoint c0 org) ws c (calls w)" N
  for E c0 n org wsn c ws N
proof (unfold_locales, goal_cases)
  case (1 w k)
  then show ?case using emitsD [OF cm_loop.sync_emits, of w c0] by blast
next
  case (2 w k s)
  then show ?case by (simp add: cm_crash_free.no_panic [of w c0 E])
next
  case (3 w k)
  show ?case by (rule cm_sync_calls)
next
  case (4 w e)
  let ?w0 = "w\<lparr>calls := calls w @ [ListerGet ''clustermanagers'' n]\<rparr>"
  from 4 have wk: "cm_works N E c0 n org wsn c" by blast
  from cm_works_sync [OF this] obtain name where eq: "cm_sync E n w =
    andThen (applyWebhooks E name (org @ '':'' @ wsn)) (\<lambda>_. updateWorksapceStatus E org wsn c) ?w0" .
  from 4 have "fst (applyWebhooks E name (org @ '':'' @ wsn) ?w0) = Ok ()"
    by (intro applyWebhooks_works [where N = N and ?c0.0 = c0]) (simp_all add: cm_works_def)
  then obtain w1 where aw: "applyWebhooks E name (org @ '':'' @ wsn) ?w0 = (Ok (), w1)" by (metis prod.collapse)
  with applyWebhooks_ctl [of E name "org @ '':'' @ wsn" ?w0] applyWebhooks_calls [of E name "org @ '':'' @ wsn" ?w0] 4
  have "ctl w1 = c0" "N \<le> length (calls w1)" by auto
  with 4 wk have "fst (updateWorksapceStatus E org wsn c w1) = Ok ()"
    by (intro updateWorksapceStatus_recovers) (auto simp: cm_works_def cm_calls_work_def)
  with aw show ?case by (simp add: eq andThen_def tryP_def)
next
  case (5 w u)
  let ?w0 = "w\<lparr>calls := calls w @ [ListerGet ''clustermanagers'' n]\<rparr>"
  from 5 have "cm_works N E c0 n org wsn c" by blast
  from cm_works_sync [OF this] obtain name where eq: "cm_sync E n w =
    andThen (applyWebhooks E name (org @ '':'' @ wsn)) (\<lambda>_. updateWorksapceStatus E org wsn c) ?w0" .
  obtain r w1 where aw: "applyWebhooks E name (org @ '':'' @ wsn) ?w0 = (r, w1)" by fastforce
  with applyWebhooks_ctl [of E name "org @ '':'' @ wsn" ?w0] 5 have "ctl w1 = c0" by auto
  moreover from 5 aw have "r = Ok ()" by (cases r) (auto simp: eq andThen_def tryP_def fail_def)
  ultimately show ?case
    using 5 aw updateWorksapceStatus_accepted [of N E w1 org wsn ws c u] by (simp add: eq andThen_def tryP_def)
next
  case (6 w k)
  then obtain cs where "calls (snd (cm_sync E k w)) = calls w @ cs"
    using emitsD [OF cm_loop.sync_emits, of w c0] by blast
  with 6 show ?case by (simp add: reported_in_append)
qed

subsection \<open>Properties\<close>

definition demo_cm :: cluster_manager where
  "demo_cm = \<lparr>cmName = ''kcp-org-ws-cluster-manager'', cmAnnotations = [(workspaceAnnotation, ''org:ws'')],
     cmSpec = '''', cmOther = '''', cmConditions = [\<lparr>condType = ''Applied'', condStatus = ConditionFalse,
       condObservedGeneration = 0, condLastTransitionTime = 0, condReason = '''', condMessage = ''denied''\<rparr>]\<rparr>"

definition demo_cm_world :: "(call, cm_ctl) world" where
  "demo_cm_world = \<lparr>calls = [], ctl = ctrlState (NewClusterManagerController demo_kcp ''reg'' ''work'')\<rparr>"

lemma demo_old_conditions: "old_conditions (demo_ws_env [demo_applied]) (demo_workspace
    (ToConditionSlice base_env [demo_applied])) = Ok [demo_applied]"
  "old_conditions (demo_ws_env []) (demo_workspace (ToConditionSlice base_env [])) = Ok []"
  by code_simp+

definition demo_svc_env :: env where
  "demo_svc_env = base_env\<lparr>env_getConfigMap := \<lambda>_ _ _ _. Inr [(caBundleConfigmapKey, ''ca'')],
     env_getService := \<lambda>_ _ _ n. Inr (if n = ''cluster-manager-work-webhook'' then [] else [30443])\<rparr>"

text \<open>The degradations that are reported, the first one first.\<close>

definition degraded :: "condition list \<Rightarrow> condition list" where
  "degraded conditions = filter (\<lambda>c. condStatus c = ConditionTrue)
     (List.map_filter (FindStatusCondition conditions) [''HubRegistrationDegraded'', ''HubPlacementDegraded''])"

text \<open>C15: the condition to report, for every state of the cluster manager: none before the operator reports, then failed, degraded (registration before placement) or applied; its status is True in all three.\<close>

theorem isClusterManagerApplied_spec:
  "isClusterManagerApplied cm =
     (let conditions = cmConditions cm; report = (\<lambda>reason message.
        \<lparr>condType = clusterManagerApplied, condStatus = ConditionTrue, condObservedGeneration = 0,
         condLastTransitionTime = 0, condReason = reason, condMessage = message\<rparr>) in
      case FindStatusCondition conditions ''Applied'' of
        None \<Rightarrow> None
      | Some applied \<Rightarrow>
          Some (if condStatus applied \<noteq> ConditionTrue
                then report ''ClusterManagerApplyFailed'' (condMessage applied)
                else (case degraded conditions of
                    d # _ \<Rightarrow> report ''ClusterManagerApplyDegraded'' (condMessage d)
                  | [] \<Rightarrow> report ''ClusterManagerApplied'' ''ClusterManager is applied'')))"
  by (auto simp: isClusterManagerApplied_def Let_def IsStatusConditionTrue_find degraded_def
      List.map_filter_def zero_condition_def split: option.split)

text \<open>C33: a cluster manager the operator failed to apply is handled like an applied one: its webhooks are applied and the workspace is told ClusterManagerApplied=True.\<close>

theorem failed_cluster_manager_deployed:
  assumes "map_of (cmAnnotations cm) workspaceAnnotation = Some (org @ '':'' @ ws)"
    and "CHR '':'' \<notin> set org" "CHR '':'' \<notin> set ws"
    and "FindStatusCondition (cmConditions cm) ''Applied'' = Some a" "condStatus a \<noteq> ConditionTrue"
  shows "\<exists>c. condType c = clusterManagerApplied \<and> condStatus c = ConditionTrue \<and>
    condReason c = ''ClusterManagerApplyFailed'' \<and>
    cm_reconcile E cm = andThen (applyWebhooks E (cmName cm) (org @ '':'' @ ws))
      (\<lambda>_. updateWorksapceStatus E org ws c)"
proof -
  from assms(4,5) have "\<exists>c. isClusterManagerApplied cm = Some c \<and> condReason c = ''ClusterManagerApplyFailed''"
    by (simp add: isClusterManagerApplied_def Let_def IsStatusConditionTrue_find)
  then obtain c where c: "isClusterManagerApplied cm = Some c" "condReason c = ''ClusterManagerApplyFailed''"
    by blast
  with isClusterManagerApplied_Some [OF c(1)] cm_reconcile_annotated [OF assms(1-3), of E] show ?thesis
    by (intro exI [of _ c]) simp
qed

theorem failed_cluster_manager_deployed_witness:
  "\<exists>c. condStatus c = ConditionTrue \<and> cm_reconcile base_env demo_cm =
     andThen (applyWebhooks base_env ''kcp-org-ws-cluster-manager'' ''org:ws'')
       (\<lambda>_. updateWorksapceStatus base_env ''org'' ''ws'' c)"
  using failed_cluster_manager_deployed [of demo_cm "''org''" "''ws''" "hd (cmConditions demo_cm)" base_env]
  by (auto simp: demo_cm_def FindStatusCondition_def)

text \<open>An annotation without exactly one colon is an error and nothing is sent.\<close>

lemma cm_sync_malformed:
  assumes "env_clusterManagerLister E (calls w) n = Inr cm"
    and "map_of (cmAnnotations cm) workspaceAnnotation = Some wid" "count_list wid CHR '':'' \<noteq> 1"
  shows "\<exists>e. cm_sync E n w = (Err e, w\<lparr>calls := calls w @ [ListerGet ''clustermanagers'' n]\<rparr>)"
  using assms by (auto simp: cm_sync_def prog_simps cm_reconcile_def Let_def length_split_on)

lemma cm_sync_malformed_example:
  "\<exists>e. cm_sync (base_env\<lparr>env_clusterManagerLister := \<lambda>_ _.
       Inr (demo_cm\<lparr>cmAnnotations := [(workspaceAnnotation, ''root:org:ws'')]\<rparr>)\<rparr>) ''kcp-x''
     \<lparr>calls = [], ctl = ctrlState (NewClusterManagerController \<lparr>Host = ''kcp'', BearerToken = '''',
       CAData = '''', OtherSettings = ''''\<rparr> ''h'' ''h'')\<rparr> =
   (Err e, \<lparr>calls = [ListerGet ''clustermanagers'' ''kcp-x''], ctl = ctrlState (NewClusterManagerController
     \<lparr>Host = ''kcp'', BearerToken = '''', CAData = '''', OtherSettings = ''''\<rparr> ''h'' ''h'')\<rparr>)"
  using cm_sync_malformed [of "base_env\<lparr>env_clusterManagerLister := \<lambda>_ _.
      Inr (demo_cm\<lparr>cmAnnotations := [(workspaceAnnotation, ''root:org:ws'')]\<rparr>)\<rparr>"
    "\<lparr>calls = [], ctl = ctrlState (NewClusterManagerController \<lparr>Host = ''kcp'', BearerToken = '''',
       CAData = '''', OtherSettings = ''''\<rparr> ''h'' ''h'')\<rparr>" "''kcp-x''" _ "''root:org:ws''"]
  by simp

text \<open>C19: the status of a workspace that already carries the condition is read and not written.\<close>

theorem status_not_rewritten:
  assumes "env_newForConfig E (calls w) ((cmKcpRestConfig (ctl w))\<lparr>Host := org_endpoint (ctl w) org\<rparr>) = None"
    and "env_getWorkspace E (calls w @ [NewForConfig (org_endpoint (ctl w) org)]) (org_endpoint (ctl w) org) n = Inr ws"
    and "old_conditions E ws = Ok old" and "carries old c"
  shows "updateWorksapceStatus E org n c w = (Ok (), w\<lparr>calls := calls w @
    [NewForConfig (org_endpoint (ctl w) org), GetWorkspace (org_endpoint (ctl w) org) n]\<rparr>)"
proof -
  from assms(4) have "SetStatusCondition 0 old c = old" using carries_same by blast
  moreover from assms(4) have "\<not> (case FindStatusCondition old (condType c) of
      None \<Rightarrow> True | Some existing \<Rightarrow> condStatus existing \<noteq> condStatus c)"
    by (auto simp: carries_def split: option.splits)
  ultimately have "(setStatusCondition E old c :: (cm_ctl, condition list) go) = ret old" by (simp add: setStatusCondition_def)
  then show ?thesis
    by (simp add: updateWorksapceStatus_read [OF assms(1,2)] old_conditions_read [OF assms(3)] andThen_def
        tryP_def ret_def)
qed

theorem status_not_rewritten_witness:
  "updateWorksapceStatus (demo_ws_env [demo_applied]) ''org'' ''ws'' demo_applied demo_cm_world =
     (Ok (), demo_cm_world\<lparr>calls := [NewForConfig ''https://kcp:org'', GetWorkspace ''https://kcp:org'' ''ws'']\<rparr>)"
  by (subst status_not_rewritten [OF _ _ demo_old_conditions(1)])
    (simp_all add: demo_ws_env_def base_env_def demo_cm_world_def carries_def FindStatusCondition_def
      org_endpoint_def NewClusterManagerController_def demo_kcp_def)

text \<open>C16: otherwise it is written once, with the condition set and nothing else changed.\<close>

theorem status_written:
  assumes "env_newForConfig E (calls w) ((cmKcpRestConfig (ctl w))\<lparr>Host := org_endpoint (ctl w) org\<rparr>) = None"
    and "env_getWorkspace E (calls w @ [NewForConfig (org_endpoint (ctl w) org)]) (org_endpoint (ctl w) org) n = Inr ws"
    and "old_conditions E ws = Ok old" "map_of ws ''status'' \<noteq> Some JNull" and "\<not> carries old c"
  shows "\<exists>ws' cs. reports E c ws ws' \<and> calls (snd (updateWorksapceStatus E org n c w)) = calls w @ cs \<and>
    writes_of cs = [UpdateWorkspaceStatus (org_endpoint (ctl w) org) ws']"
  by (rule updateWorksapceStatus_writes [OF assms])

theorem status_written_witness:
  "\<exists>ws' cs. reports (demo_ws_env []) demo_applied (demo_workspace (ToConditionSlice base_env [])) ws' \<and>
     calls (snd (updateWorksapceStatus (demo_ws_env []) ''org'' ''ws'' demo_applied demo_cm_world)) = cs \<and>
     writes_of cs = [UpdateWorkspaceStatus ''https://kcp:org'' ws']"
proof -
  have h: "org_endpoint (ctl demo_cm_world) ''org'' = ''https://kcp:org''" "calls demo_cm_world = []"
    by (simp_all add: demo_cm_world_def org_endpoint_def NewClusterManagerController_def demo_kcp_def)
  have "\<not> carries [] demo_applied" by (simp add: carries_def FindStatusCondition_def)
  moreover have "map_of (demo_workspace (ToConditionSlice base_env [])) ''status'' \<noteq> Some JNull"
    by (simp add: demo_workspace_def)
  ultimately show ?thesis
    using status_written [OF _ _ demo_old_conditions(2), of demo_cm_world "''org''" "''ws''" demo_applied]
    by (auto simp: h demo_ws_env_def base_env_def)
qed

text \<open>A webhook service without ports makes the controller panic.\<close>

lemma webhooks_need_ports:
  assumes "env_getConfigMap E (calls w) Hub name caBundleConfigmapName = Inr data"
    and "map_of data caBundleConfigmapKey = Some ca"
    and "\<And>h. env_getService E h Hub name ''cluster-manager-registration-webhook'' = Inr regPorts"
    and "\<And>h. env_getService E h Hub name ''cluster-manager-work-webhook'' = Inr workPorts"
    and "\<And>h rc. env_newForConfig E h rc = None" and "regPorts = [] \<or> workPorts = []"
  shows "fst (applyWebhooks E name wid w) = Panic ''index out of range''"
  using assms by (auto simp: applyWebhooks_def getService_def newForConfig_def prog_simps Let_def)

lemma webhooks_need_ports_example:
  "fst (applyWebhooks demo_svc_env ''kcp-x'' ''org:ws'' demo_cm_world) = Panic ''index out of range''"
  by (rule webhooks_need_ports [of _ _ _ "[(caBundleConfigmapKey, ''ca'')]" "''ca''" "[30443]" "[]"])
    (simp_all add: demo_svc_env_def base_env_def)

definition demo_cm_worker :: "cm_ctl worker" where
  "demo_cm_worker = first_work (NewClusterManagerController demo_kcp ''reg'' ''work'') (cm_sync base_env) ''kcp-x''"

text \<open>In every run of the controller only cluster managers whose name starts with kcp- are looked up.\<close>

lemma cm_worker_filters:
  assumes "worker_run (NewClusterManagerController rc rh wh) (cm_sync E) wk"
    and "ListerGet k n \<in> set (calls (wworld wk))"
  shows "prefix ''kcp-'' n"
proof -
  have "emits (\<lambda>x. \<forall>k n. x = ListerGet k n \<longrightarrow> n = key) (\<lambda>_. True) (cm_sync E key)" for key
    unfolding cm_sync_def
    by (rule emits_tryP)
      (auto intro!: emits_perform emits_ret emits_fail emits_mono [OF cm_reconcile_no_lister])
  from worker_run_keyed [OF assms(1) this] assms(2) show ?thesis
    by (auto simp: NewClusterManagerController_def)
qed

lemma cm_worker_filters_example: "prefix ''kcp-'' ''kcp-x''"
proof (rule cm_worker_filters)
  show "worker_run (NewClusterManagerController demo_kcp ''reg'' ''work'') (cm_sync base_env) demo_cm_worker"
    unfolding demo_cm_worker_def by (rule first_work_run)
  show "ListerGet ''clustermanagers'' ''kcp-x'' \<in> set (calls (wworld demo_cm_worker))"
    by code_simp
qed

text \<open>C18: the status of a workspace is only written after all the calls that apply the webhooks of its cluster manager have been made and have succeeded.\<close>

theorem status_after_webhooks:
  assumes "calls (snd (cm_sync E n w)) = calls w @ cs" and "UpdateWorkspaceStatus host ws' \<in> set cs"
  shows "\<exists>cm wid w1. env_clusterManagerLister E (calls w) n = Inr cm \<and>
    map_of (cmAnnotations cm) workspaceAnnotation = Some wid \<and>
    applyWebhooks E (cmName cm) wid (w\<lparr>calls := calls w @ [ListerGet ''clustermanagers'' n]\<rparr>) = (Ok (), w1) \<and>
    (\<exists>pre post. calls w1 = calls w @ pre \<and> cs = pre @ post \<and> UpdateWorkspaceStatus host ws' \<in> set post)"
proof -
  let ?w0 = "w\<lparr>calls := calls w @ [ListerGet ''clustermanagers'' n]\<rparr>"
  have quiet: False if "calls (snd (cm_sync E n w)) = calls w @ ds" "UpdateWorkspaceStatus host ws' \<notin> set ds" for ds
    using that assms by simp
  obtain cm where cm: "env_clusterManagerLister E (calls w) n = Inr cm"
  proof (cases "env_clusterManagerLister E (calls w) n")
    case (Inl e)
    then have "calls (snd (cm_sync E n w)) = calls w @ [ListerGet ''clustermanagers'' n]"
      by (cases "IsNotFound e") (simp_all add: cm_sync_def prog_simps)
    from quiet [OF this] show thesis by simp
  qed (rule that)
  then have sync: "cm_sync E n w = cm_reconcile E cm ?w0" by (simp add: cm_sync_def prog_simps)
  have "cm_reconcile E cm ?w0 \<noteq> (r, ?w0)" for r
    using quiet [of "[ListerGet ''clustermanagers'' n]"] by (auto simp: sync)
  then obtain wid org wsn c where wid: "map_of (cmAnnotations cm) workspaceAnnotation = Some wid"
    and rec: "cm_reconcile E cm = andThen (applyWebhooks E (cmName cm) wid) (\<lambda>_. updateWorksapceStatus E org wsn c)"
    using cm_reconcile_cases [of E cm] by metis
  obtain r w1 where aw: "applyWebhooks E (cmName cm) wid ?w0 = (r, w1)" by fastforce
  with emitsD [OF no_status_update, of "\<lambda>_. True" ?w0 E "cmName cm" wid] obtain ds where
    ds: "calls w1 = calls ?w0 @ ds" "UpdateWorkspaceStatus host ws' \<notin> set ds" by (metis snd_conv)
  have r: "r = Ok ()"
    using quiet [of "ListerGet ''clustermanagers'' n # ds"] aw ds
    by (cases r) (simp_all add: sync rec andThen_def tryP_def fail_def)
  obtain post where "calls (snd (updateWorksapceStatus E org wsn c w1)) = calls w1 @ post"
    by (rule updateWorksapceStatus_appends)
  with assms(1) aw ds(1) r have "cs = ListerGet ''clustermanagers'' n # ds @ post"
    by (simp add: sync rec andThen_def tryP_def)
  with cm wid aw ds assms(2) r show ?thesis
    by (intro exI [of _ cm] exI [of _ wid] exI [of _ w1])
      (auto intro!: exI [of _ "ListerGet ''clustermanagers'' n # ds"] exI [of _ post])
qed

definition demo_report :: condition where
  "demo_report = zero_condition\<lparr>condType := clusterManagerApplied, condReason := ''ClusterManagerApplyFailed'',
     condStatus := ConditionTrue, condMessage := ''denied''\<rparr>"

text \<open>A cluster manager controller for which every call succeeds.\<close>

definition demo_webhook_env :: env where
  "demo_webhook_env = (demo_ws_env [])\<lparr>env_getConfigMap := \<lambda>_ _ _ _. Inr [(caBundleConfigmapKey, ''ca'')],
     env_getService := \<lambda>_ _ _ _. Inr [30443], env_decode := \<lambda>buf. Some (demo_object ''m''),
     env_clusterManagerLister := \<lambda>_ _. Inr demo_cm, env_parseTime := \<lambda>_. Some 0\<rparr>"

definition demo_cm_ctl :: cm_ctl where
  "demo_cm_ctl = ctrlState (NewClusterManagerController demo_kcp ''reg'' ''work'')"

lemma demo_webhook_conditions:
  "old_conditions demo_webhook_env (demo_workspace (ToConditionSlice base_env [])) = Ok []"
  by (simp add: demo_workspace_def old_conditions_def NestedSlice_def ToConditionSlice_def)

lemma demo_webhook_sane: "cm_sane demo_webhook_env c"
proof -
  have "env_getWorkspace demo_webhook_env h host n = Inr (demo_workspace (ToConditionSlice base_env []))" for h host n
    by (simp add: demo_webhook_env_def demo_ws_env_def)
  with demo_webhook_conditions show ?thesis
    by (simp add: cm_sane_def) (simp add: list_all_iff decodes_def demo_webhook_env_def demo_object_def)
qed

lemma demo_webhook_works: "cm_works N demo_webhook_env c n ''org'' ''ws'' demo_report"
proof -
  have "isClusterManagerApplied demo_cm = Some demo_report"
    by (simp add: isClusterManagerApplied_def demo_cm_def demo_report_def IsStatusConditionTrue_find FindStatusCondition_def)
  then show ?thesis
    by (simp add: cm_works_def cm_calls_work_def demo_webhook_env_def demo_ws_env_def base_env_def apply_works_def)
      (simp add: demo_cm_def)
qed

lemma demo_not_carried: "\<not> carries [] demo_report"
  by (simp add: carries_def FindStatusCondition_def)

lemma demo_webhook_reports:
  "\<exists>ws'. UpdateWorkspaceStatus ''https://kcp:org'' ws' \<in> set (calls (snd (cm_sync demo_webhook_env ''kcp-x'' demo_cm_world)))"
proof -
  have "\<exists>ws'. reports demo_webhook_env demo_report (demo_workspace (ToConditionSlice base_env [])) ws' \<and>
      UpdateWorkspaceStatus (org_endpoint demo_cm_ctl ''org'') ws' \<in>
        set (calls (snd (cm_sync demo_webhook_env ''kcp-x'' demo_cm_world)))"
    by (rule cm_sync_reports [OF demo_webhook_works demo_webhook_sane _ _ demo_webhook_conditions _ demo_not_carried])
      (simp_all add: demo_cm_world_def demo_cm_ctl_def demo_webhook_env_def demo_ws_env_def demo_workspace_def)
  then show ?thesis
    by (auto simp: org_endpoint_def demo_cm_ctl_def NewClusterManagerController_def demo_kcp_def)
qed

theorem status_after_webhooks_witness:
  "\<exists>w1. applyWebhooks demo_webhook_env (cmName demo_cm) ''org:ws''
     (demo_cm_world\<lparr>calls := [ListerGet ''clustermanagers'' ''kcp-x'']\<rparr>) = (Ok (), w1)"
proof -
  from demo_webhook_reports obtain ws' where
    u: "UpdateWorkspaceStatus ''https://kcp:org'' ws' \<in> set (calls (snd (cm_sync demo_webhook_env ''kcp-x'' demo_cm_world)))"
    by blast
  have "calls demo_cm_world = []" by (simp add: demo_cm_world_def)
  with status_after_webhooks [of demo_webhook_env "''kcp-x''" demo_cm_world, OF _ u]
  show ?thesis by (auto simp: demo_webhook_env_def demo_cm_def)
qed

text \<open>A cluster manager at any place of the work queue has its state reported in the status of its workspace when its turn is over, with nothing else of the workspace changed, provided the calls for it succeed and the status does not carry the condition yet.\<close>

lemma cm_reports_in_turn:
  assumes "worker_run (NewClusterManagerController rc rh wh) (cm_sync E) wk"
    and "cm_sane E (ctrlState (NewClusterManagerController rc rh wh))"
    and "k < length (wqueue wk)"
    and "cm_works 0 E (ctrlState (NewClusterManagerController rc rh wh)) (wqueue wk ! k) org wsn c"
    and "\<And>h. env_getWorkspace E h (Host rc @ '':'' @ org) wsn = Inr ws"
    and "old_conditions E ws = Ok old" "map_of ws ''status'' \<noteq> Some JNull" "\<not> carries old c"
  shows "\<exists>ws'. reports E c ws ws' \<and> UpdateWorkspaceStatus (Host rc @ '':'' @ org) ws' \<in>
    set (calls (wworld (work_items (cm_sync E) (Suc k) wk)))"
proof -
  let ?c = "ctrlState (NewClusterManagerController rc rh wh)" and ?n = "wqueue wk ! k"
  let ?wk = "work_items (cm_sync E) k wk"
  have h: "org_endpoint ?c org = Host rc @ '':'' @ org" by (simp add: org_endpoint_def NewClusterManagerController_def)
  have "worker_run (NewClusterManagerController rc rh wh) (cm_sync E) ?wk"
    by (rule cm_crash_free.work_items_run [OF assms(1)]) (use assms(2) in simp)
  then have "ctl (wworld ?wk) = ?c" using cm_loop.worker_sound by blast
  from cm_sync_reports [OF assms(4,2) this assms(5) [folded h] assms(6-8)] obtain ws' where
    "reports E c ws ws'" "UpdateWorkspaceStatus (Host rc @ '':'' @ org) ws' \<in> set (calls (snd (cm_sync E ?n (wworld ?wk))))"
    by (auto simp: h)
  moreover from work_items_head [OF assms(3)] obtain rest where "wqueue ?wk = ?n # rest" by blast
  ultimately show ?thesis by (auto simp: processNextWorkItem_world)
qed


text \<open>The workspace cannot be read during the first six calls.\<close>

definition demo_cm_outage :: env where
  "demo_cm_outage = demo_webhook_env\<lparr>env_getWorkspace := \<lambda>h _ _. if length h < 6 then Inl down else Inr (demo_workspace [])\<rparr>"

lemma demo_cm_outage_conditions: "old_conditions demo_cm_outage (demo_workspace []) = Ok []"
  by (simp add: demo_workspace_def old_conditions_def NestedSlice_def)

lemma demo_cm_outage_sane: "cm_sane demo_cm_outage c"
proof -
  have "env_getWorkspace demo_cm_outage h host n = Inr ws \<Longrightarrow> ws = demo_workspace []" for h host n ws
    by (simp add: demo_cm_outage_def split: if_splits)
  with demo_cm_outage_conditions have "old_conditions demo_cm_outage ws \<noteq> Panic s"
    if "env_getWorkspace demo_cm_outage h host n = Inr ws" for h host n ws s using that by fastforce
  then show ?thesis
    by (simp add: cm_sane_def) (simp add: list_all_iff decodes_def demo_cm_outage_def demo_webhook_env_def demo_object_def)
qed

lemma demo_cm_outage_works:
  "cm_works 6 demo_cm_outage c n ''org'' ''ws'' demo_report" "cm_reaches 6 demo_cm_outage host ''ws'' (demo_workspace []) demo_report"
proof -
  show "cm_works 6 demo_cm_outage c n ''org'' ''ws'' demo_report"
    using demo_webhook_works [of 6 c n] by (simp add: cm_works_def cm_calls_work_def demo_cm_outage_def apply_works_def)
  have "\<not> IsNotFound down" by (simp add: down_def)
  then show "cm_reaches 6 demo_cm_outage host ''ws'' (demo_workspace []) demo_report"
    using demo_not_carried demo_cm_outage_conditions
    by (auto simp: cm_reaches_def) (auto simp: demo_cm_outage_def demo_webhook_env_def demo_ws_env_def base_env_def demo_workspace_def)
qed


end
