(* ===== verification/Manager.thy ===== *)
theory Manager
  imports OrgWorkspace ClusterManagerCtl
begin

section \<open>The controller manager (pkg/controllers/manager.go, pkg/cmd, pkg/version, cmd)\<close>

text \<open>
  The options and their flags, \<open>Run\<close>, which builds the clients and starts the two top-level
  controllers, and the command line around it. Parsing arguments and building a client
  configuration from a kubeconfig file are library code: a parsed command line is a list of
  flag settings, and \<open>buildConfig\<close> is a parameter.
\<close>

record manager_options =
  KCPKubeConfigFile :: string
  KCPSigningCertFile :: string
  KCPSigningKeyFile :: string
  RegistrationWebhookHost :: string
  WorkWebhookHost :: string

definition NewManagerOptions :: manager_options where
  "NewManagerOptions = \<lparr>KCPKubeConfigFile = '''', KCPSigningCertFile = '''',
     KCPSigningKeyFile = '''', RegistrationWebhookHost = '''', WorkWebhookHost = ''''\<rparr>"

text \<open>\<^verbatim>\<open>flags.StringVar(&o.Field, name, o.Field, usage)\<close>: the field is the flag's variable.\<close>

record string_flag =
  flagName :: string
  flagGet :: "manager_options \<Rightarrow> string"
  flagSet :: "string \<Rightarrow> manager_options \<Rightarrow> manager_options"
  flagUsage :: string

definition AddFlags :: "string_flag list" where
  "AddFlags =
    [\<lparr>flagName = ''kcp-kubeconfig'', flagGet = KCPKubeConfigFile,
      flagSet = (\<lambda>v. KCPKubeConfigFile_update (\<lambda>_. v)),
      flagUsage = ''Location of kcp kubeconfig file to connect to kcp root cluster.''\<rparr>,
     \<lparr>flagName = ''kcp-signing-cert-file'', flagGet = KCPSigningCertFile,
      flagSet = (\<lambda>v. KCPSigningCertFile_update (\<lambda>_. v)),
      flagUsage = ''Location of CA certificate file used to issue certificates in kcp.''\<rparr>,
     \<lparr>flagName = ''kcp-signing-key-file'', flagGet = KCPSigningKeyFile,
      flagSet = (\<lambda>v. KCPSigningKeyFile_update (\<lambda>_. v)),
      flagUsage = ''Location of private key file used to sign certificates in kcp.''\<rparr>,
     \<lparr>flagName = ''registration-webhook-host'', flagGet = RegistrationWebhookHost,
      flagSet = (\<lambda>v. RegistrationWebhookHost_update (\<lambda>_. v)),
      flagUsage = ''Host of registration webhook.''\<rparr>,
     \<lparr>flagName = ''work-webhook-host'', flagGet = WorkWebhookHost,
      flagSet = (\<lambda>v. WorkWebhookHost_update (\<lambda>_. v)),
      flagUsage = ''Host of work webhook host.''\<rparr>]"

text \<open>The flags of a command line are set in order; an unknown flag is an error.\<close>

definition set_flag :: "string \<times> string \<Rightarrow> manager_options option \<Rightarrow> manager_options option" where
  "set_flag a r = (case r of None \<Rightarrow> None
     | Some opts \<Rightarrow> (case find (\<lambda>f. flagName f = fst a) AddFlags of
         None \<Rightarrow> None | Some f \<Rightarrow> Some (flagSet f (snd a) opts)))"

definition parse_flags :: "(string \<times> string) list \<Rightarrow> manager_options option" where
  "parse_flags args = fold set_flag args (Some NewManagerOptions)"

subsection \<open>Run\<close>

definition Run ::
  "env \<Rightarrow> (string \<Rightarrow> go_error + rest_config) \<Rightarrow> rest_config \<Rightarrow> manager_options \<Rightarrow> (unit, unit) go" where
  "Run E buildConfig hubKubeConfig opts =
     andThen (ofSum (buildConfig (KCPKubeConfigFile opts))) (\<lambda>kcpKubeConfig.
     andThen (newForConfig E hubKubeConfig) (\<lambda>_.
     andThen (newForConfig E kcpKubeConfig) (\<lambda>_.
     andThen (newForConfig E hubKubeConfig) (\<lambda>_.
     let workspaceInformer = WorkspaceInformer (Host kcpKubeConfig) None in
     andThen (emit (GoInformer OperatorInformer)) (\<lambda>_.
     andThen (emit (GoInformer workspaceInformer)) (\<lambda>_.
     andThen (emit (GoController (ClusterManagerController kcpKubeConfig
       (RegistrationWebhookHost opts) (WorkWebhookHost opts)))) (\<lambda>_.
     emit (GoController (OrgWorkspaceController (KCPSigningCertFile opts) (KCPSigningKeyFile opts)
       kcpKubeConfig workspaceInformer)))))))))"

text \<open>The interactions of a successful start, and of every start.\<close>

definition run_calls :: "rest_config \<Rightarrow> rest_config \<Rightarrow> manager_options \<Rightarrow> call list" where
  "run_calls hubKubeConfig kcpKubeConfig opts =
     [NewForConfig (Host hubKubeConfig), NewForConfig (Host kcpKubeConfig), NewForConfig (Host hubKubeConfig),
      GoInformer OperatorInformer, GoInformer (WorkspaceInformer (Host kcpKubeConfig) None),
      GoController (ClusterManagerController kcpKubeConfig (RegistrationWebhookHost opts) (WorkWebhookHost opts)),
      GoController (OrgWorkspaceController (KCPSigningCertFile opts) (KCPSigningKeyFile opts) kcpKubeConfig
        (WorkspaceInformer (Host kcpKubeConfig) None))]"

lemma Run_calls:
  "\<exists>n r. Run E buildConfig hub opts w = (r, w\<lparr>calls := calls w @
     (case buildConfig (KCPKubeConfigFile opts) of Inl _ \<Rightarrow> [] | Inr kcp \<Rightarrow> take n (run_calls hub kcp opts))\<rparr>)
     \<and> (r = Ok () \<longrightarrow> n = 7) \<and> (n = 7 \<or> n \<le> 3) \<and> (\<forall>s. r \<noteq> Panic s)"
proof (cases "buildConfig (KCPKubeConfigFile opts)")
  case (Inl e)
  then show ?thesis
    by (intro exI [of _ 0] exI [of _ "Err e"]) (simp add: Run_def prog_simps)
next
  case (Inr kcp)
  note defs = Run_def newForConfig_def prog_simps Inr run_calls_def Let_def
  let ?h0 = "calls w" let ?h1 = "?h0 @ [NewForConfig (Host hub)]"
  let ?h2 = "?h1 @ [NewForConfig (Host kcp)]"
  consider (e1) e where "env_newForConfig E ?h0 hub = Some e"
    | (e2) e where "env_newForConfig E ?h0 hub = None" "env_newForConfig E ?h1 kcp = Some e"
    | (e3) e where "env_newForConfig E ?h0 hub = None" "env_newForConfig E ?h1 kcp = None"
        "env_newForConfig E ?h2 hub = Some e"
    | (ok) "env_newForConfig E ?h0 hub = None" "env_newForConfig E ?h1 kcp = None"
        "env_newForConfig E ?h2 hub = None"
    by fastforce
  then show ?thesis
  proof cases
    case e1
    then show ?thesis by (intro exI [of _ 1] exI [of _ "Err e"]) (simp add: defs)
  next
    case e2
    then show ?thesis by (intro exI [of _ 2] exI [of _ "Err e"]) (simp add: defs)
  next
    case e3
    then show ?thesis by (intro exI [of _ 3] exI [of _ "Err e"]) (simp add: defs)
  next
    case ok
    then show ?thesis by (intro exI [of _ 7] exI [of _ "Ok ()"]) (simp add: defs)
  qed
qed

lemma Run_controllers:
  assumes "GoController cid \<in> set (calls (snd (Run E buildConfig hub opts \<lparr>calls = [], ctl = ()\<rparr>)))"
  obtains kcp where "buildConfig (KCPKubeConfigFile opts) = Inr kcp"
    "cid = ClusterManagerController kcp (RegistrationWebhookHost opts) (WorkWebhookHost opts) \<or>
     cid = OrgWorkspaceController (KCPSigningCertFile opts) (KCPSigningKeyFile opts) kcp
       (WorkspaceInformer (Host kcp) None)"
proof (cases "buildConfig (KCPKubeConfigFile opts)")
  case (Inl e)
  with assms show thesis by (simp add: Run_def prog_simps)
next
  case (Inr kcp)
  with Run_calls [of E buildConfig hub opts "\<lparr>calls = [], ctl = ()\<rparr>"] assms
  obtain n where "GoController cid \<in> set (take n (run_calls hub kcp opts))" by auto
  then have "GoController cid \<in> set (run_calls hub kcp opts)" by (auto dest: in_set_takeD)
  with Inr that show thesis by (auto simp: run_calls_def)
qed

subsection \<open>The command line\<close>

record version_info =
  Major :: string
  Minor :: string
  GitCommit :: string
  GitVersion :: string
  BuildDate :: string

text \<open>The variables the linker sets: commitFromGit, versionFromGit, majorFromGit, minorFromGit, buildDate.\<close>

record build_vars =
  commitFromGit :: string
  versionFromGit :: string
  majorFromGit :: string
  minorFromGit :: string
  buildDate :: string

definition Get :: "build_vars \<Rightarrow> version_info" where
  "Get v = \<lparr>Major = majorFromGit v, Minor = minorFromGit v, GitCommit = commitFromGit v,
     GitVersion = versionFromGit v, BuildDate = buildDate v\<rparr>"

text \<open>\<^verbatim>\<open>version.Info.String\<close>\<close>

definition Info_String :: "version_info \<Rightarrow> string" where
  "Info_String info = GitVersion info"

text \<open>
  \<^verbatim>\<open>k8s.io/component-base/metrics\<close>: a gauge vector is created lazily, when it is registered. Before
  that, \<open>WithLabelValues\<close> answers a gauge whose \<open>Set\<close> does nothing; a vector disabled by a flag is
  never created. The values are the children of the vector by their label values.
\<close>

record gauge_vec =
  vecName :: string
  vecLabels :: "string list"
  vecCreated :: bool
  vecValues :: "(string list \<times> int) list"

definition NewGaugeVec :: "string \<Rightarrow> string list \<Rightarrow> gauge_vec" where
  "NewGaugeVec name labels = \<lparr>vecName = name, vecLabels = labels, vecCreated = False, vecValues = []\<rparr>"

text \<open>\<^verbatim>\<open>v.WithLabelValues(lvs...).Set(x)\<close>\<close>

definition WithLabelValues_Set :: "string list \<Rightarrow> int \<Rightarrow> gauge_vec \<Rightarrow> gauge_vec" where
  "WithLabelValues_Set lvs x v = (if \<not> vecCreated v then v else v\<lparr>vecValues := AList.update lvs x (vecValues v)\<rparr>)"

definition Create :: "string set \<Rightarrow> gauge_vec \<Rightarrow> gauge_vec" where
  "Create disabled v = (if vecName v \<in> disabled \<or> vecCreated v then v else v\<lparr>vecCreated := True, vecValues := []\<rparr>)"

definition MustRegister :: "string set \<Rightarrow> gauge_vec \<Rightarrow> gauge_vec list \<Rightarrow> gauge_vec list outcome" where
  "MustRegister disabled v registry = (let v' = Create disabled v in
     if \<not> vecCreated v' then Ok registry
     else if vecName v' \<in> vecName ` set registry then Panic ''duplicate metrics collector registration attempted''
     else Ok (registry @ [v']))"

text \<open>What a scrape of the registry shows: name, labels and value of every child.\<close>

definition samples :: "gauge_vec list \<Rightarrow> (string \<times> (string \<times> string) list \<times> int) list" where
  "samples registry = concat (map (\<lambda>v. map (\<lambda>(lvs, x). (vecName v, zip (vecLabels v) lvs, x)) (vecValues v)) registry)"

abbreviation "build_info_name \<equiv> ''kcp_integration_controller_build_info''"

definition build_info_labels :: "string list" where
  "build_info_labels = [''major'', ''minor'', ''gitCommit'', ''gitVersion'']"

definition build_info_values :: "build_vars \<Rightarrow> string list" where
  "build_info_values v = [majorFromGit v, minorFromGit v, commitFromGit v, versionFromGit v]"

text \<open>The \<open>init\<close> function of \<^verbatim>\<open>version.go\<close>, on the global registry.\<close>

definition version_init :: "string set \<Rightarrow> build_vars \<Rightarrow> gauge_vec list \<Rightarrow> gauge_vec list outcome" where
  "version_init disabled v registry =
     (let buildInfo = NewGaugeVec build_info_name build_info_labels;
          buildInfo = WithLabelValues_Set (build_info_values v) 1 buildInfo in
      MustRegister disabled buildInfo registry)"

record sub_command =
  subUse :: string
  subShort :: string
  subStringFlags :: "string_flag list"
  subBoolFlags :: "(string \<times> bool) list"

record command =
  cmdUse :: string
  cmdShort :: string
  cmdVersion :: string
  cmdCommands :: "sub_command list"

definition NewManager :: sub_command where
  "NewManager = \<lparr>subUse = ''controller'', subShort = ''Start the kcp integration controller'',
     subStringFlags = AddFlags, subBoolFlags = [(''disable-leader-election'', False)]\<rparr>"

definition newCommand :: "build_vars \<Rightarrow> command" where
  "newCommand v = \<lparr>cmdUse = ''kcp-integration-controller'', cmdShort = ''kcp ocm integration controller'',
     cmdVersion = (let s = Info_String (Get v) in if length s = 0 then ''<unknown>'' else s),
     cmdCommands = [NewManager]\<rparr>"

subsection \<open>The main function\<close>

text \<open>
  What the process does outside the controllers, in order. Cobra's \<open>Execute\<close> is a parameter: it
  either runs the root command's own function, or returns an error or none (after running a
  subcommand, or when the arguments do not parse). \<^verbatim>\<open>os.Exit\<close> ends the process without running
  deferred calls.
\<close>

datatype process_event =
    SeedRand
  | SetNormalizeFunc
  | AddGoFlagSet
  | InitLogs
  | FlushLogs
  | Help string
  | Stderr go_error
  | OsExit int

datatype executed = RootRun | Returned "go_error option"

text \<open>The \<open>Run\<close> function of the root command.\<close>

definition root_run :: "command \<Rightarrow> process_event list" where
  "root_run command = [Help (cmdUse command), OsExit 1]"

fun exits :: "process_event \<Rightarrow> bool" where
  "exits (OsExit _) = True"
| "exits _ = False"

definition defer_call :: "process_event \<Rightarrow> process_event list \<Rightarrow> process_event list" where
  "defer_call deferred body = (if list_ex exits body then body else body @ [deferred])"

definition main :: "(command \<Rightarrow> executed) \<Rightarrow> build_vars \<Rightarrow> process_event list" where
  "main execute v =
     [SeedRand, SetNormalizeFunc, AddGoFlagSet, InitLogs] @
     defer_call FlushLogs
       (let command = newCommand v in
        case execute command of
          RootRun \<Rightarrow> root_run command
        | Returned None \<Rightarrow> []
        | Returned (Some err) \<Rightarrow> [Stderr err, OsExit 1])"

text \<open>The exit status: that of the first exit, 0 if main returns.\<close>

fun exit_status :: "process_event list \<Rightarrow> int" where
  "exit_status [] = 0"
| "exit_status (OsExit n # es) = n"
| "exit_status (_ # es) = exit_status es"

text \<open>The process succeeds exactly if \<open>Execute\<close> returns no error, and only then are the logs flushed.\<close>

lemma main_status:
  "exit_status (main execute v) = (if execute (newCommand v) = Returned None then 0 else 1)"
  "FlushLogs \<in> set (main execute v) \<longleftrightarrow> exit_status (main execute v) = 0"
  by (simp_all add: main_def defer_call_def root_run_def Let_def split: executed.split option.split)

subsection \<open>Flags\<close>

lemma set_flag_get:
  assumes "f \<in> set AddFlags" "g \<in> set AddFlags"
  shows "flagGet g (flagSet f v opts) = (if flagName g = flagName f then v else flagGet g opts)"
  using assms by (auto simp: AddFlags_def)

lemma find_flag_Some: "find (\<lambda>f. flagName f = n) AddFlags = Some f \<Longrightarrow> f \<in> set AddFlags \<and> flagName f = n"
  by (auto simp: find_Some_iff)

lemma fold_set_flag_None [simp]: "fold set_flag args None = None"
  by (induction args) (auto simp: set_flag_def)

lemma parse_flags_snoc:
  "parse_flags (args @ [a]) = set_flag a (parse_flags args)"
  by (simp add: parse_flags_def)

text \<open>The last setting of a flag decides its field; a flag not set keeps the empty default.\<close>

lemma parse_flags_get:
  assumes "parse_flags args = Some opts" "g \<in> set AddFlags"
  shows "flagGet g opts = (case map_of (rev args) (flagName g) of None \<Rightarrow> '''' | Some v \<Rightarrow> v)"
  using assms(1)
proof (induction args arbitrary: opts rule: rev_induct)
  case Nil
  with assms(2) show ?case by (auto simp: parse_flags_def NewManagerOptions_def AddFlags_def)
next
  case (snoc a args)
  then obtain o1 f where o1: "parse_flags args = Some o1" "opts = flagSet f (snd a) o1"
    and f: "f \<in> set AddFlags" "flagName f = fst a"
    by (auto simp: parse_flags_snoc set_flag_def dest!: find_flag_Some split: option.splits)
  have "flagGet g opts = (if flagName g = fst a then snd a else flagGet g o1)"
    using set_flag_get [OF f(1) assms(2)] o1(2) f(2) by simp
  with snoc.IH [OF o1(1)] show ?case by (cases a) auto
qed

lemma parse_flags_known:
  "(\<exists>opts. parse_flags args = Some opts) \<longleftrightarrow> (\<forall>a \<in> set args. fst a \<in> flagName ` set AddFlags)"
proof (induction args rule: rev_induct)
  case Nil
  then show ?case by (simp add: parse_flags_def)
next
  case (snoc a args)
  have "find (\<lambda>f. flagName f = fst a) AddFlags = None \<longleftrightarrow> fst a \<notin> flagName ` set AddFlags"
    by (auto simp: find_None_iff image_iff)
  with snoc.IH show ?case
    by (cases "parse_flags args") (auto simp: parse_flags_snoc set_flag_def split: option.splits)
qed

subsection \<open>Properties\<close>

definition demo_options :: manager_options where
  "demo_options = NewManagerOptions\<lparr>KCPSigningCertFile := ''tls.crt'', KCPSigningKeyFile := ''tls.key''\<rparr>"

text \<open>C34: the build information metric never has a sample: the init function sets it before registering it, when setting does nothing, so a scrape of the registry shows what it showed before; registering first would show the value 1 under the four labels.\<close>

theorem build_info_not_exposed:
  assumes "build_info_name \<notin> vecName ` set registry"
  shows "(\<exists>registry'. version_init disabled v registry = Ok registry' \<and> samples registry' = samples registry) \<and>
    samples (registry @ [WithLabelValues_Set (build_info_values v) 1 (Create {} (NewGaugeVec build_info_name build_info_labels))]) =
      samples registry @ [(build_info_name, [(''major'', majorFromGit v), (''minor'', minorFromGit v),
        (''gitCommit'', commitFromGit v), (''gitVersion'', versionFromGit v)], 1)]"
  using assms
  by (auto simp: version_init_def MustRegister_def Create_def NewGaugeVec_def WithLabelValues_Set_def samples_def
      build_info_labels_def build_info_values_def Let_def)

theorem build_info_not_exposed_witness:
  "\<exists>registry'. version_init {} \<lparr>commitFromGit = ''c0ffee'', versionFromGit = ''v0.1.0'', majorFromGit = ''0'',
     minorFromGit = ''1'', buildDate = []\<rparr> [] = Ok registry' \<and> samples registry' = []"
  using build_info_not_exposed [of "[]" "{}" "\<lparr>commitFromGit = ''c0ffee'', versionFromGit = ''v0.1.0'', majorFromGit = ''0'',
     minorFromGit = ''1'', buildDate = []\<rparr>"] by (simp add: samples_def)

text \<open>A successful start has built the three clients, started both informer factories and then the two top-level controllers, with the options as given.\<close>

lemma Run_starts:
  assumes "fst (Run E buildConfig hub opts w) = Ok ()" "buildConfig (KCPKubeConfigFile opts) = Inr kcp"
  shows "calls (snd (Run E buildConfig hub opts w)) = calls w @ run_calls hub kcp opts"
proof -
  from Run_calls [of E buildConfig hub opts w] assms obtain n where
    "calls (snd (Run E buildConfig hub opts w)) = calls w @ take n (run_calls hub kcp opts)" "n = 7" by auto
  then show ?thesis by (simp add: run_calls_def)
qed

lemma Run_starts_example:
  "calls (snd (Run base_env (\<lambda>_. Inr demo_kcp) demo_kcp demo_options \<lparr>calls = [], ctl = ()\<rparr>)) =
     run_calls demo_kcp demo_kcp demo_options"
  using Run_starts [of base_env "\<lambda>_. Inr demo_kcp" demo_kcp demo_options "\<lparr>calls = [], ctl = ()\<rparr>" demo_kcp]
  by (simp add: Run_def newForConfig_def prog_simps base_env_def Let_def)

end
