(* ===== verification/CA.thy ===== *)
theory CA
  imports Api
begin

section \<open>The certificate authority (csr/ca.go)\<close>

text \<open>
  \<open>CertificateAuthority.Sign\<close>, the interface \<open>SigningPolicy\<close> as a locale with the laws a
  policy must obey, and \<open>PermissiveSigningPolicy.apply\<close>, which is shown to obey them.
  Durations are 64-bit words read as signed nanoseconds; adding one to a time is exact.
  x509 parsing, signature checking and certificate creation are parameters of the environment.
\<close>

definition serialNumberLimit :: int where
  "serialNumberLimit = push_bit 128 1"

record certificate_authority =
  RawCert :: bytes
  RawKey :: bytes
  Certificate :: ca_cert
  PrivateKey :: private_key

subsection \<open>Sign\<close>

definition cert_template :: "int \<Rightarrow> cert_request \<Rightarrow> certificate" where
  "cert_template serialNumber cr =
     \<lparr>SerialNumber = serialNumber,
      Subject = crSubject cr,
      DNSNames = crDNSNames cr,
      IPAddresses = crIPAddresses cr,
      EmailAddresses = crEmailAddresses cr,
      URIs = crURIs cr,
      PublicKeyAlgorithm = crPublicKeyAlgorithm cr,
      PublicKey = crPublicKey cr,
      Extensions = crExtensions cr,
      ExtraExtensions = crExtraExtensions cr,
      KeyUsage = 0, ExtKeyUsage = [], BasicConstraintsValid = False, IsCA = False,
      NotBefore = 0, NotAfter = 0\<rparr>"

text \<open>The policy is passed as its method \<open>apply\<close>: it gets the template, returns it changed, or errs.\<close>

type_synonym 's policy = "certificate \<Rightarrow> time \<Rightarrow> ('s, certificate) go"

definition Sign :: "env \<Rightarrow> certificate_authority \<Rightarrow> bytes \<Rightarrow> 's policy \<Rightarrow> ('s, bytes) go" where
  "Sign E ca crDER apply_policy = (case env_parseCertificateRequest E crDER of
      Inl err \<Rightarrow> fail (Errorf ''unable to parse certificate request: %v'' [AErr err])
    | Inr cr \<Rightarrow> (case env_checkSignature E cr of
        Some err \<Rightarrow> fail (Errorf ''unable to verify certificate request signature: %v'' [AErr err])
      | None \<Rightarrow>
        tryP (perform (RandomInt serialNumberLimit) (\<lambda>h. env_randomInt E h serialNumberLimit))
          (\<lambda>err. fail (Errorf ''unable to generate a serial number for %s: %v''
             [AStr (CommonName (crSubject cr)), AErr err]))
          (\<lambda>serialNumber.
            andThen (apply_policy (cert_template serialNumber cr) (caNotAfter (Certificate ca))) (\<lambda>tmpl.
            tryP (perform (CreateCertificate tmpl (Certificate ca))
                   (\<lambda>h. env_createCertificate E h tmpl (Certificate ca) (crPublicKey cr) (PrivateKey ca)))
              (\<lambda>err. fail (Errorf ''failed to sign certificate: %v'' [AErr err]))
              ret))))"

subsection \<open>The interface SigningPolicy\<close>

text \<open>
  What \<open>Sign\<close> needs of a policy: an accepted template is no CA certificate, does not outlive
  the signer, starts before the signer's end, carries no extension of the request, and still
  names the requested subject, names and key. The policy itself only reads the clock.
\<close>

definition keeps_identity :: "certificate \<Rightarrow> certificate \<Rightarrow> bool" where
  "keeps_identity tmpl t \<longleftrightarrow> SerialNumber t = SerialNumber tmpl \<and> Subject t = Subject tmpl
     \<and> DNSNames t = DNSNames tmpl \<and> IPAddresses t = IPAddresses tmpl
     \<and> EmailAddresses t = EmailAddresses tmpl \<and> URIs t = URIs tmpl
     \<and> PublicKeyAlgorithm t = PublicKeyAlgorithm tmpl \<and> PublicKey t = PublicKey tmpl"

definition bounded_by :: "time \<Rightarrow> certificate \<Rightarrow> bool" where
  "bounded_by signerNotAfter t \<longleftrightarrow> \<not> IsCA t \<and> BasicConstraintsValid t
     \<and> Extensions t = [] \<and> ExtraExtensions t = []
     \<and> NotAfter t \<le> signerNotAfter \<and> NotBefore t < signerNotAfter"

locale signing_policy =
  fixes apply_policy :: "'s policy" and good :: "time \<Rightarrow> certificate \<Rightarrow> bool"
  assumes accepted: "fst (apply_policy tmpl signerNotAfter w) = Ok t \<Longrightarrow>
      bounded_by signerNotAfter t \<and> keeps_identity tmpl t \<and> good signerNotAfter t"
    and quiet: "emits (\<lambda>c. c = Now) (\<lambda>s. s = s0) (apply_policy tmpl signerNotAfter)"
begin

definition signs_for :: "env \<Rightarrow> certificate_authority \<Rightarrow> bytes \<Rightarrow> call \<Rightarrow> bool" where
  "signs_for E ca crDER c \<longleftrightarrow> (case c of
      CreateCertificate t parent \<Rightarrow> parent = Certificate ca
        \<and> bounded_by (caNotAfter (Certificate ca)) t \<and> good (caNotAfter (Certificate ca)) t
        \<and> (\<exists>cr n. env_parseCertificateRequest E crDER = Inr cr \<and> env_checkSignature E cr = None
            \<and> keeps_identity (cert_template n cr) t)
    | RandomInt n \<Rightarrow> n = serialNumberLimit
    | Now \<Rightarrow> True
    | _ \<Rightarrow> False)"

lemma Sign_emits: "emits (signs_for E ca crDER) (\<lambda>s. s = s0) (Sign E ca crDER apply_policy)"
proof -
  have q: "emits (signs_for E ca crDER) (\<lambda>s. s = s0) (apply_policy tmpl exp)" for tmpl exp
    by (rule emits_mono [OF quiet]) (simp add: signs_for_def)
  have c: "signs_for E ca crDER (CreateCertificate t (Certificate ca))"
    if "env_parseCertificateRequest E crDER = Inr cr" "env_checkSignature E cr = None"
      "fst (apply_policy (cert_template n cr) (caNotAfter (Certificate ca)) w) = Ok t"
    for t cr n w
    using that accepted [OF that(3)] by (auto simp: signs_for_def)
  show ?thesis
    unfolding Sign_def
    by (auto intro!: emits_intros emits_andThen_outcome q c split: sum.split option.split)
      (simp add: signs_for_def)
qed

text \<open>Nothing is signed for a request that does not parse or whose signature is wrong.\<close>

lemma Sign_rejects:
  assumes "fst (Sign E ca crDER apply_policy w) = Ok der"
  obtains cr where "env_parseCertificateRequest E crDER = Inr cr" "env_checkSignature E cr = None"
  using assms by (auto simp: Sign_def prog_simps split: sum.splits option.splits)

end

subsection \<open>PermissiveSigningPolicy\<close>

record permissive_signing_policy =
  TTL :: duration
  Usages :: "key_usage list"
  Backdate :: duration
  Short :: duration
  PolicyNow :: "(unit \<Rightarrow> time) option"

definition time_add :: "time \<Rightarrow> duration \<Rightarrow> time" where
  "time_add t d = t + sint d"

definition permissive_check ::
  "map_order \<Rightarrow> permissive_signing_policy \<Rightarrow> time \<Rightarrow>
     certificate \<Rightarrow> time \<Rightarrow> go_error + certificate" where
  "permissive_check order p now tmpl signerNotAfter =
     (let ttl = TTL p in
      case keyUsagesFromStrings order (Usages p) of
        Inl err \<Rightarrow> Inl err
      | Inr (usage, extUsages) \<Rightarrow>
        (let t1 = tmpl\<lparr>KeyUsage := usage, ExtKeyUsage := extUsages,
               ExtraExtensions := [], Extensions := [],
               BasicConstraintsValid := True, IsCA := False,
               NotBefore := time_add now (- Backdate p)\<rparr>;
             t2 = (if sint ttl < sint (Short p)
                   then t1\<lparr>NotAfter := time_add now ttl\<rparr>
                   else t1\<lparr>NotAfter := time_add now (ttl - Backdate p)\<rparr>);
             t3 = (if \<not> NotAfter t2 < signerNotAfter then t2\<lparr>NotAfter := signerNotAfter\<rparr> else t2)
         in if \<not> NotBefore t3 < signerNotAfter
            then Inl (Errorf ''the signer has expired: NotAfter=%v'' [AInt signerNotAfter])
            else if \<not> now < signerNotAfter
            then Inl (Errorf ''refusing to sign a certificate that expired in the past: NotAfter=%v''
              [AInt signerNotAfter])
            else Inr t3))"

definition permissive_apply :: "env \<Rightarrow> permissive_signing_policy \<Rightarrow> 's policy" where
  "permissive_apply E p tmpl signerNotAfter =
     andThen (case PolicyNow p of Some f \<Rightarrow> ret (f ()) | None \<Rightarrow> timeNow E) (\<lambda>now.
     ofSum (permissive_check (env_mapOrder E) p now tmpl signerNotAfter))"

lemma permissive_check_Inr:
  assumes "permissive_check order p now tmpl exp = Inr t"
  shows "bounded_by exp t \<and> keeps_identity tmpl t"
    and "keyUsagesFromStrings order (Usages p) = Inr (KeyUsage t, ExtKeyUsage t)"
    and "NotBefore t = time_add now (- Backdate p)"
    and "NotAfter t = min (time_add now
           (if sint (TTL p) < sint (Short p) then TTL p else TTL p - Backdate p)) exp"
    and "now < exp"
  using assms
  by (auto simp: permissive_check_def Let_def bounded_by_def keeps_identity_def min_def
      split: sum.splits if_splits)

lemma permissive_apply_Ok:
  assumes "fst (permissive_apply E p tmpl exp w) = Ok t"
  obtains now where "permissive_check (env_mapOrder E) p now tmpl exp = Inr t"
  using assms
  by (auto simp: permissive_apply_def prog_simps timeNow_def split: option.splits sum.splits)

text \<open>What a certificate accepted by the permissive policy looks like.\<close>

definition permissive_cert :: "env \<Rightarrow> permissive_signing_policy \<Rightarrow> time \<Rightarrow> certificate \<Rightarrow> bool" where
  "permissive_cert E p signerNotAfter t \<longleftrightarrow>
     keyUsagesFromStrings (env_mapOrder E) (Usages p) = Inr (KeyUsage t, ExtKeyUsage t) \<and>
     (\<exists>now < signerNotAfter. NotBefore t = time_add now (- Backdate p) \<and>
        NotAfter t = min (time_add now
          (if sint (TTL p) < sint (Short p) then TTL p else TTL p - Backdate p)) signerNotAfter)"

lemma permissive_check_cert:
  "permissive_check (env_mapOrder E) p now tmpl exp = Inr t \<Longrightarrow>
     bounded_by exp t \<and> keeps_identity tmpl t \<and> permissive_cert E p exp t"
  using permissive_check_Inr [of "env_mapOrder E" p now tmpl exp t]
  by (auto simp: permissive_cert_def)

text \<open>The policy of the code obeys the interface, whatever its parameters.\<close>

interpretation permissive: signing_policy "permissive_apply E p" "permissive_cert E p"
  for E :: env and p :: permissive_signing_policy
proof (unfold_locales, goal_cases)
  case (1 tmpl exp w t)
  then show ?case
    by (auto elim!: permissive_apply_Ok simp: permissive_check_cert)
next
  case (2 s0 tmpl exp)
  show ?case
    by (auto simp: permissive_apply_def intro!: emits_intros split: option.split)
qed

subsection \<open>Errors of the policy\<close>

lemma permissive_check_error:
  "(\<exists>e. permissive_check order p now tmpl exp = Inl e) \<longleftrightarrow>
     (\<exists>u \<in> set (Usages p). \<not> recognized u) \<or> time_add now (- Backdate p) \<ge> exp \<or> now \<ge> exp"
proof (cases "keyUsagesFromStrings order (Usages p)")
  case (Inl err)
  then have "\<exists>u \<in> set (Usages p). \<not> recognized u"
    using keyUsagesFromStrings_error_iff by metis
  with Inl show ?thesis by (auto simp: permissive_check_def)
next
  case (Inr r)
  then have "\<not> (\<exists>u \<in> set (Usages p). \<not> recognized u)"
    by (subst keyUsagesFromStrings_error_iff [of order, symmetric]) simp
  with Inr show ?thesis
    by (cases r) (auto simp: permissive_check_def Let_def)
qed

subsection \<open>The outcomes of Sign\<close>

text \<open>\<open>Sign\<close> with the permissive policy never panics; a success ends by creating the certificate.\<close>

lemma permissive_apply_shape:
  "\<exists>cs. permissive_apply E p tmpl exp w =
     ((case permissive_check (env_mapOrder E) p
              (case PolicyNow p of Some f \<Rightarrow> f () | None \<Rightarrow> env_now E (calls w)) tmpl exp of
         Inl e \<Rightarrow> Err e | Inr t \<Rightarrow> Ok t), w\<lparr>calls := calls w @ cs\<rparr>)"
  by (cases "PolicyNow p")
    (auto simp: permissive_apply_def prog_simps timeNow_def intro: exI [of _ "[]"] split: sum.split)

lemma Sign_cases:
  "(\<exists>e w'. Sign E ca crDER (permissive_apply E p) w = (Err e, w')) \<or>
   (\<exists>der t w'. Sign E ca crDER (permissive_apply E p) w = (Ok der, w') \<and> ctl w' = ctl w \<and>
      (\<exists>cs. calls w' = calls w @ cs @ [CreateCertificate t (Certificate ca)]))"
proof (cases "env_parseCertificateRequest E crDER"; cases "env_randomInt E (calls w) serialNumberLimit")
  fix cr sn
  assume cr: "env_parseCertificateRequest E crDER = Inr cr"
    and sn: "env_randomInt E (calls w) serialNumberLimit = Inr sn"
  let ?w1 = "w\<lparr>calls := calls w @ [RandomInt serialNumberLimit]\<rparr>"
  let ?exp = "caNotAfter (Certificate ca)"
  obtain r w2 where a: "permissive_apply E p (cert_template sn cr) ?exp ?w1 = (r, w2)"
    by fastforce
  with permissive_apply_shape [of E p "cert_template sn cr" ?exp ?w1]
  have np: "r \<noteq> Panic s" and c: "ctl w2 = ctl w" "\<exists>cs. calls w2 = calls w @ cs" for s
    by (auto split: sum.splits)
  note eq = Sign_def prog_simps cr sn a c(1)
  show ?thesis
  proof (cases "env_checkSignature E cr")
    case None
    show ?thesis
    proof (cases r)
      case (Ok t)
      show ?thesis
        by (cases "env_createCertificate E (calls w2) t (Certificate ca) (crPublicKey cr) (PrivateKey ca)")
          (use c(2) in \<open>auto simp: eq None Ok\<close>)
    qed (use np in \<open>auto simp: eq None\<close>)
  qed (simp add: eq)
qed (auto simp: Sign_def prog_simps split: option.split)

subsection \<open>Properties\<close>

text \<open>C28: the policy accepts exactly the requests whose usages are all recognized and whose signer is valid now and was valid at the backdated start.\<close>

theorem permissive_check_accepts:
  "(\<exists>t. permissive_check order p now tmpl exp = Inr t) \<longleftrightarrow>
     filter (\<lambda>u. \<not> recognized u) (Usages p) = [] \<and> time_add now (- Backdate p) < exp \<and> now < exp"
proof -
  have "(\<exists>t. permissive_check order p now tmpl exp = Inr t) \<longleftrightarrow>
      \<not> (\<exists>e. permissive_check order p now tmpl exp = Inl e)"
    by (cases "permissive_check order p now tmpl exp") auto
  then show ?thesis
    by (auto simp: permissive_check_error filter_empty_conv not_le)
qed

end
