(* ===== verification/Signer.thy ===== *)
theory Signer
  imports CA Factory
begin

section \<open>The CSR signing controller (csr/signer.go)\<close>

text \<open>
  The controller that signs approved certificate signing requests of spoke clusters: its state,
  the lazily loaded certificate authority, the requested duration, the guards and the sync.
  The request object comes from the informer cache and is shared with it, so the write into
  its conditions in the invalid-usages branch is recorded as \<open>CacheWrite\<close>.
\<close>

abbreviation spokeClusterNameLabel :: string where "spokeClusterNameLabel \<equiv> ''open-cluster-management.io/cluster-name''"
abbreviation KubeAPIServerClientSignerName :: string where "KubeAPIServerClientSignerName \<equiv> ''kubernetes.io/kube-apiserver-client''"
abbreviation CertificateApproved :: string where "CertificateApproved \<equiv> ''Approved''"
abbreviation CertificateDenied :: string where "CertificateDenied \<equiv> ''Denied''"
abbreviation CertificateFailed :: string where "CertificateFailed \<equiv> ''Failed''"

definition Second :: duration where "Second = 1000000000"
definition Minute :: duration where "Minute = 60 * Second"
definition Hour :: duration where "Hour = 60 * Minute"

lemmas time_units = Second_def Minute_def Hour_def

record csr_ctl =
  csrWorkspaceName :: string
  csrCertFile :: string
  csrKeyFile :: string
  csrCertTTL :: duration
  csrCA :: "certificate_authority option"
  csrKubeClient :: cluster
  csrListerOf :: informer

definition NewCSRSigningController ::
  "string \<Rightarrow> string \<Rightarrow> string \<Rightarrow> cluster \<Rightarrow> informer \<Rightarrow> csr_ctl controller" where
  "NewCSRSigningController workspaceName certFile keyFile kubeClient csrInformer =
     \<lparr>ctrlName = workspaceName @ ''-csr-signing-controller'',
      ctrlFilter = (\<lambda>_. True),
      ctrlState = \<lparr>csrWorkspaceName = workspaceName, csrCertFile = certFile, csrKeyFile = keyFile,
        csrCertTTL = 30 * 24 * Hour, csrCA = None, csrKubeClient = kubeClient,
        csrListerOf = csrInformer\<rparr>\<rparr>"

subsection \<open>Guards\<close>

fun isApproved_loop :: "bool \<Rightarrow> csr_condition list \<Rightarrow> bool" where
  "isApproved_loop approved [] = approved"
| "isApproved_loop approved (condition # conditions) =
     (if csrCondType condition = CertificateDenied then False
      else if csrCondType condition = CertificateApproved then isApproved_loop True conditions
      else isApproved_loop approved conditions)"

definition isApproved :: "certificate_signing_request \<Rightarrow> bool" where
  "isApproved csr = isApproved_loop False (csrConditions csr)"

lemma isApproved_loop_iff:
  "isApproved_loop b cs \<longleftrightarrow> (b \<or> CertificateApproved \<in> csrCondType ` set cs)
     \<and> CertificateDenied \<notin> csrCondType ` set cs"
  by (induction cs arbitrary: b) auto

lemma isApproved_iff:
  "isApproved csr \<longleftrightarrow> (\<exists>c \<in> set (csrConditions csr). csrCondType c = CertificateApproved)
     \<and> (\<forall>c \<in> set (csrConditions csr). csrCondType c \<noteq> CertificateDenied)"
  by (simp add: isApproved_def isApproved_loop_iff image_iff) metis

fun validUsages_loop :: "bool \<Rightarrow> key_usage list \<Rightarrow> go_error option" where
  "validUsages_loop hasClientAuth [] =
     (if \<not> hasClientAuth
      then Some (Errorf ''missing required usage for client certificate: %s'' [AStr UsageClientAuth])
      else None)"
| "validUsages_loop hasClientAuth (u # usages) =
     (if u = UsageDigitalSignature \<or> u = UsageKeyEncipherment then validUsages_loop hasClientAuth usages
      else if u = UsageClientAuth then validUsages_loop True usages
      else Some (Errorf ''invalid usage for client certificate: %s'' [AStr u]))"

definition validAPIServerClientUsages :: "key_usage list \<Rightarrow> go_error option" where
  "validAPIServerClientUsages usages = validUsages_loop False usages"

definition client_usages :: "key_usage set" where
  "client_usages = {UsageDigitalSignature, UsageKeyEncipherment, UsageClientAuth}"

lemma validUsages_loop_None:
  "validUsages_loop b us = None \<longleftrightarrow> set us \<subseteq> client_usages \<and> (b \<or> UsageClientAuth \<in> set us)"
  by (induction us arbitrary: b) (auto simp: client_usages_def)

lemma validAPIServerClientUsages_None:
  "validAPIServerClientUsages us = None \<longleftrightarrow> set us \<subseteq> client_usages \<and> UsageClientAuth \<in> set us"
  by (simp add: validAPIServerClientUsages_def validUsages_loop_None)

subsection \<open>The requested duration\<close>

text \<open>\<^verbatim>\<open>csr.ExpirationSecondsToDuration\<close>: the int32 widened to int64, times one second.\<close>

definition ExpirationSecondsToDuration :: "32 word \<Rightarrow> duration" where
  "ExpirationSecondsToDuration expirationSeconds = signed expirationSeconds * Second"

definition duration_of :: "csr_ctl \<Rightarrow> 32 word option \<Rightarrow> duration" where
  "duration_of c expirationSeconds = (case expirationSeconds of
      None \<Rightarrow> csrCertTTL c
    | Some secs \<Rightarrow>
        (let minimum = 10 * Minute; requestedDuration = ExpirationSecondsToDuration secs
         in if sint requestedDuration > sint (csrCertTTL c) then csrCertTTL c
            else if sint requestedDuration < sint minimum then minimum
            else requestedDuration))"

text \<open>No int32 number of seconds overflows the 64-bit duration.\<close>

lemma sint_ExpirationSecondsToDuration:
  "sint (ExpirationSecondsToDuration secs) = sint secs * 1000000000"
proof -
  have r: "- (2 ^ 31) \<le> sint secs" "sint secs < 2 ^ 31"
    using sint_range_size [of secs] by (simp_all add: word_size)
  have "sint (signed secs :: 64 word) = sint secs"
    by (simp add: signed_scast_eq, rule signed_take_bit_int_eq_self) (use r in simp_all)
  moreover have "sint (Second) = 1000000000" by (simp add: Second_def)
  ultimately have "sint (ExpirationSecondsToDuration secs) =
      signed_take_bit 63 (sint secs * 1000000000)"
    by (simp add: ExpirationSecondsToDuration_def sint_word_ariths)
  also have "\<dots> = sint secs * 1000000000"
    by (rule signed_take_bit_int_eq_self) (use r in simp_all)
  finally show ?thesis .
qed

lemma duration_of_bounds:
  assumes "sint (csrCertTTL c) \<ge> sint (10 * Minute)"
  shows "sint (10 * Minute) \<le> sint (duration_of c secs) \<and> sint (duration_of c secs) \<le> sint (csrCertTTL c)"
  using assms by (auto simp: duration_of_def Let_def split: option.split)

subsection \<open>Loading the certificate authority\<close>

definition readFile :: "env \<Rightarrow> string \<Rightarrow> ('s, bytes) go" where
  "readFile E path = perform (ReadFile path) (\<lambda>h. env_readFile E h path)"

definition loadCertKeyPair :: "env \<Rightarrow> string \<Rightarrow> string \<Rightarrow> ('s, bytes \<times> bytes) go" where
  "loadCertKeyPair E certFile keyFile =
     andThen (readFile E certFile) (\<lambda>cert.
     andThen (readFile E keyFile) (\<lambda>key.
       if length cert = 0 then fail (Errorf ''missing content for cert %q'' [AStr certFile])
       else if length cert = 0 \<or> length key = 0
       then fail (Errorf ''missing content for key %q'' [AStr keyFile])
       else andThen (ofErr (env_x509KeyPair E cert key)) (\<lambda>_. ret (cert, key))))"

lemma loadCertKeyPair_Ok:
  assumes "fst (loadCertKeyPair E certFile keyFile w) = Ok (cert, key)"
  obtains h h' where "env_readFile E h certFile = Inr cert" "env_readFile E h' keyFile = Inr key"
    "env_x509KeyPair E cert key = None"
  using assms
  by (auto simp: loadCertKeyPair_def readFile_def prog_simps split: sum.splits if_splits option.splits)

definition initCA :: "env \<Rightarrow> (csr_ctl, unit) go" where
  "initCA E = andThen getS (\<lambda>c.
     if csrCA c \<noteq> None then ret ()
     else andThen (loadCertKeyPair E (csrCertFile c) (csrKeyFile c)) (\<lambda>(certPEM, keyPEM).
       case env_parseCertsPEM E certPEM of
         Inl err \<Rightarrow> fail (Errorf ''error reading CA cert file %q: %v'' [AStr (csrCertFile c), AErr err])
       | Inr certs \<Rightarrow>
         if length certs \<noteq> 1
         then fail (Errorf ''error reading CA cert file %q: expected 1 certificate, found %d''
           [AStr (csrCertFile c), AInt (int (length certs))])
         else (case env_parsePrivateKeyPEM E keyPEM of
           Inl err \<Rightarrow> fail (Errorf ''error reading CA key file %q: %v'' [AStr (csrKeyFile c), AErr err])
         | Inr (OtherKey _) \<Rightarrow>
             fail (Errorf ''error reading CA key file %q: key did not implement crypto.Signer''
               [AStr (csrKeyFile c)])
         | Inr (SignerKey k) \<Rightarrow>
             modifyS (\<lambda>c. c\<lparr>csrCA := Some \<lparr>RawCert = certPEM, RawKey = keyPEM,
               Certificate = certs ! 0, PrivateKey = SignerKey k\<rparr>\<rparr>))))"

subsection \<open>Signing\<close>

definition parseCSR :: "env \<Rightarrow> bytes \<Rightarrow> go_error + cert_request" where
  "parseCSR E pemBytes = (case env_pemDecode E pemBytes of
      None \<Rightarrow> Inl (Errorf ''PEM block type must be CERTIFICATE REQUEST'' [])
    | Some (blockType, blockBytes) \<Rightarrow>
        if blockType \<noteq> ''CERTIFICATE REQUEST''
        then Inl (Errorf ''PEM block type must be CERTIFICATE REQUEST'' [])
        else env_parseCertificateRequest E blockBytes)"

definition sign_policy ::
  "csr_ctl \<Rightarrow> key_usage list \<Rightarrow> 32 word option \<Rightarrow> (unit \<Rightarrow> time) option \<Rightarrow> permissive_signing_policy" where
  "sign_policy c usages expirationSeconds now =
     \<lparr>TTL = duration_of c expirationSeconds, Usages = usages, Backdate = 5 * Minute,
      Short = 8 * Hour, PolicyNow = now\<rparr>"

definition sign ::
  "env \<Rightarrow> cert_request \<Rightarrow> key_usage list \<Rightarrow> 32 word option \<Rightarrow> (unit \<Rightarrow> time) option \<Rightarrow>
     (csr_ctl, bytes) go" where
  "sign E x509cr usages expirationSeconds now = andThen getS (\<lambda>c. case csrCA c of
      None \<Rightarrow> panic ''nil pointer dereference''
    | Some ca \<Rightarrow> andThen
        (Sign E ca (crRaw x509cr) (permissive_apply E (sign_policy c usages expirationSeconds now)))
        (\<lambda>der. ret (env_pemEncode E ''CERTIFICATE'' der)))"

subsection \<open>sync\<close>

definition failed_condition :: "go_error \<Rightarrow> time \<Rightarrow> csr_condition" where
  "failed_condition err now = \<lparr>csrCondType = CertificateFailed, csrCondStatus = ConditionTrue,
     csrCondReason = ''SignerValidationFailure'', csrCondMessage = err, csrCondLastUpdateTime = now\<rparr>"

definition updateCSRStatus :: "env \<Rightarrow> cluster \<Rightarrow> certificate_signing_request \<Rightarrow> ('s, unit) go" where
  "updateCSRStatus E cl csr = perform (UpdateCSRStatus cl csr) (\<lambda>h. answer (env_updateCSRStatus E h cl csr))"

text \<open>The part of the sync after its guards: load the CA, parse, sign, store the certificate.\<close>

definition sign_and_update :: "env \<Rightarrow> cluster \<Rightarrow> certificate_signing_request \<Rightarrow> (csr_ctl, unit) go" where
  "sign_and_update E cl csr =
     andThen (initCA E) (\<lambda>_.
     case parseCSR E (csrRequest csr) of
       Inl err \<Rightarrow> fail (Errorf ''unable to parse csr %q: %v'' [AStr (csrName csr), AErr err])
     | Inr x509cr \<Rightarrow>
       tryP (sign E x509cr (csrUsages csr) (csrExpirationSeconds csr) None)
         (\<lambda>err. fail (Errorf ''error auto signing csr: %v'' [AErr err]))
         (\<lambda>cert.
           tryP (updateCSRStatus E cl (csr\<lparr>csrCertificate := cert\<rparr>))
             (\<lambda>err. fail (Errorf ''error updating signature for csr: %v'' [AErr err]))
             (\<lambda>_. emit (Event ''ManagedClusterCSRSigned''))))"

text \<open>The sync from its guards on, for the request the lister returned.\<close>

definition csr_reconcile :: "env \<Rightarrow> cluster \<Rightarrow> certificate_signing_request \<Rightarrow> (csr_ctl, unit) go" where
  "csr_reconcile E cl csr =
     (if map_of (csrLabels csr) spokeClusterNameLabel = None then ret ()
      else if \<not> isApproved csr then ret ()
      else if length (csrCertificate csr) > 0 then ret ()
      else if csrSignerName csr \<noteq> KubeAPIServerClientSignerName then ret ()
      else (case validAPIServerClientUsages (csrUsages csr) of
          Some err \<Rightarrow>
            andThen (timeNow E) (\<lambda>now.
            let csr' = csr\<lparr>csrConditions := csrConditions csr @ [failed_condition err now]\<rparr> in
            andThen (emit (CacheWrite csr')) (\<lambda>_. updateCSRStatus E cl csr'))
        | None \<Rightarrow> sign_and_update E cl csr))"

definition csr_sync :: "env \<Rightarrow> csr_ctl sync_fun" where
  "csr_sync E name = andThen getS (\<lambda>c.
     tryP (perform (ListerGet ''certificatesigningrequests'' name)
            (\<lambda>h. env_csrLister E h (csrListerOf c) name))
       (\<lambda>err. if IsNotFound err then ret () else fail err)
       (csr_reconcile E (csrKubeClient c)))"

subsection \<open>The outcomes of loading the CA\<close>

lemma loadCertKeyPair_ctl: "ctl (snd (loadCertKeyPair E cf kf w)) = ctl w"
  by (auto simp: loadCertKeyPair_def readFile_def prog_simps split: sum.split option.split)

lemma initCA_cached: "csrCA (ctl w) \<noteq> None \<Longrightarrow> initCA E w = (Ok (), w)"
  by (auto simp: initCA_def prog_simps)

lemma initCA_uncached:
  assumes "csrCA (ctl w) = None"
  shows "(\<exists>ca. fst (initCA E w) = Ok () \<and> ctl (snd (initCA E w)) = (ctl w)\<lparr>csrCA := Some ca\<rparr>) \<or>
    (\<exists>e. fst (initCA E w) = Err e \<and> ctl (snd (initCA E w)) = ctl w)"
proof -
  obtain r w' where l: "loadCertKeyPair E (csrCertFile (ctl w)) (csrKeyFile (ctl w)) w = (r, w')"
    by fastforce
  with loadCertKeyPair_ctl have c: "ctl w' = ctl w" by (metis snd_conv)
  have np: "r \<noteq> Panic s" for s
    using l by (auto simp: loadCertKeyPair_def readFile_def prog_simps
        split: sum.splits if_splits option.splits prod.splits)
  note eq = initCA_def andThen_def tryP_def getS_def assms l c
  show ?thesis
  proof (cases r)
    case (Ok p)
    obtain cert key where p: "p = (cert, key)" by fastforce
    show ?thesis
      by (cases "env_parseCertsPEM E cert"; cases "env_parsePrivateKeyPEM E key";
          cases "projr (env_parsePrivateKeyPEM E key)")
        (auto simp: eq Ok p fail_def modifyS_def)
  qed (use np in \<open>simp_all add: eq fail_def\<close>)
qed

lemma initCA_Ok: "initCA E w = (Ok (), w') \<Longrightarrow> \<exists>ca cs. csrCA (ctl w') = Some ca \<and> calls w' = calls w @ cs"
proof -
  assume i: "initCA E w = (Ok (), w')"
  then have "\<exists>ca. csrCA (ctl w') = Some ca"
    using initCA_uncached [of w E] initCA_cached [of w E] by (cases "csrCA (ctl w)") auto
  moreover have "emits (\<lambda>_. True) (\<lambda>_. True) (initCA E)"
    unfolding initCA_def loadCertKeyPair_def readFile_def
    by (auto intro!: emits_intros split: sum.split private_key.split)
  then have "\<exists>cs. calls w' = calls w @ cs" using i by (metis emitsD snd_conv)
  ultimately show ?thesis by blast
qed

lemma initCA_not_Panic: "initCA E w \<noteq> (Panic s, w')"
  using initCA_uncached [of w E] initCA_cached [of w E] by (cases "csrCA (ctl w)") auto

subsection \<open>The outcomes of the sync\<close>

text \<open>A request the guards turn away.\<close>

definition csr_ignored :: "certificate_signing_request \<Rightarrow> bool" where
  "csr_ignored csr \<longleftrightarrow> map_of (csrLabels csr) spokeClusterNameLabel = None \<or> \<not> isApproved csr \<or>
     csrCertificate csr \<noteq> [] \<or> csrSignerName csr \<noteq> KubeAPIServerClientSignerName"

lemma csr_reconcile_live:
  "\<not> csr_ignored csr \<Longrightarrow> csr_reconcile E cl csr = (case validAPIServerClientUsages (csrUsages csr) of
      Some err \<Rightarrow>
        andThen (timeNow E) (\<lambda>now.
        let csr' = csr\<lparr>csrConditions := csrConditions csr @ [failed_condition err now]\<rparr> in
        andThen (emit (CacheWrite csr')) (\<lambda>_. updateCSRStatus E cl csr'))
    | None \<Rightarrow> sign_and_update E cl csr)"
  by (auto simp: csr_ignored_def csr_reconcile_def)

lemma csr_sync_listed:
  "env_csrLister E (calls w) (csrListerOf (ctl w)) n = Inr csr \<Longrightarrow>
     csr_sync E n w = csr_reconcile E (csrKubeClient (ctl w)) csr
       (w\<lparr>calls := calls w @ [ListerGet ''certificatesigningrequests'' n]\<rparr>)"
  by (simp add: csr_sync_def prog_simps)

definition mark_failed ::
  "certificate_signing_request \<Rightarrow> go_error \<Rightarrow> time \<Rightarrow> certificate_signing_request" where
  "mark_failed csr err now = csr\<lparr>csrConditions := csrConditions csr @ [failed_condition err now]\<rparr>"

lemma csr_sync_invalid:
  assumes "env_csrLister E (calls w) (csrListerOf (ctl w)) n = Inr csr" and "\<not> csr_ignored csr"
    and "validAPIServerClientUsages (csrUsages csr) = Some err"
  shows "\<exists>now r. csr_sync E n w = (r, w\<lparr>calls := calls w @ [ListerGet ''certificatesigningrequests'' n, Now,
      CacheWrite (mark_failed csr err now), UpdateCSRStatus (csrKubeClient (ctl w)) (mark_failed csr err now)]\<rparr>)"
  using assms(3)
  by (intro exI [of _ "env_now E (calls w @ [ListerGet ''certificatesigningrequests'' n])"])
    (simp add: csr_sync_listed [OF assms(1)] csr_reconcile_live [OF assms(2)] prog_simps timeNow_def
      updateCSRStatus_def Let_def mark_failed_def)

text \<open>The interactions that end a signing: create the certificate, store it, record the event.\<close>

definition signed_calls ::
  "env \<Rightarrow> cluster \<Rightarrow> certificate_signing_request \<Rightarrow> certificate \<Rightarrow> ca_cert \<Rightarrow> bytes \<Rightarrow> call list" where
  "signed_calls E cl csr t parent der = [CreateCertificate t parent,
     UpdateCSRStatus cl (csr\<lparr>csrCertificate := env_pemEncode E ''CERTIFICATE'' der\<rparr>),
     Event ''ManagedClusterCSRSigned'']"

lemma sign_and_update_cases:
  "(\<exists>e w'. sign_and_update E cl csr w = (Err e, w')) \<or>
   (\<exists>w' ca t der cs. sign_and_update E cl csr w = (Ok (), w') \<and> csrCA (ctl w') = Some ca \<and>
      calls w' = calls w @ cs @ signed_calls E cl csr t (Certificate ca) der)"
proof -
  obtain r w1 where i: "initCA E w = (r, w1)" by fastforce
  show ?thesis
  proof (cases r)
    case (Ok u)
    with i obtain ca cs1 where ca: "csrCA (ctl w1) = Some ca" "calls w1 = calls w @ cs1"
      using initCA_Ok by (cases u) blast
    note eq = sign_and_update_def andThen_def tryP_def i Ok getS_def sign_def ca(1)
      updateCSRStatus_def emit_def perform_def ret_def fail_def
    show ?thesis
    proof (cases "parseCSR E (csrRequest csr)")
      case (Inr x509cr)
      let ?p = "sign_policy (ctl w1) (csrUsages csr) (csrExpirationSeconds csr) None"
      from Sign_cases [of E ca "crRaw x509cr" ?p w1] show ?thesis
      proof (elim disjE exE conjE)
        fix der t w2 cs
        assume s: "Sign E ca (crRaw x509cr) (permissive_apply E ?p) w1 = (Ok der, w2)" "ctl w2 = ctl w1"
          "calls w2 = calls w1 @ cs @ [CreateCertificate t (Certificate ca)]"
        let ?csr' = "csr\<lparr>csrCertificate := env_pemEncode E ''CERTIFICATE'' der\<rparr>"
        show ?thesis
        proof (cases "env_updateCSRStatus E (calls w2) cl ?csr'")
          case None
          with s ca show ?thesis
            by (intro disjI2 exI [of _ "w2\<lparr>calls := calls w2 @ tl (signed_calls E cl csr t (Certificate ca) der)\<rparr>"]
                exI [of _ ca] exI [of _ t] exI [of _ der] exI [of _ "cs1 @ cs"])
              (simp add: eq Inr signed_calls_def)
        qed (use s in \<open>simp add: eq Inr\<close>)
      qed (simp add: eq Inr)
    qed (simp add: eq)
  next
    case (Panic s)
    with i initCA_not_Panic show ?thesis by blast
  qed (simp add: sign_and_update_def andThen_def tryP_def i fail_def)
qed

subsection \<open>Properties\<close>

text \<open>A concrete controller, environment and request.\<close>

definition demo_ca :: ca_cert where
  "demo_ca = \<lparr>caRaw = ''ca'', caNotAfter = 10000000000000000\<rparr>"

definition demo_request :: cert_request where
  "demo_request = \<lparr>crRaw = ''csr'', crSubject = \<lparr>CommonName = ''cluster1'', SubjectRest = ''''\<rparr>,
     crDNSNames = [], crIPAddresses = [], crEmailAddresses = [], crURIs = [],
     crPublicKeyAlgorithm = 1, crPublicKey = ''pub'', crExtensions = [''ca:true''], crExtraExtensions = []\<rparr>"

definition demo_csr :: certificate_signing_request where
  "demo_csr = \<lparr>csrName = ''csr1'', csrLabels = [(spokeClusterNameLabel, ''cluster1'')],
     csrRequest = ''pem'', csrSignerName = KubeAPIServerClientSignerName,
     csrExpirationSeconds = Some 60, csrUsages = [UsageDigitalSignature, UsageClientAuth],
     csrConditions = [\<lparr>csrCondType = CertificateApproved, csrCondStatus = ConditionTrue,
       csrCondReason = '''', csrCondMessage = ApiError '''', csrCondLastUpdateTime = 0\<rparr>],
     csrCertificate = []\<rparr>"

definition demo_env :: "certificate_signing_request \<Rightarrow> env" where
  "demo_env csr = base_env\<lparr>env_csrLister := \<lambda>_ _ _. Inr csr, env_readFile := \<lambda>_ f. Inr f,
     env_parseCertsPEM := \<lambda>_. Inr [demo_ca], env_parsePrivateKeyPEM := \<lambda>_. Inr (SignerKey ''k''),
     env_pemDecode := \<lambda>_. Some (''CERTIFICATE REQUEST'', ''csr''),
     env_parseCertificateRequest := \<lambda>_. Inr demo_request, env_now := \<lambda>_. 1000000000000\<rparr>"

definition demo_world :: "(call, csr_ctl) world" where
  "demo_world = \<lparr>calls = [], ctl = ctrlState (NewCSRSigningController ''ws'' ''tls.crt'' ''tls.key''
     (Kcp ''kcp'') (KubeInformer (Kcp ''kcp'')))\<rparr>"

lemmas demo_defs = demo_csr_def demo_env_def demo_world_def base_env_def NewCSRSigningController_def

lemma demo_guards: "\<not> csr_ignored demo_csr" "validAPIServerClientUsages (csrUsages demo_csr) = None"
  by (simp_all add: csr_ignored_def demo_csr_def isApproved_def validAPIServerClientUsages_def)

lemma demo_sync_Ok: "fst (csr_sync (demo_env demo_csr) ''csr1'' demo_world) = Ok ()"
  by (code_simp)

text \<open>C30: the usages are accepted when all are allowed for a client certificate and client auth is among them; otherwise the error names the first offender, or the missing usage.\<close>

theorem validAPIServerClientUsages_spec:
  "validAPIServerClientUsages us =
     (case find (\<lambda>u. u \<notin> client_usages) us of
        Some u \<Rightarrow> Some (Errorf ''invalid usage for client certificate: %s'' [AStr u])
      | None \<Rightarrow> if UsageClientAuth \<in> set us then None
          else Some (Errorf ''missing required usage for client certificate: %s'' [AStr UsageClientAuth]))"
proof -
  have "validUsages_loop b us =
     (case find (\<lambda>u. u \<notin> client_usages) us of
        Some u \<Rightarrow> Some (Errorf ''invalid usage for client certificate: %s'' [AStr u])
      | None \<Rightarrow> if b \<or> UsageClientAuth \<in> set us then None
          else Some (Errorf ''missing required usage for client certificate: %s'' [AStr UsageClientAuth]))" for b
    by (induction us arbitrary: b) (auto simp: client_usages_def)
  then show ?thesis by (simp add: validAPIServerClientUsages_def)
qed

text \<open>C32: once the CA was loaded it is never loaded again, whatever the files say later.\<close>

theorem initCA_loads_once:
  assumes "fst (initCA E w) = Ok ()"
  shows "initCA E' (snd (initCA E w)) = (Ok (), snd (initCA E w))"
proof (rule initCA_cached)
  show "csrCA (ctl (snd (initCA E w))) \<noteq> None"
    using initCA_uncached [of w E] initCA_cached [of w E] assms by (cases "csrCA (ctl w)") auto
qed

theorem initCA_loads_once_witness:
  "initCA base_env (snd (initCA (demo_env demo_csr) demo_world)) =
     (Ok (), snd (initCA (demo_env demo_csr) demo_world))"
  by (rule initCA_loads_once)
    (simp add: demo_defs demo_ca_def initCA_def loadCertKeyPair_def readFile_def prog_simps)

text \<open>When loading the CA fails, the controller keeps no part of it.\<close>

lemma initCA_failure:
  assumes "fst (initCA E w) \<noteq> Ok ()"
  shows "ctl (snd (initCA E w)) = ctl w \<and> csrCA (ctl w) = None"
  using initCA_uncached [of w E] initCA_cached [of w E] assms by (cases "csrCA (ctl w)") auto

lemma initCA_failure_example:
  "ctl (snd (initCA base_env demo_world)) = ctl demo_world"
  using initCA_failure [of base_env demo_world]
  by (simp add: demo_defs initCA_def loadCertKeyPair_def readFile_def prog_simps)

text \<open>A request that is unlabelled, not approved, already signed or for another signer is only read.\<close>

lemma csr_sync_ignores:
  assumes "env_csrLister E (calls w) (csrListerOf (ctl w)) n = Inr csr" and "csr_ignored csr"
  shows "csr_sync E n w = (Ok (), w\<lparr>calls := calls w @ [ListerGet ''certificatesigningrequests'' n]\<rparr>)"
  using assms(2) by (auto simp: csr_sync_listed [OF assms(1)] csr_reconcile_def csr_ignored_def ret_def)

lemma csr_sync_ignores_example:
  "writes_of (calls (snd (csr_sync (demo_env (demo_csr\<lparr>csrConditions := []\<rparr>)) ''csr1'' demo_world))) = []"
proof -
  have "csr_sync (demo_env (demo_csr\<lparr>csrConditions := []\<rparr>)) ''csr1'' demo_world =
      (Ok (), demo_world\<lparr>calls := calls demo_world @ [ListerGet ''certificatesigningrequests'' ''csr1'']\<rparr>)"
    by (rule csr_sync_ignores [of _ _ _ "demo_csr\<lparr>csrConditions := []\<rparr>"])
      (simp_all add: demo_defs csr_ignored_def isApproved_def)
  then show ?thesis by (simp add: demo_world_def)
qed



text \<open>What the informer cache holds for the request: the last object written into it.\<close>

fun cached_csr :: "certificate_signing_request \<Rightarrow> history \<Rightarrow> certificate_signing_request" where
  "cached_csr csr [] = csr"
| "cached_csr csr (CacheWrite csr' # h) = cached_csr csr' h"
| "cached_csr csr (_ # h) = cached_csr csr h"

lemma cached_csr_append [simp]: "cached_csr csr (h @ h') = cached_csr (cached_csr csr h) h'"
  by (induction csr h rule: cached_csr.induct) auto

lemma mark_failed_live: "\<not> csr_ignored csr \<Longrightarrow> \<not> csr_ignored (mark_failed csr err now)"
  by (auto simp: csr_ignored_def mark_failed_def isApproved_iff failed_condition_def)

text \<open>Every sync of an approved request with invalid usages appends one more Failed condition to the cached object, also when it already has one.\<close>

lemma failed_conditions_grow:
  assumes "\<And>h. env_csrLister E h (csrListerOf (ctl w)) n = Inr (cached_csr csr h)"
    and "calls w = []" and "\<not> csr_ignored csr" and "validAPIServerClientUsages (csrUsages csr) = Some err"
  shows "length (csrConditions (cached_csr csr (calls (((\<lambda>w. snd (csr_sync E n w)) ^^ k) w)))) =
     length (csrConditions csr) + k"
proof -
  let ?w = "\<lambda>k. ((\<lambda>w. snd (csr_sync E n w)) ^^ k) w"
  let ?c = "\<lambda>k. cached_csr csr (calls (?w k))"
  have "ctl (?w k) = ctl w \<and> \<not> csr_ignored (?c k) \<and> csrUsages (?c k) = csrUsages csr \<and>
      length (csrConditions (?c k)) = length (csrConditions csr) + k"
  proof (induction k)
    case (Suc k)
    then have "env_csrLister E (calls (?w k)) (csrListerOf (ctl (?w k))) n = Inr (?c k)"
      and l: "\<not> csr_ignored (?c k)" and u: "validAPIServerClientUsages (csrUsages (?c k)) = Some err"
      using assms(1,4) by simp_all
    from csr_sync_invalid [OF this] obtain r now where
      "csr_sync E n (?w k) = (r, (?w k)\<lparr>calls := calls (?w k) @
         [ListerGet ''certificatesigningrequests'' n, Now, CacheWrite (mark_failed (?c k) err now),
          UpdateCSRStatus (csrKubeClient (ctl (?w k))) (mark_failed (?c k) err now)]\<rparr>)" by blast
    then have "?c (Suc k) = mark_failed (?c k) err now" "ctl (?w (Suc k)) = ctl (?w k)" by simp_all
    with Suc mark_failed_live [OF l] show ?case by (simp add: mark_failed_def)
  qed (use assms(2,3) in simp)
  then show ?thesis by blast
qed

lemma failed_conditions_grow_example:
  "length (csrConditions (cached_csr (demo_csr\<lparr>csrUsages := [''any'']\<rparr>) (calls (((\<lambda>w. snd (csr_sync
     ((demo_env demo_csr)\<lparr>env_csrLister := \<lambda>h _ _. Inr (cached_csr (demo_csr\<lparr>csrUsages := [''any'']\<rparr>) h)\<rparr>)
     ''csr1'' w)) ^^ 3) demo_world)))) = 4"
proof -
  have "length (csrConditions demo_csr) = 1" by (simp add: demo_csr_def)
  then show ?thesis
    using failed_conditions_grow [of "(demo_env demo_csr)\<lparr>env_csrLister :=
        \<lambda>h _ _. Inr (cached_csr (demo_csr\<lparr>csrUsages := [''any'']\<rparr>) h)\<rparr>" demo_world "''csr1''"
        "demo_csr\<lparr>csrUsages := [''any'']\<rparr>" _ 3]
    by (simp add: demo_world_def demo_csr_def csr_ignored_def isApproved_def validAPIServerClientUsages_def)
qed

end
