(* ===== verification/CsrSafety.thy ===== *)
theory CsrSafety
  imports Signer
begin

section \<open>What the CSR signing controller can do\<close>

text \<open>
  The contract of the CSR signing controller with its work loop: which interactions it makes
  over any run, in particular which certificates it has signed, and for which requests. The
  interpretation of \<open>reconciler\<close> discharges the contract for \<open>csr_sync\<close>.
\<close>

subsection \<open>The validity of a signed certificate\<close>

lemma sint_minutes [simp]:
  "sint (5 * Minute) = 300000000000" "sint (10 * Minute) = 600000000000"
  "sint (8 * Hour) = 28800000000000" "sint (30 * 24 * Hour) = 2592000000000000"
  "sint (720 * Hour) = 2592000000000000"
  by (simp_all add: time_units)

lemma sint_uminus_backdate: "sint (- (5 * Minute)) = - 300000000000"
  by (simp add: time_units)

lemma sint_ttl_minus_backdate:
  assumes "600000000000 \<le> sint (ttl :: duration)" "sint ttl \<le> 2592000000000000"
  shows "sint (ttl - 5 * Minute) = sint ttl - 300000000000"
proof -
  have "sint (ttl - b) = signed_take_bit 63 (sint ttl - sint b)" for b :: duration
    by (simp add: sint_word_ariths)
  then have "sint (ttl - 5 * Minute) = signed_take_bit 63 (sint ttl - 300000000000)" by simp
  also have "\<dots> = sint ttl - 300000000000"
    by (rule signed_take_bit_int_eq_self) (use assms in simp_all)
  finally show ?thesis .
qed

definition default_ttl :: "csr_ctl \<Rightarrow> bool" where
  "default_ttl c \<longleftrightarrow> csrCertTTL c = 30 * 24 * Hour"

definition valid_period :: "certificate \<Rightarrow> bool" where
  "valid_period t \<longleftrightarrow> NotBefore t < NotAfter t \<and> NotAfter t - NotBefore t \<le> sint (30 * 24 * Hour)"

lemma duration_of_range:
  assumes "default_ttl c"
  shows "600000000000 \<le> sint (duration_of c secs)" "sint (duration_of c secs) \<le> 2592000000000000"
  using duration_of_bounds [of c secs] assms by (simp_all add: default_ttl_def)

lemma permissive_cert_valid_period:
  assumes "default_ttl c" and "permissive_cert E (sign_policy c us secs nowf) exp t"
  shows "valid_period t"
proof -
  let ?ttl = "duration_of c secs"
  note r = duration_of_range [OF assms(1), of secs]
  from assms(2) obtain now where now: "now < exp"
    and nb: "NotBefore t = now - 300000000000"
    and na: "NotAfter t = min (now + (if sint ?ttl < 28800000000000 then sint ?ttl
               else sint ?ttl - 300000000000)) exp"
    by (auto simp: permissive_cert_def sign_policy_def time_add_def sint_uminus_backdate
        sint_ttl_minus_backdate [OF r] split: if_splits)
  show ?thesis
    using now r unfolding valid_period_def nb na by (auto simp: min_def)
qed

subsection \<open>The usages of a signed certificate\<close>

definition client_certificate :: "certificate \<Rightarrow> bool" where
  "client_certificate t \<longleftrightarrow> ExtKeyUsage t = [ExtKeyUsageClientAuth] \<and>
     (\<forall>n. bit (KeyUsage t) n \<longrightarrow> n = 0 \<or> n = 2)"

lemma bit_four: "bit (4 :: 64 word) n \<longleftrightarrow> n = 2"
  using bit_exp_iff [of 2 n, where 'a = "64 word"] by auto

lemma client_usages_translate:
  assumes "validAPIServerClientUsages us = None"
    and "keyUsagesFromStrings order us = Inr (ku, exts)"
  shows "exts = [ExtKeyUsageClientAuth] \<and> (\<forall>n. bit ku n \<longrightarrow> n = 0 \<or> n = 2)"
proof -
  from assms(1) have us: "set us \<subseteq> client_usages" "UsageClientAuth \<in> set us"
    by (simp_all add: validAPIServerClientUsages_None)
  then have "ext_usages us = {ExtKeyUsageClientAuth}"
    by (force simp: ext_usages_def client_usages_def)
  with keyUsagesFromStrings_ok(1) [OF assms(2)] have "exts = [ExtKeyUsageClientAuth]" by simp
  moreover have "n = 0 \<or> n = 2" if bit: "bit ku n" for n
  proof -
    from bit keyUsagesFromStrings_ok(2) [OF assms(2)]
    obtain u v where "u \<in> set us" and v: "keyUsageDict u = Some v" "bit v n" by blast
    with us(1) have "u \<in> client_usages" by blast
    with v(1) have "v = 1 \<or> v = 4" by (auto simp: client_usages_def)
    with v(2) show ?thesis by (metis bit_1_iff bit_four)
  qed
  ultimately show ?thesis by blast
qed

subsection \<open>The contract\<close>

text \<open>A request the guards let through.\<close>

definition signable :: "env \<Rightarrow> csr_ctl \<Rightarrow> certificate_signing_request \<Rightarrow> bool" where
  "signable E c0 csr \<longleftrightarrow> (\<exists>h name. env_csrLister E h (csrListerOf c0) name = Inr csr) \<and>
     map_of (csrLabels csr) spokeClusterNameLabel \<noteq> None \<and> isApproved csr \<and>
     csrCertificate csr = [] \<and> csrSignerName csr = KubeAPIServerClientSignerName"

text \<open>The certificate answers a signable request with valid usages, for the subject and key it names.\<close>

definition certificate_for ::
  "env \<Rightarrow> certificate_signing_request \<Rightarrow> certificate \<Rightarrow> bool" where
  "certificate_for E csr t \<longleftrightarrow> (\<exists>x509cr cr. parseCSR E (csrRequest csr) = Inr x509cr \<and>
     env_parseCertificateRequest E (crRaw x509cr) = Inr cr \<and> env_checkSignature E cr = None \<and>
     keeps_identity (cert_template (SerialNumber t) cr) t)"

text \<open>The two status updates: a failed condition appended, or the PEM of a certificate stored.\<close>

definition marks_failed :: "certificate_signing_request \<Rightarrow> certificate_signing_request \<Rightarrow> bool" where
  "marks_failed csr csr' \<longleftrightarrow> (\<exists>err now. validAPIServerClientUsages (csrUsages csr) = Some err \<and>
     csr' = csr\<lparr>csrConditions := csrConditions csr @ [failed_condition err now]\<rparr>)"

definition stores_certificate ::
  "env \<Rightarrow> certificate_signing_request \<Rightarrow> certificate_signing_request \<Rightarrow> bool" where
  "stores_certificate E csr csr' \<longleftrightarrow> validAPIServerClientUsages (csrUsages csr) = None \<and>
     (\<exists>der. csr' = csr\<lparr>csrCertificate := env_pemEncode E ''CERTIFICATE'' der\<rparr>)"

text \<open>
  The signer is the one the controller was configured with: the single certificate in some
  content of its certificate file, which goes with some content of its key file that holds a
  signing key.
\<close>

definition configured_signer :: "env \<Rightarrow> csr_ctl \<Rightarrow> ca_cert \<Rightarrow> bool" where
  "configured_signer E c0 parent \<longleftrightarrow> (\<exists>h h' certPEM keyPEM k.
     env_readFile E h (csrCertFile c0) = Inr certPEM \<and> env_readFile E h' (csrKeyFile c0) = Inr keyPEM \<and>
     env_x509KeyPair E certPEM keyPEM = None \<and> env_parseCertsPEM E certPEM = Inr [parent] \<and>
     env_parsePrivateKeyPEM E keyPEM = Inr (SignerKey k))"

fun csr_allowed :: "env \<Rightarrow> csr_ctl \<Rightarrow> call \<Rightarrow> bool" where
  "csr_allowed E c0 (CreateCertificate t parent) \<longleftrightarrow>
     configured_signer E c0 parent \<and>
     bounded_by (caNotAfter parent) t \<and> valid_period t \<and> client_certificate t \<and>
     (\<exists>csr. signable E c0 csr \<and> certificate_for E csr t)"
| "csr_allowed E c0 (UpdateCSRStatus cl csr') \<longleftrightarrow> cl = csrKubeClient c0 \<and>
     (\<exists>csr. signable E c0 csr \<and> (marks_failed csr csr' \<or> stores_certificate E csr csr'))"
| "csr_allowed E c0 (CacheWrite csr') \<longleftrightarrow> (\<exists>csr. signable E c0 csr \<and> marks_failed csr csr')"
| "csr_allowed E c0 (ListerGet _ _) = True"
| "csr_allowed E c0 (ReadFile f) \<longleftrightarrow> f = csrCertFile c0 \<or> f = csrKeyFile c0"
| "csr_allowed E c0 (RandomInt n) \<longleftrightarrow> n = serialNumberLimit"
| "csr_allowed E c0 (Event _) = True"
| "csr_allowed E c0 Now = True"
| "csr_allowed E c0 _ = False"

definition csr_inv :: "env \<Rightarrow> csr_ctl \<Rightarrow> csr_ctl \<Rightarrow> bool" where
  "csr_inv E c0 c \<longleftrightarrow> default_ttl c0 \<and> c = c0\<lparr>csrCA := csrCA c\<rparr> \<and>
     (\<forall>ca. csrCA c = Some ca \<longrightarrow> configured_signer E c0 (Certificate ca))"

lemma csr_inv_fields:
  assumes "csr_inv E c0 c"
  shows "csrKubeClient c = csrKubeClient c0" "csrListerOf c = csrListerOf c0"
    "csrCertFile c = csrCertFile c0" "csrKeyFile c = csrKeyFile c0" "default_ttl c"
proof -
  from assms obtain ca where "c = c0\<lparr>csrCA := ca\<rparr>" "default_ttl c0" by (auto simp: csr_inv_def)
  then show "csrKubeClient c = csrKubeClient c0" "csrListerOf c = csrListerOf c0"
    "csrCertFile c = csrCertFile c0" "csrKeyFile c = csrKeyFile c0" "default_ttl c"
    by (simp_all add: default_ttl_def)
qed

lemma csr_inv_load:
  "csr_inv E c0 c \<Longrightarrow> configured_signer E c0 (Certificate ca) \<Longrightarrow>
     csr_inv E c0 (c\<lparr>csrCA := Some ca\<rparr>)"
  by (auto simp: csr_inv_def) (metis csr_ctl.surjective csr_ctl.update_convs(5))

lemma csr_inv_init: "default_ttl c0 \<Longrightarrow> csrCA c0 = None \<Longrightarrow> csr_inv E c0 c0"
  by (simp add: csr_inv_def)

lemma emits_readFile:
  "f = csrCertFile c0 \<or> f = csrKeyFile c0 \<Longrightarrow> emits (csr_allowed E c0) I (readFile E f)"
  by (auto simp: readFile_def intro!: emits_intros)

lemma emits_loadCertKeyPair:
  "emits (csr_allowed E c0) I (loadCertKeyPair E (csrCertFile c0) (csrKeyFile c0))"
  unfolding loadCertKeyPair_def by (auto intro!: emits_intros emits_readFile)

lemma configured_signerI:
  assumes "fst (loadCertKeyPair E (csrCertFile c0) (csrKeyFile c0) w) = Ok (cert, key)"
    and "env_parseCertsPEM E cert = Inr certs" "length certs = 1"
    and "env_parsePrivateKeyPEM E key = Inr (SignerKey k)"
  shows "configured_signer E c0 (certs ! 0)"
proof -
  from assms(3) have "certs = [certs ! 0]" by (cases certs) auto
  with loadCertKeyPair_Ok [OF assms(1)] assms(2,4) show ?thesis
    unfolding configured_signer_def by metis
qed

lemma emits_initCA: "emits (csr_allowed E c0) (csr_inv E c0) (initCA E)"
  unfolding initCA_def
proof (rule emits_getS_bind, rule emits_if, goal_cases)
  case (2 c)
  note f = csr_inv_fields [OF 2(1)]
  show ?case
    unfolding f
    by (rule emits_andThen_outcome [OF emits_loadCertKeyPair])
      (auto intro!: emits_fail emits_modifyS csr_inv_load configured_signerI
        split: sum.split private_key.split)
qed (rule emits_ret)

lemma keeps_identity_serial: "keeps_identity tmpl t \<Longrightarrow> SerialNumber t = SerialNumber tmpl"
  by (simp add: keeps_identity_def)

lemma emits_sign:
  assumes "signable E c0 csr"
    and "validAPIServerClientUsages (csrUsages csr) = None"
    and "parseCSR E (csrRequest csr) = Inr x509cr"
  shows "emits (csr_allowed E c0) (csr_inv E c0)
    (sign E x509cr (csrUsages csr) (csrExpirationSeconds csr) None)"
proof -
  have step: "emits (csr_allowed E c0) (csr_inv E c0)
      (Sign E ca (crRaw x509cr) (permissive_apply E (sign_policy c (csrUsages csr) (csrExpirationSeconds csr) None)))"
    if c: "default_ttl c" and ca: "configured_signer E c0 (Certificate ca)" for ca c
  proof (rule emits_frame)
    fix s0 :: csr_ctl
    let ?p = "sign_policy c (csrUsages csr) (csrExpirationSeconds csr) None"
    show "emits (csr_allowed E c0) (\<lambda>s. s = s0) (Sign E ca (crRaw x509cr) (permissive_apply E ?p))"
    proof (rule emits_mono [OF permissive.Sign_emits])
      fix x
      assume s: "permissive.signs_for E ?p E ca (crRaw x509cr) x"
      show "csr_allowed E c0 x"
      proof (cases x)
        case (CreateCertificate t parent)
        with s obtain cr n where t: "parent = Certificate ca"
          "bounded_by (caNotAfter parent) t" "permissive_cert E ?p (caNotAfter parent) t"
          "env_parseCertificateRequest E (crRaw x509cr) = Inr cr" "env_checkSignature E cr = None"
          "keeps_identity (cert_template n cr) t"
          by (auto simp: permissive.signs_for_def)
        from t(6) have "n = SerialNumber t"
          by (auto dest!: keeps_identity_serial simp: cert_template_def)
        with t assms(3) have "certificate_for E csr t" by (auto simp: certificate_for_def)
        moreover from t(3) have "keyUsagesFromStrings (env_mapOrder E) (csrUsages csr) =
            Inr (KeyUsage t, ExtKeyUsage t)"
          by (simp add: permissive_cert_def sign_policy_def)
        then have "client_certificate t"
          using client_usages_translate [OF assms(2)] by (auto simp: client_certificate_def)
        ultimately show ?thesis
          using CreateCertificate t(1,2) ca assms(1) permissive_cert_valid_period [OF c t(3)] by auto
      qed (use s in \<open>auto simp: permissive.signs_for_def\<close>)
    qed
  qed
  show ?thesis
    unfolding sign_def
  proof (rule emits_getS_bind)
    fix c
    assume c: "csr_inv E c0 c"
    then have ttl: "default_ttl c" by (rule csr_inv_fields)
    from c have "configured_signer E c0 (Certificate ca)" if "csrCA c = Some ca" for ca
      using that by (simp add: csr_inv_def)
    with ttl show "emits (csr_allowed E c0) (csr_inv E c0)
      (case csrCA c of None \<Rightarrow> panic ''nil pointer dereference''
        | Some ca \<Rightarrow> andThen
            (Sign E ca (crRaw x509cr)
              (permissive_apply E (sign_policy c (csrUsages csr) (csrExpirationSeconds csr) None)))
            (\<lambda>der. ret (env_pemEncode E ''CERTIFICATE'' der)))"
      by (auto intro!: emits_panic emits_ret emits_andThen step split: option.split)
  qed
qed

lemma emits_sign_and_update:
  assumes "signable E c0 csr"
    and "validAPIServerClientUsages (csrUsages csr) = None"
  shows "emits (csr_allowed E c0) (csr_inv E c0) (sign_and_update E (csrKubeClient c0) csr)"
proof -
  have upd: "emits (csr_allowed E c0) (csr_inv E c0)
      (updateCSRStatus E (csrKubeClient c0) (csr\<lparr>csrCertificate := cert\<rparr>))"
    if "fst (sign E x509cr us secs nowf w) = Ok cert" for cert x509cr us secs nowf w
  proof -
    from that obtain der where "cert = env_pemEncode E ''CERTIFICATE'' der"
      by (auto simp: sign_def prog_simps split: option.splits prod.splits outcome.splits)
    with assms have "stores_certificate E csr (csr\<lparr>csrCertificate := cert\<rparr>)"
      by (auto simp: stores_certificate_def)
    with assms(1) show ?thesis unfolding updateCSRStatus_def by (auto intro!: emits_intros)
  qed
  show ?thesis
    unfolding sign_and_update_def
    by (auto intro!: emits_intros emits_initCA emits_tryP_outcome emits_sign assms upd
        split: sum.split)
qed

lemma emits_mark_failed:
  assumes "signable E c0 csr" "validAPIServerClientUsages (csrUsages csr) = Some err"
  shows "emits (csr_allowed E c0) I (andThen (timeNow E) (\<lambda>now.
     let csr' = csr\<lparr>csrConditions := csrConditions csr @ [failed_condition err now]\<rparr> in
     andThen (emit (CacheWrite csr')) (\<lambda>_. updateCSRStatus E (csrKubeClient c0) csr')))"
proof -
  have "marks_failed csr (csr\<lparr>csrConditions := csrConditions csr @ [failed_condition err now]\<rparr>)" for now
    using assms(2) by (auto simp: marks_failed_def)
  with assms(1) show ?thesis
    unfolding updateCSRStatus_def Let_def by (intro emits_intros) auto
qed

lemma emits_csr_reconcile:
  assumes "env_csrLister E h (csrListerOf c0) name = Inr csr"
  shows "emits (csr_allowed E c0) (csr_inv E c0) (csr_reconcile E (csrKubeClient c0) csr)"
proof -
  have "signable E c0 csr" if "map_of (csrLabels csr) spokeClusterNameLabel \<noteq> None" "isApproved csr"
    "csrCertificate csr = []" "csrSignerName csr = KubeAPIServerClientSignerName"
    using assms that by (auto simp: signable_def)
  then show ?thesis
    unfolding csr_reconcile_def
    by (auto intro!: emits_ret emits_mark_failed emits_sign_and_update split: option.split)
qed

lemma csr_sync_emits: "emits (csr_allowed E c0) (csr_inv E c0) (csr_sync E name)"
  unfolding csr_sync_def
proof (rule emits_getS_bind, goal_cases)
  case (1 c)
  note f = csr_inv_fields [OF 1]
  show ?case
    unfolding f
    by (rule emits_tryP_outcome)
      (auto intro!: emits_perform emits_ret emits_fail emits_csr_reconcile dest: perform_Ok)
qed

text \<open>Over any run of the controller, every interaction is allowed.\<close>

interpretation csr_loop: reconciler "csr_sync E" "csr_inv E c0" "csr_allowed E c0"
  for E :: env and c0 :: csr_ctl
  by unfold_locales (rule csr_sync_emits)

subsection \<open>Properties\<close>

text \<open>C29: a requested expiration is clamped between ten minutes and thirty days, exactly, without overflow of the 64-bit duration.\<close>

theorem duration_of_clamped:
  assumes "default_ttl c"
  shows "sint (duration_of c (Some secs)) =
    max 600000000000 (min 2592000000000000 (sint secs * 1000000000))"
  using assms
  by (auto simp: duration_of_def Let_def default_ttl_def sint_ExpirationSecondsToDuration)

theorem duration_of_clamped_witness:
  "sint (duration_of (ctl demo_world) (Some (- 1))) = 600000000000"
  by (subst duration_of_clamped) (simp_all add: default_ttl_def demo_world_def NewCSRSigningController_def)

end
