(* ===== verification/CsrLiveness.thy ===== *)
theory CsrLiveness
  imports Retry CsrSafety
begin

section \<open>What the CSR signing controller achieves\<close>

text \<open>
  The controller never panics, and when the files, the CA and the API server answer, the request
  at any place of the work queue is signed by the time its turn is over.
\<close>

lemma csr_sync_no_panic: "fst (csr_sync E n w) \<noteq> Panic s"
proof (cases "env_csrLister E (calls w) (csrListerOf (ctl w)) n")
  case (Inl e)
  then show ?thesis by (simp add: csr_sync_def prog_simps)
next
  case (Inr csr)
  note l = csr_sync_listed [of E w n csr, OF Inr]
  show ?thesis
  proof (cases "csr_ignored csr")
    case True
    then show ?thesis by (auto simp: l csr_reconcile_def csr_ignored_def ret_def)
  next
    case False
    show ?thesis
      using sign_and_update_cases [of E "csrKubeClient (ctl w)" csr
          "w\<lparr>calls := calls w @ [ListerGet ''certificatesigningrequests'' n]\<rparr>"]
      by (auto simp: l csr_reconcile_live [OF False] prog_simps timeNow_def updateCSRStatus_def Let_def
          split: option.split sum.split)
  qed
qed

interpretation csr_crash_free: crash_free "csr_sync E" "csr_inv E c0" "csr_allowed E c0"
  for E :: env and c0 :: csr_ctl
  by unfold_locales (rule csr_sync_no_panic)

text \<open>
  Everything the signing of the request depends on is in order once the history is as long as \<open>N\<close>;
  before that the files, random numbers, x509 and the API server may fail, but not answer wrongly.
\<close>

definition signing_works ::
  "nat \<Rightarrow> env \<Rightarrow> csr_ctl \<Rightarrow> certificate_signing_request \<Rightarrow> cert_request \<Rightarrow> ca_cert \<Rightarrow> bool" where
  "signing_works N E c0 csr cr ca \<longleftrightarrow> (\<exists>certPEM keyPEM k x509cr.
     (\<forall>h pem. env_readFile E h (csrCertFile c0) = Inr pem \<longrightarrow> pem = certPEM) \<and> certPEM \<noteq> [] \<and>
     (\<forall>h pem. env_readFile E h (csrKeyFile c0) = Inr pem \<longrightarrow> pem = keyPEM) \<and> keyPEM \<noteq> [] \<and>
     env_x509KeyPair E certPEM keyPEM = None \<and> env_parseCertsPEM E certPEM = Inr [ca] \<and>
     env_parsePrivateKeyPEM E keyPEM = Inr (SignerKey k) \<and>
     parseCSR E (csrRequest csr) = Inr x509cr \<and>
     env_parseCertificateRequest E (crRaw x509cr) = Inr cr) \<and>
     env_checkSignature E cr = None \<and>
     (\<forall>h. env_now E h < caNotAfter ca) \<and>
     (\<forall>h. N \<le> length h \<longrightarrow>
        (\<exists>pem. env_readFile E h (csrCertFile c0) = Inr pem) \<and>
        (\<exists>pem. env_readFile E h (csrKeyFile c0) = Inr pem) \<and>
        (\<exists>n. env_randomInt E h serialNumberLimit = Inr n) \<and>
        (\<forall>t key. \<exists>der. env_createCertificate E h t ca (crPublicKey cr) key = Inr der) \<and>
        (\<forall>csr'. env_updateCSRStatus E h (csrKubeClient c0) csr' = None))"

lemma client_usages_recognized:
  "validAPIServerClientUsages us = None \<Longrightarrow> u \<in> set us \<Longrightarrow> recognized u"
  by (auto simp: validAPIServerClientUsages_None client_usages_def recognized_def)

lemma Sign_works:
  assumes "env_parseCertificateRequest E crDER = Inr cr" "env_checkSignature E cr = None"
    and "N \<le> length (calls w)" "\<And>h. N \<le> length h \<Longrightarrow> \<exists>n. env_randomInt E h serialNumberLimit = Inr n"
    and "\<And>h. env_now E h < caNotAfter (Certificate ca)"
    and "\<And>h t key. N \<le> length h \<Longrightarrow> \<exists>der. env_createCertificate E h t (Certificate ca) (crPublicKey cr) key = Inr der"
    and "PolicyNow p = None" "\<forall>u \<in> set (Usages p). recognized u" "0 \<le> sint (Backdate p)" "sint (- Backdate p) = - sint (Backdate p)"
  shows "\<exists>der w'. Sign E ca crDER (permissive_apply E p) w = (Ok der, w')"
proof -
  let ?exp = "caNotAfter (Certificate ca)"
  obtain sn where sn: "env_randomInt E (calls w) serialNumberLimit = Inr sn" using assms(3,4) by blast
  let ?w1 = "w\<lparr>calls := calls w @ [RandomInt serialNumberLimit]\<rparr>"
  have "\<not> (\<exists>e. permissive_check (env_mapOrder E) p (env_now E (calls ?w1)) (cert_template sn cr) ?exp = Inl e)"
    using assms(5) [of "calls ?w1"] assms(8-10)
    by (simp add: permissive_check_error time_add_def not_le)
  then obtain t where "permissive_check (env_mapOrder E) p (env_now E (calls ?w1)) (cert_template sn cr) ?exp = Inr t"
    by (cases "permissive_check (env_mapOrder E) p (env_now E (calls ?w1)) (cert_template sn cr) ?exp") auto
  with permissive_apply_shape [of E p "cert_template sn cr" ?exp ?w1] assms(7) obtain w2 cs where
    a: "permissive_apply E p (cert_template sn cr) ?exp ?w1 = (Ok t, w2)" "calls w2 = calls ?w1 @ cs" by auto
  obtain der where "env_createCertificate E (calls w2) t (Certificate ca) (crPublicKey cr) (PrivateKey ca) = Inr der"
    using assms(3) assms(6) [of "calls w2"] a(2) by auto
  with a(1) show ?thesis by (simp add: Sign_def prog_simps assms(1,2) sn)
qed

lemma configured_signer_unique:
  assumes "signing_works N E c0 csr cr ca" "configured_signer E c0 ca'"
  shows "ca' = ca"
  using assms by (auto simp: signing_works_def configured_signer_def)

lemma initCA_works:
  assumes "signing_works N E c0 csr cr ca" "csr_inv E c0 (ctl w)" "N \<le> length (calls w)"
  obtains w' caR where "initCA E w = (Ok (), w')" "csr_inv E c0 (ctl w')"
    "csrCA (ctl w') = Some caR" "Certificate caR = ca" "N \<le> length (calls w')"
proof -
  note f = csr_inv_fields [OF assms(2)]
  have "fst (initCA E w) = Ok ()"
  proof (cases "csrCA (ctl w)")
    case None
    from assms(1) obtain certPEM keyPEM k where
      r: "\<And>h. N \<le> length h \<Longrightarrow> env_readFile E h (csrCertFile c0) = Inr certPEM" "certPEM \<noteq> []"
      "\<And>h. N \<le> length h \<Longrightarrow> env_readFile E h (csrKeyFile c0) = Inr keyPEM" "keyPEM \<noteq> []"
      "env_x509KeyPair E certPEM keyPEM = None" "env_parseCertsPEM E certPEM = Inr [ca]"
      "env_parsePrivateKeyPEM E keyPEM = Inr (SignerKey k)"
      unfolding signing_works_def by metis
    with None assms(3) show ?thesis
      by (simp add: f initCA_def loadCertKeyPair_def readFile_def prog_simps)
  qed (simp add: initCA_cached)
  then obtain w' where i: "initCA E w = (Ok (), w')" by (cases "initCA E w") simp
  have inv: "csr_inv E c0 (ctl w')" using emitsD(1) [OF emits_initCA assms(2)] i by force
  from initCA_Ok [OF i] obtain caR where c: "csrCA (ctl w') = Some caR" by blast
  with inv have "configured_signer E c0 (Certificate caR)" by (simp add: csr_inv_def)
  with assms(1) have "Certificate caR = ca" by (rule configured_signer_unique)
  moreover have "N \<le> length (calls w')" using assms(3) initCA_Ok [OF i] by auto
  ultimately show thesis using i inv c that by blast
qed

lemma sign_and_update_works:
  assumes s: "signing_works N E c0 csr cr ca" and inv: "csr_inv E c0 (ctl w)" "N \<le> length (calls w)"
    and us: "validAPIServerClientUsages (csrUsages csr) = None"
  shows "\<exists>w'. sign_and_update E (csrKubeClient c0) csr w = (Ok (), w')"
proof -
  from initCA_works [OF s inv] obtain w1 caR where i: "initCA E w = (Ok (), w1)"
    "csr_inv E c0 (ctl w1)" "csrCA (ctl w1) = Some caR" "Certificate caR = ca" "N \<le> length (calls w1)" .
  from s obtain x509cr where x: "parseCSR E (csrRequest csr) = Inr x509cr"
    "env_parseCertificateRequest E (crRaw x509cr) = Inr cr" by (auto simp: signing_works_def)
  let ?p = "sign_policy (ctl w1) (csrUsages csr) (csrExpirationSeconds csr) None"
  have "\<exists>der w'. Sign E caR (crRaw x509cr) (permissive_apply E ?p) w1 = (Ok der, w')"
    by (rule Sign_works [OF x(2) _ i(5)])
      (use s client_usages_recognized [OF us] i(4) in
        \<open>auto simp: signing_works_def sign_policy_def sint_uminus_backdate\<close>)
  then obtain der w2 where "Sign E caR (crRaw x509cr) (permissive_apply E ?p) w1 = (Ok der, w2)" by blast
  moreover from this have "length (calls w1) \<le> length (calls w2)"
    using Sign_cases [of E caR "crRaw x509cr" ?p w1] by auto
  moreover from s have "env_updateCSRStatus E h (csrKubeClient c0) csr' = None" if "N \<le> length h" for h csr'
    using that by (simp add: signing_works_def)
  ultimately show ?thesis
    using i(5) by (simp add: sign_and_update_def i(1,3) x(1) sign_def updateCSRStatus_def prog_simps)
qed

text \<open>A controller with two waiting requests.\<close>

definition demo_csr_controller :: "csr_ctl controller" where
  "demo_csr_controller = NewCSRSigningController ''ws'' ''tls.crt'' ''tls.key'' (Kcp ''kcp'') (KubeInformer (Kcp ''kcp''))"

definition demo_queue :: "csr_ctl worker" where
  "demo_queue = eventHandler (ctrlFilter demo_csr_controller) ''csr1''
     (eventHandler (ctrlFilter demo_csr_controller) ''csr0'' (new_worker demo_csr_controller))"

lemma demo_queue_run: "worker_run demo_csr_controller (csr_sync E) demo_queue"
  unfolding demo_queue_def by (intro worker_run.event worker_run.start)

lemma demo_queue_waiting: "wqueue demo_queue = [''csr0'', ''csr1'']"
  by (simp add: demo_queue_def eventHandler_def queue_add_def new_worker_def demo_csr_controller_def
      NewCSRSigningController_def)

lemma demo_signing_works: "signing_works N (demo_env demo_csr) (ctrlState demo_csr_controller) demo_csr demo_request demo_ca"
  by (simp add: signing_works_def demo_csr_controller_def demo_defs demo_ca_def demo_request_def parseCSR_def)

text \<open>The request has been signed by the CA, its status updated and the event recorded.\<close>

definition signed_in :: "env \<Rightarrow> cluster \<Rightarrow> certificate_signing_request \<Rightarrow> ca_cert \<Rightarrow> history \<Rightarrow> bool" where
  "signed_in E cl csr ca h \<longleftrightarrow> (\<exists>pre t der post. h = pre @ signed_calls E cl csr t ca der @ post)"

lemma signed_in_append: "signed_in E cl csr ca h \<Longrightarrow> signed_in E cl csr ca (h @ h')"
  unfolding signed_in_def by (metis append_assoc)

text \<open>A request that can be signed, however long the outage.\<close>

definition csr_target :: "nat \<Rightarrow> env \<Rightarrow> csr_ctl \<Rightarrow> string \<Rightarrow> certificate_signing_request \<Rightarrow> ca_cert \<Rightarrow> bool" where
  "csr_target N E c0 n csr ca \<longleftrightarrow> (\<forall>h. env_csrLister E h (csrListerOf c0) n = Inr csr) \<and>
     \<not> csr_ignored csr \<and> validAPIServerClientUsages (csrUsages csr) = None \<and> (\<exists>cr. signing_works N E c0 csr cr ca)"

lemma csr_target_sync:
  assumes "csr_target N E c0 n csr ca" "csr_inv E c0 (ctl w)"
  shows "csr_sync E n w = sign_and_update E (csrKubeClient c0) csr
    (w\<lparr>calls := calls w @ [ListerGet ''certificatesigningrequests'' n]\<rparr>)"
  using assms csr_sync_listed [of E w n csr]
  by (auto simp: csr_target_def csr_inv_fields [OF assms(2)] csr_reconcile_live)

lemma csr_sync_calls:
  assumes "csr_inv E c0 (ctl w)"
  shows "length (calls w) < length (calls (snd (csr_sync E k w)))"
proof -
  note f = csr_inv_fields [OF assms]
  show ?thesis
    unfolding csr_sync_def andThen_getS f
    by (rule perform_calls [OF _ emits_csr_reconcile assms]) (auto intro!: emits_ret emits_fail)
qed

interpretation csr_outage: outage "csr_sync E" "\<lambda>w. csr_inv E c0 (ctl w) \<and> csr_target N E c0 n csr ca" n
  "\<lambda>w. signed_in E (csrKubeClient c0) csr ca (calls w)" N for E c0 n csr ca N
proof (unfold_locales, goal_cases)
  case (1 w k)
  then show ?case using emitsD(1) [OF csr_sync_emits] by blast
next
  case (2 w k s)
  show ?case by (rule csr_sync_no_panic)
next
  case (3 w k)
  then show ?case by (blast intro: csr_sync_calls)
next
  case (4 w e)
  then obtain cr where "signing_works N E c0 csr cr ca" "validAPIServerClientUsages (csrUsages csr) = None"
    by (auto simp: csr_target_def)
  from sign_and_update_works [OF this(1) _ _ this(2), of "w\<lparr>calls := calls w @ [ListerGet ''certificatesigningrequests'' n]\<rparr>"] 4
  show ?case by (auto simp: csr_target_sync)
next
  case (5 w u)
  let ?w' = "w\<lparr>calls := calls w @ [ListerGet ''certificatesigningrequests'' n]\<rparr>"
  from 5 sign_and_update_cases [of E "csrKubeClient c0" csr ?w'] obtain w1 caR t der cs where
    ok: "csr_sync E n w = (Ok (), w1)" and c: "csrCA (ctl w1) = Some caR"
    "calls w1 = calls ?w' @ cs @ signed_calls E (csrKubeClient c0) csr t (Certificate caR) der"
    by (auto simp: csr_target_sync)
  have "csr_inv E c0 (ctl (snd (csr_sync E n w)))" using 5 emitsD(1) [OF csr_sync_emits] by blast
  with c(1) ok have "configured_signer E c0 (Certificate caR)" by (simp add: csr_inv_def)
  with 5 have "Certificate caR = ca" by (auto simp: csr_target_def intro: configured_signer_unique)
  with c(2) have "calls w1 = (calls ?w' @ cs) @ signed_calls E (csrKubeClient c0) csr t ca der @ []" by simp
  then show ?case unfolding signed_in_def ok snd_conv by blast
next
  case (6 w k)
  then obtain cs where "calls (snd (csr_sync E k w)) = calls w @ cs" using emitsD(1) [OF csr_sync_emits] by blast
  with 6 show ?case by (simp add: signed_in_append)
qed

text \<open>A signable request at any place of the work queue ends with a certificate signed by the configured CA, stored in its status and recorded as an event, when the requests before it and its own have had their turn, provided the files, the CA and the API server answer.\<close>

lemma csr_signed_in_turn:
  assumes "worker_run (NewCSRSigningController ws cf kf cl ifr) (csr_sync E) wk"
    and "k < length (wqueue wk)"
    and "\<And>h. env_csrLister E h ifr (wqueue wk ! k) = Inr csr"
    and "\<not> csr_ignored csr" "validAPIServerClientUsages (csrUsages csr) = None"
    and "signing_works 0 E (ctrlState (NewCSRSigningController ws cf kf cl ifr)) csr cr ca"
  shows "\<exists>pre t der. calls (wworld (work_items (csr_sync E) (Suc k) wk)) = pre @ signed_calls E cl csr t ca der"
proof -
  let ?c0 = "ctrlState (NewCSRSigningController ws cf kf cl ifr)" and ?wk = "work_items (csr_sync E) k wk"
  let ?n = "wqueue wk ! k" and ?w = "wworld ?wk"
  have init: "csr_inv E ?c0 ?c0"
    by (rule csr_inv_init) (simp_all add: NewCSRSigningController_def default_ttl_def)
  have inv: "csr_inv E ?c0 (ctl ?w)"
    using csr_loop.worker_sound [OF csr_crash_free.work_items_run [OF assms(1) init] init] by blast
  have cl: "csrKubeClient ?c0 = cl" "csrListerOf ?c0 = ifr" by (simp_all add: NewCSRSigningController_def)
  note f = csr_inv_fields [OF inv, unfolded cl]
  from work_items_head [OF assms(2)] obtain rest where q: "wqueue ?wk = ?n # rest" by blast
  let ?w' = "?w\<lparr>calls := calls ?w @ [ListerGet ''certificatesigningrequests'' ?n]\<rparr>"
  have eq: "csr_sync E ?n ?w = sign_and_update E cl csr ?w'"
    using csr_sync_listed [of E ?w ?n csr] assms(3-5) by (simp add: f csr_reconcile_live)
  from sign_and_update_works [OF assms(6) _ _ assms(5), of ?w'] inv obtain w1 where
    ok: "sign_and_update E cl csr ?w' = (Ok (), w1)" by (auto simp: cl)
  with sign_and_update_cases [of E cl csr ?w'] obtain caR t der cs where
    c: "csrCA (ctl w1) = Some caR" "calls w1 = calls ?w' @ cs @ signed_calls E cl csr t (Certificate caR) der"
    by auto
  have "csr_inv E ?c0 (ctl (snd (csr_sync E ?n ?w)))"
    by (rule emitsD(1) [OF csr_sync_emits inv])
  with c(1) have "configured_signer E ?c0 (Certificate caR)" by (simp add: eq ok csr_inv_def)
  then have "Certificate caR = ca" by (rule configured_signer_unique [OF assms(6)])
  moreover have "wworld (work_items (csr_sync E) (Suc k) wk) = w1"
    using q by (simp add: processNextWorkItem_world eq ok)
  ultimately show ?thesis using c(2) by (metis append_assoc)
qed

subsection \<open>Properties\<close>


text \<open>The API server refuses every status update of the first four calls.\<close>

definition demo_outage_env :: env where
  "demo_outage_env = (demo_env demo_csr)\<lparr>env_updateCSRStatus := \<lambda>h _ _. if length h < 4 then Some down else None\<rparr>"

lemma demo_outage_works: "signing_works 4 demo_outage_env (ctrlState demo_csr_controller) demo_csr demo_request demo_ca"
  by (simp add: demo_outage_env_def signing_works_def demo_csr_controller_def demo_defs demo_ca_def demo_request_def parseCSR_def)


end
