(* ===== verification/Scheme.thy ===== *)
theory Scheme
  imports Apply
begin

section \<open>The scheme (pkg/helpers)\<close>

text \<open>
  The types the package registers with its scheme, from the registration functions of the API
  packages, and what a manifest says about its type. The decoder itself is a parameter; what the
  code relies on is that it makes an object of the kind the manifest names, if that kind is
  registered.
\<close>

type_synonym group_version = "string \<times> string"
type_synonym scheme = "(group_version \<times> string) list"

text \<open>\<^verbatim>\<open>schema.ParseGroupVersion\<close>\<close>

definition ParseGroupVersion :: "string \<Rightarrow> go_error + group_version" where
  "ParseGroupVersion gv =
     (if length gv = 0 \<or> gv = ''/'' then Inr ([], [])
      else (case split_on CHR ''/'' gv of
          [v] \<Rightarrow> Inr ([], v)
        | [g, v] \<Rightarrow> Inr (g, v)
        | _ \<Rightarrow> Inl (Errorf ''unexpected GroupVersion string: %v'' [AStr gv])))"

definition AddKnownTypes :: "group_version \<Rightarrow> string list \<Rightarrow> scheme \<Rightarrow> scheme" where
  "AddKnownTypes gv kinds scheme = scheme @ map (Pair gv) kinds"

text \<open>\<^verbatim>\<open>metav1.AddToGroupVersion\<close>\<close>

definition AddToGroupVersion :: "group_version \<Rightarrow> scheme \<Rightarrow> scheme" where
  "AddToGroupVersion gv scheme =
     AddKnownTypes ([], ''v1'') [''Status'', ''APIVersions'', ''APIGroupList'', ''APIGroup'', ''APIResourceList'']
       (AddKnownTypes gv [''ListOptions'', ''GetOptions'', ''DeleteOptions'', ''CreateOptions'', ''UpdateOptions'',
            ''PatchOptions'']
         (AddKnownTypes (fst gv, ''__internal'') [''WatchEvent''] (AddKnownTypes gv [''WatchEvent''] scheme)))"

definition core_AddToScheme :: "scheme \<Rightarrow> scheme" where
  "core_AddToScheme scheme =
     (let gv = ([], ''v1'') in AddToGroupVersion gv (AddKnownTypes gv [''Status''] (AddKnownTypes gv
       [''Pod'', ''PodList'', ''PodStatusResult'', ''PodTemplate'', ''PodTemplateList'', ''ReplicationController'',
        ''ReplicationControllerList'', ''Service'', ''ServiceProxyOptions'', ''ServiceList'', ''Endpoints'',
        ''EndpointsList'', ''Node'', ''NodeList'', ''NodeProxyOptions'', ''Binding'', ''Event'', ''EventList'',
        ''List'', ''LimitRange'', ''LimitRangeList'', ''ResourceQuota'', ''ResourceQuotaList'', ''Namespace'',
        ''NamespaceList'', ''Secret'', ''SecretList'', ''ServiceAccount'', ''ServiceAccountList'',
        ''PersistentVolume'', ''PersistentVolumeList'', ''PersistentVolumeClaim'', ''PersistentVolumeClaimList'',
        ''PodAttachOptions'', ''PodLogOptions'', ''PodExecOptions'', ''PodPortForwardOptions'', ''PodProxyOptions'',
        ''ComponentStatus'', ''ComponentStatusList'', ''SerializedReference'', ''RangeAllocation'', ''ConfigMap'',
        ''ConfigMapList''] scheme)))"

definition rbac_AddToScheme :: "scheme \<Rightarrow> scheme" where
  "rbac_AddToScheme scheme = (let gv = (''rbac.authorization.k8s.io'', ''v1'') in AddToGroupVersion gv
     (AddKnownTypes gv [''Role'', ''RoleBinding'', ''RoleBindingList'', ''RoleList'', ''ClusterRole'',
        ''ClusterRoleBinding'', ''ClusterRoleBindingList'', ''ClusterRoleList''] scheme))"

definition admission_AddToScheme :: "scheme \<Rightarrow> scheme" where
  "admission_AddToScheme scheme = (let gv = (''admissionregistration.k8s.io'', ''v1'') in AddToGroupVersion gv
     (AddKnownTypes gv [''ValidatingWebhookConfiguration'', ''ValidatingWebhookConfigurationList'',
        ''MutatingWebhookConfiguration'', ''MutatingWebhookConfigurationList''] scheme))"

definition operator_AddToScheme :: "scheme \<Rightarrow> scheme" where
  "operator_AddToScheme scheme = (let gv = (''operator.open-cluster-management.io'', ''v1'') in AddToGroupVersion gv
     (AddKnownTypes gv [''ClusterManager'', ''ClusterManagerList'', ''Klusterlet'', ''KlusterletList''] scheme))"

definition genericScheme :: scheme where
  "genericScheme = operator_AddToScheme (admission_AddToScheme (rbac_AddToScheme (core_AddToScheme [])))"

subsection \<open>The type a manifest names\<close>

definition strip :: "string \<Rightarrow> string \<Rightarrow> string option" where
  "strip p s = (if prefix p s then Some (drop (length p) s) else None)"

text \<open>From the first two lines of the text, in either order.\<close>

definition header_type :: "string \<Rightarrow> string \<Rightarrow> (string \<times> string) option" where
  "header_type l1 l2 = (case (strip ''apiVersion: '' l1, strip ''kind: '' l2) of
      (Some a, Some k) \<Rightarrow> Some (a, k)
    | _ \<Rightarrow> (case (strip ''apiVersion: '' l2, strip ''kind: '' l1) of
          (Some a, Some k) \<Rightarrow> Some (a, k)
        | _ \<Rightarrow> None))"

definition type_meta :: "string \<Rightarrow> (string \<times> string) option" where
  "type_meta buf = (case split_on newline buf of l1 # l2 # _ \<Rightarrow> header_type l1 l2 | _ \<Rightarrow> None)"

fun manifest_type :: "template \<Rightarrow> (string \<times> string) option" where
  "manifest_type ([Lit l1] # [Lit l2] # _) =
     (if newline \<in> set l1 \<union> set l2 then None else header_type l1 l2)"
| "manifest_type _ = None"

text \<open>The type of the rendered text is the type of the template, whatever the values are.\<close>

lemma type_meta_render:
  assumes "manifest_type tb = Some t" "render config tb = Some buf"
  shows "type_meta buf = Some t"
  using assms
proof (induction tb rule: manifest_type.induct)
  case (1 l1 l2 rest)
  then obtain r where "buf = l1 @ newline # l2 @ newline # r"
    by (auto split: option.splits)
  with 1 show ?case by (auto simp: type_meta_def split_on_append split: if_splits)
qed simp_all

definition registered :: "string \<times> string \<Rightarrow> bool" where
  "registered t = (case ParseGroupVersion (fst t) of Inl _ \<Rightarrow> False | Inr gv \<Rightarrow> (gv, snd t) \<in> set genericScheme)"

subsection \<open>The decoder\<close>

text \<open>The kinds the type switch of \<open>ApplyObjects\<close> has a case for, and the kind of an object of one of them.\<close>

definition applied_kinds :: "string list" where
  "applied_kinds = [''Namespace'', ''ConfigMap'', ''Secret'', ''Service'', ''ClusterRole'', ''ClusterRoleBinding'',
     ''MutatingWebhookConfiguration'', ''ValidatingWebhookConfiguration'', ''ClusterManager'']"

fun object_kind :: "kube_object \<Rightarrow> string option" where
  "object_kind (Namespace _) = Some ''Namespace''"
| "object_kind (ConfigMap _) = Some ''ConfigMap''"
| "object_kind (Secret _) = Some ''Secret''"
| "object_kind (Service _) = Some ''Service''"
| "object_kind (ClusterRole _) = Some ''ClusterRole''"
| "object_kind (ClusterRoleBinding _) = Some ''ClusterRoleBinding''"
| "object_kind (MutatingWebhookConfiguration _) = Some ''MutatingWebhookConfiguration''"
| "object_kind (ValidatingWebhookConfiguration _) = Some ''ValidatingWebhookConfiguration''"
| "object_kind (ClusterManager _) = Some ''ClusterManager''"
| "object_kind (OtherObject _ _) = None"

lemma object_kind_cases:
  "object_kind obj = Some ''Namespace'' \<longleftrightarrow> (\<exists>m. obj = Namespace m)"
  "object_kind obj = Some ''Secret'' \<longleftrightarrow> (\<exists>m. obj = Secret m)"
  "object_kind obj = Some ''Service'' \<longleftrightarrow> (\<exists>m. obj = Service m)"
  "object_kind obj = Some ''ClusterManager'' \<longleftrightarrow> (\<exists>cm. obj = ClusterManager cm)"
  by (cases obj; simp)+

text \<open>
  What the code relies on: text that names a registered type, if it decodes, makes an object of
  that type.
\<close>

definition scheme_decoder :: "env \<Rightarrow> bool" where
  "scheme_decoder E \<longleftrightarrow> (\<forall>buf t obj. type_meta buf = Some t \<longrightarrow> registered t \<longrightarrow>
     env_decode E buf = Some obj \<longrightarrow> object_kind obj = (if snd t \<in> set applied_kinds then Some (snd t) else None))"

text \<open>A file that names a type with a case in the switch, and the kinds of the objects made of such files.\<close>

definition file_kind :: "manifest_fs \<Rightarrow> string \<Rightarrow> string option" where
  "file_kind fs n = (case fs n of None \<Rightarrow> None | Some tb \<Rightarrow> (case manifest_type tb of
      None \<Rightarrow> None | Some t \<Rightarrow> if registered t \<and> snd t \<in> set applied_kinds then Some (snd t) else None))"

lemma file_kind_Some:
  "file_kind fs n = Some k \<longleftrightarrow> (\<exists>tb t. fs n = Some tb \<and> manifest_type tb = Some t \<and> registered t \<and>
     snd t \<in> set applied_kinds \<and> k = snd t)"
  by (auto simp: file_kind_def split: option.splits if_splits)

lemma created_kind:
  assumes "scheme_decoder E" "creates E fs config n obj" "file_kind fs n = Some k"
  shows "object_kind obj = Some k"
proof -
  from assms(2) obtain tb buf where r: "fs n = Some tb" "render config tb = Some buf" "env_decode E buf = Some obj"
    by (auto simp: creates_def)
  with assms(3) obtain t where t: "manifest_type tb = Some t" "registered t" "snd t \<in> set applied_kinds" "k = snd t"
    by (auto simp: file_kind_Some)
  from type_meta_render [OF t(1) r(2)] assms(1) r(3) t(2-4) show ?thesis by (cases t) (auto simp: scheme_decoder_def)
qed

lemma created_kinds:
  assumes "scheme_decoder E" "create_objects E fs config names = Ok objs"
    and "map (file_kind fs) names = map Some ks"
  shows "map object_kind objs = map Some ks"
proof -
  have "list_all2 (creates E fs config) names objs" using assms(2) by (simp add: create_objects_Ok_iff)
  then show ?thesis
    using assms(3)
  proof (induction names objs arbitrary: ks rule: list_all2_induct)
    case (Cons n names obj objs)
    then obtain k ks' where "ks = k # ks'" by (cases ks) auto
    with Cons created_kind [OF assms(1)] show ?case by auto
  qed simp
qed

text \<open>Without a cluster manager client it is enough that the manifests decode.\<close>

lemma decodes_no_manager:
  assumes "scheme_decoder E" "file_kind fs n = Some k" "k \<noteq> ''ClusterManager''" "decodes E HubClient fs config n"
  shows "decodes E NilClient fs config n"
  unfolding decodes_def
proof (intro allI impI)
  fix tb buf
  assume r: "fs n = Some tb" "render config tb = Some buf"
  with assms(4) obtain obj where obj: "env_decode E buf = Some obj" by (auto simp: decodes_def)
  with r have "creates E fs config n obj" by (auto simp: creates_def)
  from created_kind [OF assms(1) this assms(2)] assms(3) have "obj \<noteq> ClusterManager cm" for cm by auto
  with obj show "\<exists>obj. env_decode E buf = Some obj \<and> (NilClient = NilClient \<longrightarrow> (\<forall>cm. obj \<noteq> ClusterManager cm))"
    by blast
qed

text \<open>A file that is found, renders with the given values, and then names the kind.\<close>

definition renders_as :: "manifest_fs \<Rightarrow> (string \<times> string) list \<Rightarrow> string \<Rightarrow> string \<Rightarrow> bool" where
  "renders_as fs config n k = (case fs n of None \<Rightarrow> False | Some tb \<Rightarrow> (case render config tb of
      None \<Rightarrow> False | Some buf \<Rightarrow> (case type_meta buf of
          None \<Rightarrow> False | Some t \<Rightarrow> registered t \<and> snd t \<in> set applied_kinds \<and> snd t = k)))"

lemma renders_as_kind:
  assumes "renders fs config n" "file_kind fs n = Some k"
  shows "renders_as fs config n k"
proof -
  from assms(1) obtain tb buf where r: "fs n = Some tb" "render config tb = Some buf"
    by (auto simp: renders_def split: option.splits)
  with assms(2) obtain t where t: "manifest_type tb = Some t" "registered t" "snd t \<in> set applied_kinds" "k = snd t"
    by (auto simp: file_kind_Some)
  with r type_meta_render [OF t(1) r(2)] show ?thesis by (simp add: renders_as_def)
qed

lemma renders_as_kinds:
  "list_all (renders fs config) names \<Longrightarrow> map (file_kind fs) names = map Some ks \<Longrightarrow>
     list_all2 (renders_as fs config) names ks"
proof (induction names arbitrary: ks)
  case (Cons n names)
  then show ?case by (cases ks) (auto intro: renders_as_kind)
qed simp

lemma decodes_no_manager_all:
  assumes "scheme_decoder E" "map (file_kind fs) names = map Some ks" "''ClusterManager'' \<notin> set ks"
    and "list_all (decodes E HubClient fs config) names"
  shows "list_all (decodes E NilClient fs config) names"
  using assms(2-4)
proof (induction names arbitrary: ks)
  case (Cons n names)
  then show ?case by (cases ks) (auto intro: decodes_no_manager [OF assms(1)])
qed simp

text \<open>A decoder as the scheme describes it.\<close>

definition demo_object_of :: "string \<Rightarrow> kube_object" where
  "demo_object_of k = (let m = \<lparr>objNamespace = [], objName = [], objContent = []\<rparr> in
     if k = ''Namespace'' then Namespace m else if k = ''ConfigMap'' then ConfigMap m
     else if k = ''Secret'' then Secret m else if k = ''Service'' then Service m
     else if k = ''ClusterRole'' then ClusterRole m else if k = ''ClusterRoleBinding'' then ClusterRoleBinding m
     else if k = ''MutatingWebhookConfiguration'' then MutatingWebhookConfiguration m
     else if k = ''ValidatingWebhookConfiguration'' then ValidatingWebhookConfiguration m
     else if k = ''ClusterManager'' then ClusterManager
       \<lparr>cmName = ''cm'', cmAnnotations = [], cmSpec = [], cmOther = [], cmConditions = []\<rparr>
     else OtherObject k m)"

definition demo_decoder :: "string \<Rightarrow> kube_object option" where
  "demo_decoder buf = (case type_meta buf of None \<Rightarrow> None
     | Some t \<Rightarrow> if registered t then Some (demo_object_of (snd t)) else None)"

lemma demo_object_of_kind:
  "object_kind (demo_object_of k) = (if k \<in> set applied_kinds then Some k else None)"
  by (simp add: demo_object_of_def applied_kinds_def)

lemma demo_scheme_decoder: "env_decode E = demo_decoder \<Longrightarrow> scheme_decoder E"
  by (auto simp: scheme_decoder_def demo_decoder_def demo_object_of_kind split: option.splits if_splits)

lemma demo_decoder_decodes:
  assumes "env_decode E = demo_decoder" "file_kind fs n = Some k"
  shows "decodes E HubClient fs config n"
proof -
  from assms(2) obtain tb t where t: "fs n = Some tb" "manifest_type tb = Some t" "registered t"
    by (auto simp: file_kind_Some)
  with type_meta_render [OF t(2)] assms(1) show ?thesis by (auto simp: decodes_def demo_decoder_def)
qed

lemma demo_decoder_decodes_all:
  "env_decode E = demo_decoder \<Longrightarrow> map (file_kind fs) names = map Some ks \<Longrightarrow>
     list_all (decodes E HubClient fs config) names"
proof (induction names arbitrary: ks)
  case (Cons n names)
  then show ?case by (cases ks) (auto intro: demo_decoder_decodes)
qed simp

end
