(* ===== verification/ManagedCluster.thy ===== *)
theory ManagedCluster
  imports Apply Factory
begin

section \<open>The managed cluster controller (workspace/managedcluster.go)\<close>

text \<open>
  For each managed cluster of a hub workspace the controller applies the RBAC objects that let
  the cluster's agents into the organization workspace (on the kcp root) and into the hub
  workspace (on the organization workspace).
\<close>

definition orgWorkspaceAuthorizerFiles :: "string list" where
  "orgWorkspaceAuthorizerFiles =
    [''manifests/workspace/org-workspace-clusterrole.yaml'',
     ''manifests/workspace/org-workspace-clusterrolebinding.yaml'']"

definition hubWorkspaceAuthorizerFiles :: "string list" where
  "hubWorkspaceAuthorizerFiles =
    [''manifests/workspace/hub-workspace-clusterrole.yaml'',
     ''manifests/workspace/hub-workspace-clusterrolebinding.yaml'']"

record managed_cluster_ctl =
  mcOrgWorkspaceName :: string
  mcWorkspaceName :: string
  mcKcpRestConfig :: rest_config
  mcClusterLister :: informer

definition NewClusterController ::
  "string \<Rightarrow> string \<Rightarrow> rest_config \<Rightarrow> informer \<Rightarrow> managed_cluster_ctl controller" where
  "NewClusterController orgWorkspaceName workspaceName kcpRestConfig clusterInformer =
     \<lparr>ctrlName = ''syncer-cluster-controller'', ctrlFilter = (\<lambda>_. True),
      ctrlState = \<lparr>mcOrgWorkspaceName = orgWorkspaceName, mcWorkspaceName = workspaceName,
        mcKcpRestConfig = kcpRestConfig, mcClusterLister = clusterInformer\<rparr>\<rparr>"

definition org_config :: "managed_cluster_ctl \<Rightarrow> string \<Rightarrow> config" where
  "org_config c clusterName =
     [(''OrgWorkspaceName'', mcOrgWorkspaceName c), (''ClusterName'', clusterName)]"

definition prepareOrgWorkspaceAuthorizers :: "env \<Rightarrow> string \<Rightarrow> (managed_cluster_ctl, unit) go" where
  "prepareOrgWorkspaceAuthorizers E clusterName = andThen getS (\<lambda>c.
     andThen (newForConfig E (mcKcpRestConfig c)) (\<lambda>kcpRootKubeClient.
     ApplyObjects E kcpRootKubeClient NilClient workspace_manifestFiles
       (org_config c clusterName) orgWorkspaceAuthorizerFiles))"

definition org_host :: "managed_cluster_ctl \<Rightarrow> string" where
  "org_host c = Host (mcKcpRestConfig c) @ '':'' @ mcOrgWorkspaceName c"

definition hub_config :: "managed_cluster_ctl \<Rightarrow> string \<Rightarrow> config" where
  "hub_config c clusterName =
     [(''OrgWorkspaceName'', mcOrgWorkspaceName c), (''WorkspaceName'', mcWorkspaceName c),
      (''ClusterName'', clusterName)]"

definition prepareHubWorkspaceAuthorizers :: "env \<Rightarrow> string \<Rightarrow> (managed_cluster_ctl, unit) go" where
  "prepareHubWorkspaceAuthorizers E clusterName = andThen getS (\<lambda>c.
     let hubWorkspaceConfig = (CopyConfig (mcKcpRestConfig c))\<lparr>Host := org_host c\<rparr> in
     andThen (newForConfig E hubWorkspaceConfig) (\<lambda>kcpHubKubeClient.
     ApplyObjects E kcpHubKubeClient NilClient workspace_manifestFiles
       (hub_config c clusterName) hubWorkspaceAuthorizerFiles))"

definition managedCluster_sync :: "env \<Rightarrow> managed_cluster_ctl sync_fun" where
  "managedCluster_sync E clusterName = andThen getS (\<lambda>c.
     tryP (perform (ListerGet ''managedclusters'' clusterName)
            (\<lambda>h. answer (env_managedClusterLister E h (mcClusterLister c) clusterName)))
       (\<lambda>err. if IsNotFound err then ret () else fail err)
       (\<lambda>_. andThen (prepareOrgWorkspaceAuthorizers E clusterName) (\<lambda>_.
             prepareHubWorkspaceAuthorizers E clusterName)))"

subsection \<open>Isolation\<close>

text \<open>
  The controller of (org, workspace) talks to two endpoints only: the configured kcp root, and the
  organization's endpoint under it.
\<close>

definition mc_allowed :: "managed_cluster_ctl \<Rightarrow> call \<Rightarrow> bool" where
  "mc_allowed c x \<longleftrightarrow> (case x of
      ListerGet _ _ \<Rightarrow> True
    | NewForConfig host \<Rightarrow> host = Host (mcKcpRestConfig c) \<or> host = org_host c
    | _ \<Rightarrow> apply_call (Kcp (Host (mcKcpRestConfig c))) NilClient x \<or> apply_call (Kcp (org_host c)) NilClient x)"

lemma apply_call_mc:
  "apply_call (Kcp (Host (mcKcpRestConfig c))) NilClient x \<Longrightarrow> mc_allowed c x"
  "apply_call (Kcp (org_host c)) NilClient x \<Longrightarrow> mc_allowed c x"
  by (cases x; simp add: mc_allowed_def)+

lemma newForConfig_client: "fst (newForConfig E config w) = Ok cl \<Longrightarrow> cl = Kcp (Host config)"
  by (auto simp: newForConfig_def prog_simps split: sum.splits)

lemma emits_prepareOrg:
  "emits (mc_allowed c) (\<lambda>s. s = c) (prepareOrgWorkspaceAuthorizers E name)"
  unfolding prepareOrgWorkspaceAuthorizers_def
  by (auto intro!: emits_getS_bind emits_andThen_outcome emits_newForConfig emits_ApplyObjects_weak
      dest!: newForConfig_client apply_call_mc)
    (simp add: mc_allowed_def)

lemma emits_prepareHub:
  "emits (mc_allowed c) (\<lambda>s. s = c) (prepareHubWorkspaceAuthorizers E name)"
  unfolding prepareHubWorkspaceAuthorizers_def
  by (auto intro!: emits_getS_bind emits_andThen_outcome emits_newForConfig emits_ApplyObjects_weak
      dest!: newForConfig_client apply_call_mc simp: Let_def)
    (simp add: mc_allowed_def)

interpretation managed_cluster_loop: reconciler "managedCluster_sync E" "\<lambda>s. s = c" "mc_allowed c"
  for E :: env and c :: managed_cluster_ctl
proof (unfold_locales)
  fix key
  show "emits (mc_allowed c) (\<lambda>s. s = c) (managedCluster_sync E key)"
    unfolding managedCluster_sync_def
    by (auto intro!: emits_getS_bind emits_tryP emits_perform emits_ret emits_fail emits_andThen
        emits_prepareOrg emits_prepareHub simp: mc_allowed_def)
qed

subsection \<open>The templates' fields\<close>

text \<open>Every field an authorizer template mentions is a field of the struct it is rendered with.\<close>

lemma authorizer_manifests_render:
  "list_all (renders workspace_manifestFiles (org_config c n)) orgWorkspaceAuthorizerFiles"
  "list_all (renders workspace_manifestFiles (hub_config c n)) hubWorkspaceAuthorizerFiles"
  by (auto simp: list_all_iff orgWorkspaceAuthorizerFiles_def hubWorkspaceAuthorizerFiles_def
      workspace_manifestFiles_def org_config_def hub_config_def yaml_defs template_fields_def intro!: rendersI)

subsection \<open>Panics\<close>

text \<open>
  What keeps the controller from panicking: for a cluster its informer lists, the manifests
  decode, and none of them to a \<open>ClusterManager\<close>.
\<close>

definition mc_sane :: "env \<Rightarrow> managed_cluster_ctl \<Rightarrow> bool" where
  "mc_sane E c \<longleftrightarrow> (\<forall>h n. env_managedClusterLister E h (mcClusterLister c) n = None \<longrightarrow>
     list_all (decodes E NilClient workspace_manifestFiles (org_config c n)) orgWorkspaceAuthorizerFiles \<and>
     list_all (decodes E NilClient workspace_manifestFiles (hub_config c n)) hubWorkspaceAuthorizerFiles)"

lemma safe_managedCluster_sync:
  assumes "mc_sane E c0"
  shows "safe (\<lambda>c. c = c0) (managedCluster_sync E n)"
  unfolding managedCluster_sync_def
proof (rule safe_getS_bind, rule safe_tryP_outcome, goal_cases)
  case (3 c x w)
  then have "env_managedClusterLister E (calls w) (mcClusterLister c0) n = None"
    by (auto dest!: perform_Ok simp: answer_def split: option.splits)
  with assms have "list_all (decodes E NilClient workspace_manifestFiles (org_config c0 n)) orgWorkspaceAuthorizerFiles"
    "list_all (decodes E NilClient workspace_manifestFiles (hub_config c0 n)) hubWorkspaceAuthorizerFiles"
    by (auto simp: mc_sane_def)
  then show ?case
    unfolding prepareOrgWorkspaceAuthorizers_def prepareHubWorkspaceAuthorizers_def
    by (auto intro!: safe_intros safe_getS_bind safe_ApplyObjects authorizer_manifests_render)
qed (auto intro!: safe_intros)

interpretation mc_crash_free: crash_free "managedCluster_sync E" "\<lambda>c. c = c0 \<and> mc_sane E c0" "mc_allowed c0"
  for E :: env and c0 :: managed_cluster_ctl
  by (rule crash_freeI [OF managed_cluster_loop.reconciler_axioms safe_managedCluster_sync])

end
