(* ===== verification/WorkspaceTypes.thy ===== *)
theory WorkspaceTypes
  imports Scheme OrgWorkspace ClusterManagerCtl ManagedCluster
begin

section \<open>Types: workspaces and manifests\<close>

text \<open>
  The controllers read workspaces as untyped JSON, and the accessors panic on a field of the wrong
  type. A schema describes what they expect; \<open>Field f s r\<close> is an object whose field \<open>f\<close>, if it is
  there, conforms to \<open>s\<close>, and which also conforms to \<open>r\<close>.
\<close>

datatype schema = StrT | IntT | TimeT | Nullable schema | Arr schema | AnyObj | Field string schema schema

fun conforms :: "env \<Rightarrow> schema \<Rightarrow> json \<Rightarrow> bool" where
  "conforms E StrT v = (case v of JStr _ \<Rightarrow> True | _ \<Rightarrow> False)"
| "conforms E IntT v = (case v of JInt _ \<Rightarrow> True
     | JFloat n e \<Rightarrow> 0 \<le> e \<or> n mod 2 ^ nat (- e) = 0 | _ \<Rightarrow> False)"
| "conforms E TimeT v = (case v of JStr s \<Rightarrow> env_parseTime E s \<noteq> None | _ \<Rightarrow> False)"
| "conforms E (Nullable s) v = (v = JNull \<or> conforms E s v)"
| "conforms E (Arr s) v = (case v of JArr xs \<Rightarrow> list_all (conforms E s) xs | _ \<Rightarrow> False)"
| "conforms E AnyObj v = (case v of JObj _ \<Rightarrow> True | _ \<Rightarrow> False)"
| "conforms E (Field f s r) v = (case v of
     JObj m \<Rightarrow> pred_option (conforms E s) (map_of m f) \<and> conforms E r v | _ \<Rightarrow> False)"

definition condition_schema :: schema where
  "condition_schema = Nullable (Field ''type'' (Nullable StrT) (Field ''status'' (Nullable StrT)
     (Field ''observedGeneration'' (Nullable IntT) (Field ''lastTransitionTime'' (Nullable TimeT)
     (Field ''reason'' (Nullable StrT) (Field ''message'' (Nullable StrT) AnyObj))))))"

definition status_schema :: schema where
  "status_schema = Nullable (Field ''phase'' StrT (Field ''baseURL'' StrT (Field ''conditions'' (Arr condition_schema) AnyObj)))"

definition spec_schema :: schema where
  "spec_schema = Nullable (Field ''type'' (Field ''name'' StrT AnyObj) AnyObj)"

definition workspace_schema :: schema where
  "workspace_schema = Field ''spec'' spec_schema (Field ''status'' status_schema AnyObj)"

definition well_typed :: "env \<Rightarrow> object \<Rightarrow> bool" where
  "well_typed E ws \<longleftrightarrow> conforms E workspace_schema (JObj ws)"

lemma conforms_iff [simp]:
  "conforms E StrT v \<longleftrightarrow> (\<exists>s. v = JStr s)"
  "conforms E TimeT v \<longleftrightarrow> (\<exists>s. v = JStr s \<and> env_parseTime E s \<noteq> None)"
  "conforms E (Arr s) v \<longleftrightarrow> (\<exists>xs. v = JArr xs \<and> list_all (conforms E s) xs)"
  "conforms E AnyObj v \<longleftrightarrow> (\<exists>m. v = JObj m)"
  "conforms E (Field f s r) v \<longleftrightarrow> (\<exists>m. v = JObj m \<and> pred_option (conforms E s) (map_of m f) \<and> conforms E r v)"
  by (cases v; simp)+

declare conforms.simps(1,3,5-7) [simp del]

subsection \<open>Progress: well-typed workspaces are read without a panic\<close>

lemma map_of_roundtrip: "map_of (map (\<lambda>(k, v). (k, json_roundtrip v)) m) f = map_option json_roundtrip (map_of m f)"
  by (induction m) auto

lemma pred_option_cases: "pred_option P v \<longleftrightarrow> v = None \<or> (\<exists>x. v = Some x \<and> P x)"
  by (cases v) auto

lemma string_field_typed:
  "pred_option (conforms E (Nullable StrT)) (map_of m f) \<Longrightarrow>
     \<exists>s. string_field (map (\<lambda>(k, v). (k, json_roundtrip v)) m) f = Some s"
  by (auto simp: pred_option_cases string_field_def map_of_roundtrip)

lemma time_field_typed:
  "pred_option (conforms E (Nullable TimeT)) (map_of m f) \<Longrightarrow>
     \<exists>t. time_field E (map (\<lambda>(k, v). (k, json_roundtrip v)) m) f = Some t"
  by (auto simp: pred_option_cases time_field_def map_of_roundtrip)

lemma int_field_typed:
  assumes "pred_option (conforms E (Nullable IntT)) (map_of m f)"
  shows "\<exists>n. int_field (map (\<lambda>(k, v). (k, json_roundtrip v)) m) f = Some n"
proof (cases "\<exists>i. map_of m f = Some (JInt i)")
  case True
  then obtain i where i: "map_of m f = Some (JInt i)" by blast
  obtain q e where "float_of_int64 i = (q, int e)" using float_of_int64_exponent by blast
  with i show ?thesis by (simp add: int_field_def map_of_roundtrip)
next
  case False
  with assms show ?thesis
    by (cases "map_of m f"; cases "the (map_of m f)") (auto simp: int_field_def map_of_roundtrip)
qed

lemma to_condition_typed:
  assumes "conforms E condition_schema v"
  shows "\<exists>c. to_condition E v = Ok c"
proof (cases "v = JNull")
  case False
  with assms obtain m where m: "v = JObj m"
    "pred_option (conforms E (Nullable StrT)) (map_of m ''type'')"
    "pred_option (conforms E (Nullable StrT)) (map_of m ''status'')"
    "pred_option (conforms E (Nullable IntT)) (map_of m ''observedGeneration'')"
    "pred_option (conforms E (Nullable TimeT)) (map_of m ''lastTransitionTime'')"
    "pred_option (conforms E (Nullable StrT)) (map_of m ''reason'')"
    "pred_option (conforms E (Nullable StrT)) (map_of m ''message'')"
    by (auto simp: condition_schema_def)
  from string_field_typed [OF m(2)] string_field_typed [OF m(3)] int_field_typed [OF m(4)]
    time_field_typed [OF m(5)] string_field_typed [OF m(6)] string_field_typed [OF m(7)]
  show ?thesis
    unfolding m(1) by (elim exE) (simp add: to_condition_def condition_fromUnstructured_def)
qed (simp add: to_condition_def)

lemma ToConditions_typed: "list_all (conforms E condition_schema) xs \<Longrightarrow> \<exists>cs. ToConditions E xs = Ok cs"
proof (induction xs)
  case (Cons x xs)
  with to_condition_typed [of E x] show ?case by fastforce
qed simp

lemma well_typed_iff:
  "well_typed E ws \<longleftrightarrow> pred_option (conforms E spec_schema) (map_of ws ''spec'') \<and>
     pred_option (conforms E status_schema) (map_of ws ''status'')"
  by (simp add: well_typed_def workspace_schema_def)

lemma spec_typed:
  "conforms E spec_schema v \<longleftrightarrow> v = JNull \<or> (\<exists>m. v = JObj m \<and> (map_of m ''type'' = None \<or>
     (\<exists>t. map_of m ''type'' = Some (JObj t) \<and> (map_of t ''name'' = None \<or> (\<exists>n. map_of t ''name'' = Some (JStr n))))))"
  by (auto simp: spec_schema_def pred_option_cases)

lemma status_typed:
  "conforms E status_schema v \<longleftrightarrow> v = JNull \<or> (\<exists>m. v = JObj m \<and>
     (map_of m ''phase'' = None \<or> (\<exists>s. map_of m ''phase'' = Some (JStr s))) \<and>
     (map_of m ''baseURL'' = None \<or> (\<exists>s. map_of m ''baseURL'' = Some (JStr s))) \<and>
     (map_of m ''conditions'' = None \<or>
       (\<exists>xs. map_of m ''conditions'' = Some (JArr xs) \<and> list_all (conforms E condition_schema) xs)))"
  by (auto simp: status_schema_def pred_option_cases)

lemma well_typed_accessors:
  assumes "well_typed E ws"
  shows "\<exists>t. GetWorkspaceType ws = Ok t" "\<exists>t. GetWorkspacePhase ws = Ok t" "\<exists>t. GetWorkspaceURL ws = Ok t"
    "\<exists>sl. NestedSlice ws [''status'', ''conditions''] = Inr sl \<and> list_all (conforms E condition_schema) (case sl of None \<Rightarrow> [] | Some xs \<Rightarrow> xs)"
proof -
  from assms have "map_of ws ''spec'' = None \<or> (\<exists>v. map_of ws ''spec'' = Some v \<and> conforms E spec_schema v)"
    by (auto simp: well_typed_iff pred_option_cases)
  then show "\<exists>t. GetWorkspaceType ws = Ok t"
    unfolding spec_typed by (auto simp: GetWorkspaceType_def found_or_def nested_defs)
  have st: "map_of ws ''status'' = None \<or> (\<exists>v. map_of ws ''status'' = Some v \<and> conforms E status_schema v)"
    using assms by (auto simp: well_typed_iff pred_option_cases)
  then show "\<exists>t. GetWorkspacePhase ws = Ok t" "\<exists>t. GetWorkspaceURL ws = Ok t"
    unfolding status_typed by (auto simp: GetWorkspacePhase_def GetWorkspaceURL_def found_or_def nested_defs)
  from st show "\<exists>sl. NestedSlice ws [''status'', ''conditions''] = Inr sl \<and>
      list_all (conforms E condition_schema) (case sl of None \<Rightarrow> [] | Some xs \<Rightarrow> xs)"
    unfolding status_typed by (auto simp: nested_defs)
qed

lemma well_typed_conditions:
  assumes "well_typed E ws"
  shows "\<exists>b. IsWorkspaceStatusConditionTrue E ws t = Ok b" "\<exists>old. old_conditions E ws = Ok old"
proof -
  from well_typed_accessors(4) [OF assms] obtain sl where
    sl: "NestedSlice ws [''status'', ''conditions''] = Inr sl"
    "list_all (conforms E condition_schema) (case sl of None \<Rightarrow> [] | Some xs \<Rightarrow> xs)" by blast
  from ToConditions_typed [OF sl(2)] obtain cs where
    "ToConditions E (case sl of None \<Rightarrow> [] | Some xs \<Rightarrow> xs) = Ok cs" by blast
  with sl(1) show "\<exists>b. IsWorkspaceStatusConditionTrue E ws t = Ok b" "\<exists>old. old_conditions E ws = Ok old"
    by (auto simp: IsWorkspaceStatusConditionTrue_def old_conditions_def split: option.splits)
qed

subsection \<open>Preservation\<close>

lemma condition_slice_typed:
  assumes "\<forall>t. env_parseTime E (env_formatTime E t) \<noteq> None"
  shows "list_all (conforms E condition_schema) (ToConditionSlice E cs)"
  using assms by (auto simp: list_all_iff ToConditionSlice_def condition_schema_def condition_toUnstructured_def)

lemma set_conditions_typed:
  assumes "well_typed E ws" "list_all (conforms E condition_schema) xs"
    and "SetNestedSlice ws xs ''status'' [''conditions''] = Inr ws'"
  shows "well_typed E ws'"
proof -
  obtain m where ws': "ws' = AList.update ''status'' (JObj (AList.update ''conditions'' (JArr xs) m)) ws"
    and m: "conforms E status_schema (JObj m)"
  proof (cases "map_of ws ''status''")
    case None
    with assms(3) that [of "[]"] show ?thesis by (simp add: SetNestedSlice_def status_typed)
  next
    case (Some v)
    with assms that show ?thesis
      by (cases v) (auto simp: SetNestedSlice_def well_typed_iff)
  qed
  from m have "conforms E status_schema (JObj (AList.update ''conditions'' (JArr xs) m))"
    using assms(2) unfolding status_typed by (simp add: update_conv')
  with assms(1) show ?thesis unfolding ws' by (simp add: well_typed_iff update_conv')
qed

lemma reported_workspace_well_typed:
  assumes "well_typed E ws" "reports E c ws ws'" "\<forall>t. env_parseTime E (env_formatTime E t) \<noteq> None"
  shows "well_typed E ws'"
  using assms set_conditions_typed condition_slice_typed unfolding reports_def by blast

subsection \<open>Controllers of a well-typed environment\<close>

definition workspaces_typed :: "env \<Rightarrow> bool" where
  "workspaces_typed E \<longleftrightarrow> (\<forall>h i n ws. env_workspaceLister E h i n = Inr ws \<longrightarrow> well_typed E ws) \<and>
     (\<forall>h host n ws. env_getWorkspace E h host n = Inr ws \<longrightarrow> well_typed E ws)"

lemma workspaces_typed_org: "workspaces_typed E \<Longrightarrow> org_sane E c"
  using well_typed_accessors(1-3) unfolding workspaces_typed_def org_sane_def
  by (metis outcome.distinct(3))

lemma workspaces_typed_hub:
  assumes "workspaces_typed E" "\<And>c n data. hub_same c0 c \<Longrightarrow>
      list_all (decodes E HubClient workspace_manifestFiles (clusterManager_config c n data)) hubFiles"
  shows "hub_sane E c0"
  using assms well_typed_accessors(2,3) well_typed_conditions(1)
  unfolding workspaces_typed_def hub_sane_def by (metis outcome.distinct(3))

lemma workspaces_typed_cm:
  assumes "workspaces_typed E" "\<And>h ns n. env_getService E h Hub ns n \<noteq> Inr []"
    and "\<And>p q ca. list_all (decodes E NilClient clustermanager_manifestFiles (webhook_config c p q ca)) webhookFiles"
  shows "cm_sane E c"
  using assms well_typed_conditions(2)
  unfolding workspaces_typed_def cm_sane_def by (metis outcome.distinct(3))

subsection \<open>The kinds of the embedded manifests\<close>

lemma hub_file_kinds: "map (file_kind workspace_manifestFiles) hubFiles =
    map Some [''Namespace'', ''Secret'', ''Service'', ''Service'', ''ClusterManager'']"
  by code_simp

lemma authorizer_file_kinds:
  "map (file_kind workspace_manifestFiles) orgWorkspaceAuthorizerFiles = map Some [''ClusterRole'', ''ClusterRoleBinding'']"
  "map (file_kind workspace_manifestFiles) hubWorkspaceAuthorizerFiles = map Some [''ClusterRole'', ''ClusterRoleBinding'']"
  by code_simp+

lemma webhook_file_kinds: "map (file_kind clustermanager_manifestFiles) webhookFiles =
    map Some [''ValidatingWebhookConfiguration'', ''MutatingWebhookConfiguration'',
      ''ValidatingWebhookConfiguration'', ''ValidatingWebhookConfiguration'']"
  by code_simp

subsection \<open>Well-typed environments have no panics\<close>

text \<open>The manifests of a controller decode with the values it gives them.\<close>

fun manifests_decode :: "env \<Rightarrow> controller_id \<Rightarrow> bool" where
  "manifests_decode E (ClusterManagerController rc rh wh) \<longleftrightarrow> (\<forall>p q ca. list_all (decodes E HubClient
     clustermanager_manifestFiles (webhook_config (ctrlState (NewClusterManagerController rc rh wh)) p q ca)) webhookFiles)"
| "manifests_decode E (OrgWorkspaceController _ _ _ _) \<longleftrightarrow> True"
| "manifests_decode E (HubWorkspaceController on cf kf rc ifr) \<longleftrightarrow>
     (\<forall>c n data. hub_same (ctrlState (NewHubWorkspaceController on cf kf rc ifr)) c \<longrightarrow>
        list_all (decodes E HubClient workspace_manifestFiles (clusterManager_config c n data)) hubFiles)"
| "manifests_decode E (CSRSigningController _ _ _ _ _) \<longleftrightarrow> True"
| "manifests_decode E (ManagedClusterController on ws rc ifr) \<longleftrightarrow>
     (let c = ctrlState (NewClusterController on ws rc ifr) in \<forall>n.
        list_all (decodes E HubClient workspace_manifestFiles (org_config c n)) orgWorkspaceAuthorizerFiles \<and>
        list_all (decodes E HubClient workspace_manifestFiles (hub_config c n)) hubWorkspaceAuthorizerFiles)"

lemma typed_mc_sane:
  "scheme_decoder E \<Longrightarrow> manifests_decode E (ManagedClusterController on ws rc ifr) \<Longrightarrow>
     mc_sane E (ctrlState (NewClusterController on ws rc ifr))"
  by (auto simp: mc_sane_def Let_def intro!: decodes_no_manager_all [OF _ authorizer_file_kinds(1)]
      decodes_no_manager_all [OF _ authorizer_file_kinds(2)])

lemma typed_cm_sane:
  "workspaces_typed E \<Longrightarrow> (\<And>h ns n. env_getService E h Hub ns n \<noteq> Inr []) \<Longrightarrow> scheme_decoder E \<Longrightarrow>
     manifests_decode E (ClusterManagerController rc rh wh) \<Longrightarrow>
     cm_sane E (ctrlState (NewClusterManagerController rc rh wh))"
  by (rule workspaces_typed_cm) (auto intro: decodes_no_manager_all [OF _ webhook_file_kinds])

lemma demo_workspace_typed:
  "list_all (conforms E condition_schema) cs \<Longrightarrow> well_typed E (demo_workspace cs)"
  by (simp add: well_typed_iff demo_workspace_def spec_typed status_typed)

end
