(* ===== verification/Authorizers.thy ===== *)
theory Authorizers
  imports WorkspaceTypes
begin

section \<open>What the managed cluster controller achieves\<close>

text \<open>
  Every listed managed cluster gets its role and role binding in the kcp root and in the
  organization, through temporary failures.
\<close>

text \<open>The objects made of the authorizer templates for a cluster.\<close>

definition authorizers :: "env \<Rightarrow> managed_cluster_ctl \<Rightarrow> string \<Rightarrow> kube_object list \<Rightarrow> kube_object list \<Rightarrow> bool" where
  "authorizers E c n orgObjs hubObjs \<longleftrightarrow>
     list_all2 (creates E workspace_manifestFiles (org_config c n)) orgWorkspaceAuthorizerFiles orgObjs \<and>
     list_all2 (creates E workspace_manifestFiles (hub_config c n)) hubWorkspaceAuthorizerFiles hubObjs"

lemma map_object_kind_role:
  "map object_kind objs = map Some [''ClusterRole'', ''ClusterRoleBinding''] \<Longrightarrow>
     \<exists>role binding. objs = [ClusterRole role, ClusterRoleBinding binding]"
proof -
  have "object_kind obj = Some ''ClusterRole'' \<longleftrightarrow> (\<exists>m. obj = ClusterRole m)"
    "object_kind obj = Some ''ClusterRoleBinding'' \<longleftrightarrow> (\<exists>m. obj = ClusterRoleBinding m)" for obj
    by (cases obj; simp)+
  then show "map object_kind objs = map Some [''ClusterRole'', ''ClusterRoleBinding''] \<Longrightarrow>
     \<exists>role binding. objs = [ClusterRole role, ClusterRoleBinding binding]"
    by (auto simp: map_eq_Cons_conv)
qed

lemma authorizers_exist:
  assumes "scheme_decoder E" "manifests_decode E (ManagedClusterController on ws rc ifr)"
  obtains role binding role' binding' where
    "authorizers E (ctrlState (NewClusterController on ws rc ifr)) n [ClusterRole role, ClusterRoleBinding binding]
       [ClusterRole role', ClusterRoleBinding binding']"
proof -
  let ?c = "ctrlState (NewClusterController on ws rc ifr)"
  from assms(2) have d: "list_all (decodes E HubClient workspace_manifestFiles (org_config ?c n)) orgWorkspaceAuthorizerFiles"
    "list_all (decodes E HubClient workspace_manifestFiles (hub_config ?c n)) hubWorkspaceAuthorizerFiles"
    by (simp_all add: Let_def)
  from create_objects_no_panic [OF authorizer_manifests_render(1) d(1)] obtain objs where
    o: "create_objects E workspace_manifestFiles (org_config ?c n) orgWorkspaceAuthorizerFiles = Ok objs" by blast
  from create_objects_no_panic [OF authorizer_manifests_render(2) d(2)] obtain objs' where
    h: "create_objects E workspace_manifestFiles (hub_config ?c n) hubWorkspaceAuthorizerFiles = Ok objs'" by blast
  from map_object_kind_role [OF created_kinds [OF assms(1) o authorizer_file_kinds(1)]]
    map_object_kind_role [OF created_kinds [OF assms(1) h authorizer_file_kinds(2)]] o h that
  show thesis by (auto simp: authorizers_def create_objects_Ok_iff)
qed

text \<open>The calls that apply them, all accepted.\<close>

definition authorize_calls :: "managed_cluster_ctl \<Rightarrow> kube_object list \<Rightarrow> kube_object list \<Rightarrow> call list" where
  "authorize_calls c orgObjs hubObjs =
     NewForConfig (Host (mcKcpRestConfig c)) # map (ApplyResource (Kcp (Host (mcKcpRestConfig c)))) orgObjs @
     NewForConfig (org_host c) # map (ApplyResource (Kcp (org_host c))) hubObjs"

definition accepted :: "env \<Rightarrow> cluster \<Rightarrow> history \<Rightarrow> kube_object list \<Rightarrow> bool" where
  "accepted E cl h objs \<longleftrightarrow> set (resource_answers E cl h objs) \<subseteq> {None}"

definition authorized_in :: "env \<Rightarrow> managed_cluster_ctl \<Rightarrow> string \<Rightarrow> history \<Rightarrow> bool" where
  "authorized_in E c n h \<longleftrightarrow> (\<exists>orgObjs hubObjs pre post. authorizers E c n orgObjs hubObjs \<and>
     h = pre @ authorize_calls c orgObjs hubObjs @ post \<and>
     accepted E (Kcp (Host (mcKcpRestConfig c))) (pre @ [NewForConfig (Host (mcKcpRestConfig c))]) orgObjs \<and>
     accepted E (Kcp (org_host c)) (pre @ NewForConfig (Host (mcKcpRestConfig c)) #
       map (ApplyResource (Kcp (Host (mcKcpRestConfig c)))) orgObjs @ [NewForConfig (org_host c)]) hubObjs)"

lemma authorized_in_append: "authorized_in E c n h \<Longrightarrow> authorized_in E c n (h @ h')"
  unfolding authorized_in_def by (metis append_assoc)

text \<open>Applying plain resources succeeds exactly if all of them are accepted.\<close>

lemma ApplyObjects_accepted:
  assumes "list_all2 (creates E fs config) names objs" "\<forall>obj \<in> set objs. is_resource obj"
  shows "fst (ApplyObjects E cl cmc fs config names w) = Ok u \<longleftrightarrow> accepted E cl (calls w) objs"
    "calls (snd (ApplyObjects E cl cmc fs config names w)) = calls w @ map (ApplyResource cl) objs"
    "ctl (snd (ApplyObjects E cl cmc fs config names w)) = ctl w"
    "fst (ApplyObjects E cl cmc fs config names w) \<noteq> Panic s"
proof -
  from assms(1) have "create_objects E fs config names = Ok objs" by (simp add: create_objects_Ok_iff)
  note eq = ApplyObjects_resources [OF this assms(2), of cl cmc w]
  show "fst (ApplyObjects E cl cmc fs config names w) = Ok u \<longleftrightarrow> accepted E cl (calls w) objs"
    using NewAggregate_None [of "resource_answers E cl (calls w) objs"]
    by (auto simp: eq accepted_def split: option.split)
  show "calls (snd (ApplyObjects E cl cmc fs config names w)) = calls w @ map (ApplyResource cl) objs"
    "ctl (snd (ApplyObjects E cl cmc fs config names w)) = ctl w"
    "fst (ApplyObjects E cl cmc fs config names w) \<noteq> Panic s" by (simp_all add: eq split: option.split)
qed

text \<open>A listed cluster, and an environment in which the calls succeed once the history is as long as \<open>N\<close>.\<close>

definition mc_works :: "nat \<Rightarrow> env \<Rightarrow> managed_cluster_ctl \<Rightarrow> string \<Rightarrow> bool" where
  "mc_works N E c n \<longleftrightarrow> (\<forall>h. env_managedClusterLister E h (mcClusterLister c) n = None) \<and>
     (\<forall>h. N \<le> length h \<longrightarrow> (\<forall>rc. env_newForConfig E h rc = None) \<and>
        (\<forall>cl obj. env_applyResource E h cl obj = None)) \<and>
     (\<exists>role binding role' binding'. authorizers E c n [ClusterRole role, ClusterRoleBinding binding]
        [ClusterRole role', ClusterRoleBinding binding'])"

text \<open>One sync of such a cluster.\<close>

lemma mc_sync_result:
  assumes "env_managedClusterLister E (calls w) (mcClusterLister (ctl w)) n = None"
    and "authorizers E (ctl w) n orgObjs hubObjs" "\<forall>obj \<in> set orgObjs. is_resource obj" "\<forall>obj \<in> set hubObjs. is_resource obj"
  defines "c \<equiv> ctl w" and "pre \<equiv> calls w @ [ListerGet ''managedclusters'' n]"
  defines "h1 \<equiv> pre @ [NewForConfig (Host (mcKcpRestConfig c))]"
  defines "h2 \<equiv> h1 @ map (ApplyResource (Kcp (Host (mcKcpRestConfig c)))) orgObjs"
  defines "h3 \<equiv> h2 @ [NewForConfig (org_host c)]"
  shows "fst (managedCluster_sync E n w) = Ok () \<longleftrightarrow> env_newForConfig E pre (mcKcpRestConfig c) = None \<and>
      accepted E (Kcp (Host (mcKcpRestConfig c))) h1 orgObjs \<and>
      env_newForConfig E h2 ((mcKcpRestConfig c)\<lparr>Host := org_host c\<rparr>) = None \<and>
      accepted E (Kcp (org_host c)) h3 hubObjs"
    and "fst (managedCluster_sync E n w) = Ok () \<Longrightarrow>
      calls (snd (managedCluster_sync E n w)) = pre @ authorize_calls c orgObjs hubObjs"
proof -
  let ?w1 = "w\<lparr>calls := h1\<rparr>"
  let ?ao = "ApplyObjects E (Kcp (Host (mcKcpRestConfig c))) NilClient workspace_manifestFiles (org_config c n) orgWorkspaceAuthorizerFiles ?w1"
  from assms(2) have a: "list_all2 (creates E workspace_manifestFiles (org_config c n)) orgWorkspaceAuthorizerFiles orgObjs"
    "list_all2 (creates E workspace_manifestFiles (hub_config c n)) hubWorkspaceAuthorizerFiles hubObjs"
    by (simp_all add: authorizers_def c_def)
  note o = ApplyObjects_accepted [OF a(1) assms(3)] and h = ApplyObjects_accepted [OF a(2) assms(4)]
  have sync: "managedCluster_sync E n w =
    (case env_newForConfig E pre (mcKcpRestConfig c) of Some e \<Rightarrow> (Err e, ?w1) | None \<Rightarrow>
      (case ?ao of (Ok _, w2) \<Rightarrow> prepareHubWorkspaceAuthorizers E n w2 | (Err e, w2) \<Rightarrow> (Err e, w2) | (Panic s, w2) \<Rightarrow> (Panic s, w2)))"
    using assms(1)
    by (simp add: managedCluster_sync_def prepareOrgWorkspaceAuthorizers_def newForConfig_def prog_simps c_def pre_def h1_def
        fail_def split: option.split outcome.split prod.split)
  obtain r w2 where ao: "?ao = (r, w2)" by fastforce
  with o(2-4) [of "Kcp (Host (mcKcpRestConfig c))" NilClient ?w1] have w2: "calls w2 = h2" "ctl w2 = c" "\<forall>s. r \<noteq> Panic s"
    by (auto simp: h2_def c_def)
  from ao o(1) [of "Kcp (Host (mcKcpRestConfig c))" NilClient ?w1 "()"]
  have r: "r = Ok () \<longleftrightarrow> accepted E (Kcp (Host (mcKcpRestConfig c))) h1 orgObjs" by simp
  let ?hub = "ApplyObjects E (Kcp (org_host c)) NilClient workspace_manifestFiles (hub_config c n) hubWorkspaceAuthorizerFiles
    (w2\<lparr>calls := h3\<rparr>)"
  have hub: "prepareHubWorkspaceAuthorizers E n w2 =
    (case env_newForConfig E h2 ((mcKcpRestConfig c)\<lparr>Host := org_host c\<rparr>) of Some e \<Rightarrow> (Err e, w2\<lparr>calls := h3\<rparr>) | None \<Rightarrow> ?hub)"
    using w2 by (simp add: prepareHubWorkspaceAuthorizers_def newForConfig_def prog_simps h3_def Let_def split: option.split)
  have hub_ok: "fst ?hub = Ok () \<longleftrightarrow> accepted E (Kcp (org_host c)) h3 hubObjs"
    "calls (snd ?hub) = h3 @ map (ApplyResource (Kcp (org_host c))) hubObjs"
    using h(1) [of "Kcp (org_host c)" NilClient "w2\<lparr>calls := h3\<rparr>" "()"] h(2) [of "Kcp (org_host c)" NilClient "w2\<lparr>calls := h3\<rparr>"]
    by simp_all
  show "fst (managedCluster_sync E n w) = Ok () \<longleftrightarrow> env_newForConfig E pre (mcKcpRestConfig c) = None \<and>
      accepted E (Kcp (Host (mcKcpRestConfig c))) h1 orgObjs \<and>
      env_newForConfig E h2 ((mcKcpRestConfig c)\<lparr>Host := org_host c\<rparr>) = None \<and>
      accepted E (Kcp (org_host c)) h3 hubObjs"
    using r w2(3) hub_ok(1) by (cases r) (auto simp: sync ao hub split: option.splits)
  have "pre @ authorize_calls c orgObjs hubObjs = h3 @ map (ApplyResource (Kcp (org_host c))) hubObjs"
    by (simp add: authorize_calls_def h1_def h2_def h3_def)
  with hub_ok(2) w2(3) show "fst (managedCluster_sync E n w) = Ok () \<Longrightarrow>
      calls (snd (managedCluster_sync E n w)) = pre @ authorize_calls c orgObjs hubObjs"
    by (cases r) (auto simp: sync ao hub split: option.splits)
qed

lemma mc_sync_calls: "length (calls w) < length (calls (snd (managedCluster_sync E k w)))"
proof -
  have "emits (mc_allowed (ctl w)) (\<lambda>s. s = ctl w) (andThen (prepareOrgWorkspaceAuthorizers E k)
      (\<lambda>_. prepareHubWorkspaceAuthorizers E k))"
    by (intro emits_andThen emits_prepareOrg emits_prepareHub)
  from perform_calls [OF _ this] show ?thesis
    unfolding managedCluster_sync_def andThen_getS by (rule meta_mp) (auto intro!: emits_ret emits_fail)
qed

interpretation mc_outage: outage "managedCluster_sync E" "\<lambda>w. ctl w = c0 \<and> mc_sane E c0 \<and> mc_works N E c0 n" n
  "\<lambda>w. authorized_in E c0 n (calls w)" N for E c0 n N
proof (unfold_locales, goal_cases)
  case (1 w k)
  then show ?case using emitsD [OF managed_cluster_loop.sync_emits, of w c0] by blast
next
  case (2 w k s)
  then show ?case by (simp add: mc_crash_free.no_panic [of w c0 E])
next
  case (3 w k)
  show ?case by (rule mc_sync_calls)
next
  case (4 w e)
  then obtain orgObjs hubObjs where a: "authorizers E (ctl w) n orgObjs hubObjs"
    "\<forall>obj \<in> set orgObjs. is_resource obj" "\<forall>obj \<in> set hubObjs. is_resource obj"
    by (auto simp: mc_works_def)
  have acc: "N \<le> length h \<Longrightarrow> accepted E cl h objs" for cl h objs
    using 4 by (induction objs arbitrary: h) (auto simp: accepted_def mc_works_def)
  from 4 have "env_managedClusterLister E (calls w) (mcClusterLister (ctl w)) n = None"
    "\<And>h rc. N \<le> length h \<Longrightarrow> env_newForConfig E h rc = None" by (auto simp: mc_works_def)
  from mc_sync_result(1) [OF this(1) a] this(2) acc 4 show ?case by simp
next
  case (5 w u)
  then obtain orgObjs hubObjs where a: "authorizers E (ctl w) n orgObjs hubObjs"
    "\<forall>obj \<in> set orgObjs. is_resource obj" "\<forall>obj \<in> set hubObjs. is_resource obj"
    by (auto simp: mc_works_def)
  from 5 have l: "env_managedClusterLister E (calls w) (mcClusterLister (ctl w)) n = None"
    and ok: "fst (managedCluster_sync E n w) = Ok ()" by (auto simp: mc_works_def)
  from mc_sync_result [OF l a] ok a(1) 5 show ?case
    unfolding authorized_in_def
    by (intro exI [of _ orgObjs] exI [of _ hubObjs] exI [of _ "calls w @ [ListerGet ''managedclusters'' n]"] exI [of _ "[]"]) simp
next
  case (6 w k)
  then obtain cs where "calls (snd (managedCluster_sync E k w)) = calls w @ cs"
    using emitsD [OF managed_cluster_loop.sync_emits, of w c0] by blast
  with 6 show ?case by (simp add: authorized_in_append)
qed

subsection \<open>Properties\<close>

text \<open>C26: a listed managed cluster whose name is queued is authorized: the role and role binding rendered for it are accepted by the kcp root and then those for the hub workspace by the organization, in one go, whatever fails on the way: if the calls stop failing once N of them have been made, N rounds of the work queue and its turn in the next are enough, with informer events arriving in between.\<close>

theorem managed_cluster_eventually_authorized:
  assumes "worker_run (NewClusterController on ws rc ifr) (managedCluster_sync E) wk" "n \<in> set (wqueue wk)"
    and "scheme_decoder E" "manifests_decode E (ManagedClusterController on ws rc ifr)"
    and "\<And>h. env_managedClusterLister E h ifr n = None"
    and "\<And>h rc. N \<le> length h \<Longrightarrow> env_newForConfig E h rc = None"
    and "\<And>h cl obj. N \<le> length h \<Longrightarrow> env_applyResource E h cl obj = None"
    and "finite A" "set (wqueue wk) \<union> events_of steps \<subseteq> A"
    and "N * card A + place n (wqueue wk) < work_count steps"
  shows "authorized_in E (ctrlState (NewClusterController on ws rc ifr)) n
    (calls (wworld (scheduled (NewClusterController on ws rc ifr) (managedCluster_sync E) steps wk)))"
proof -
  let ?c = "ctrlState (NewClusterController on ws rc ifr)"
  have l: "mcClusterLister ?c = ifr" by (simp add: NewClusterController_def)
  obtain role binding role' binding' where "authorizers E ?c n [ClusterRole role, ClusterRoleBinding binding]
      [ClusterRole role', ClusterRoleBinding binding']"
    by (rule authorizers_exist [OF assms(3,4)])
  with assms(5-7) have "mc_works N E ?c n" unfolding mc_works_def l by blast
  moreover have "ctl (wworld wk) = ?c" using managed_cluster_loop.worker_sound [OF assms(1)] by blast
  moreover have "mc_sane E ?c" by (rule typed_mc_sane [OF assms(3,4)])
  ultimately show ?thesis by (intro mc_outage.done_after_outage [OF assms(1) _ assms(2,8-10)]) simp
qed

text \<open>The kcp root accepts nothing during the first five calls.\<close>

definition demo_mc_outage :: env where
  "demo_mc_outage = base_env\<lparr>env_managedClusterLister := \<lambda>_ _ _. None, env_decode := demo_decoder,
     env_applyResource := \<lambda>h _ _. if length h < 5 then Some down else None\<rparr>"

definition demo_mc_controller :: "managed_cluster_ctl controller" where
  "demo_mc_controller = NewClusterController ''org'' ''ws'' demo_kcp (ClusterInformer (Kcp ''https://kcp:org''))"

definition demo_mc_waiting :: "managed_cluster_ctl worker" where
  "demo_mc_waiting = eventHandler (ctrlFilter demo_mc_controller) ''c1'' (new_worker demo_mc_controller)"

theorem managed_cluster_eventually_authorized_witness:
  "authorized_in demo_mc_outage (ctrlState demo_mc_controller) ''c1'' (calls (wworld (scheduled demo_mc_controller
     (managedCluster_sync demo_mc_outage) (Some ''c2'' # replicate 11 None) demo_mc_waiting)))"
proof -
  have run: "worker_run demo_mc_controller (managedCluster_sync demo_mc_outage) demo_mc_waiting"
    unfolding demo_mc_waiting_def by (intro worker_run.event worker_run.start)
  have q: "wqueue demo_mc_waiting = [''c1'']"
    by (simp add: demo_mc_waiting_def demo_mc_controller_def NewClusterController_def eventHandler_def queue_add_def new_worker_def)
  have d: "env_decode demo_mc_outage = demo_decoder" by (simp add: demo_mc_outage_def)
  have "manifests_decode demo_mc_outage (ManagedClusterController ''org'' ''ws'' demo_kcp (ClusterInformer (Kcp ''https://kcp:org'')))"
    using demo_decoder_decodes_all [OF d authorizer_file_kinds(1)] demo_decoder_decodes_all [OF d authorizer_file_kinds(2)]
    by (simp add: Let_def)
  from managed_cluster_eventually_authorized [OF run [unfolded demo_mc_controller_def] _ demo_scheme_decoder [OF d] this,
      of "''c1''" 5 "{''c1'', ''c2''}" "Some ''c2'' # replicate 11 None"]
  show ?thesis unfolding demo_mc_controller_def [symmetric]
    by (auto simp: q) (simp_all add: demo_mc_outage_def base_env_def)
qed

end
