(* ===== verification/System.thy ===== *)
theory System
  imports Manager CsrLiveness Authorizers
begin

section \<open>The running system\<close>

text \<open>
  The controllers of one process: the two that \<open>Run\<close> starts, and those a running controller
  starts in some run of its worker. Each controller has its own history, and its environment
  may answer in its own way, so every interleaving of the controllers is covered.
\<close>

type_synonym process = "(string \<Rightarrow> go_error + rest_config) \<times> rest_config \<times> manager_options"

definition process_start :: "env \<Rightarrow> process \<Rightarrow> history" where
  "process_start E p = (case p of (buildConfig, hubKubeConfig, opts) \<Rightarrow>
     calls (snd (Run E buildConfig hubKubeConfig opts \<lparr>calls = [], ctl = ()\<rparr>)))"

text \<open>The histories a controller of the given name and arguments can have.\<close>

inductive controller_history :: "controller_id \<Rightarrow> env \<Rightarrow> history \<Rightarrow> bool" where
  cm: "worker_run (NewClusterManagerController rc rh wh) (cm_sync E) wk \<Longrightarrow>
    controller_history (ClusterManagerController rc rh wh) E (calls (wworld wk))"
| org: "worker_run (NewOrgWorkspaceController cf kf rc ifr) (org_sync E) wk \<Longrightarrow>
    controller_history (OrgWorkspaceController cf kf rc ifr) E (calls (wworld wk))"
| hub: "worker_run (NewHubWorkspaceController on cf kf rc ifr) (hub_sync E) wk \<Longrightarrow>
    controller_history (HubWorkspaceController on cf kf rc ifr) E (calls (wworld wk))"
| csr: "worker_run (NewCSRSigningController ws cf kf cl ifr) (csr_sync E) wk \<Longrightarrow>
    controller_history (CSRSigningController ws cf kf cl ifr) E (calls (wworld wk))"
| mc: "worker_run (NewClusterController on ws rc ifr) (managedCluster_sync E) wk \<Longrightarrow>
    controller_history (ManagedClusterController on ws rc ifr) E (calls (wworld wk))"

inductive running :: "process \<Rightarrow> controller_id \<Rightarrow> bool" for p where
  main: "GoController cid \<in> set (process_start E p) \<Longrightarrow> running p cid"
| nested: "running p cid \<Longrightarrow> controller_history cid E h \<Longrightarrow> GoController cid' \<in> set h \<Longrightarrow>
    running p cid'"

inductive_cases controller_history_cmE: "controller_history (ClusterManagerController rc rh wh) E h"
inductive_cases controller_history_orgE: "controller_history (OrgWorkspaceController cf kf rc ifr) E h"
inductive_cases controller_history_hubE: "controller_history (HubWorkspaceController on cf kf rc ifr) E h"
inductive_cases controller_history_csrE: "controller_history (CSRSigningController ws cf kf cl ifr) E h"
inductive_cases controller_history_mcE: "controller_history (ManagedClusterController on ws rc ifr) E h"

subsection \<open>What each controller does, from its contract\<close>

lemma cm_history:
  assumes "controller_history (ClusterManagerController rc rh wh) E h" "x \<in> set h"
  shows "cm_allowed E (ctrlState (NewClusterManagerController rc rh wh)) x"
  using assms(1)
proof (rule controller_history_cmE)
  fix wk
  assume "h = calls (wworld wk)" "worker_run (NewClusterManagerController rc rh wh) (cm_sync E) wk"
  with assms(2) show ?thesis using cm_loop.worker_sound by blast
qed

lemma org_history:
  assumes "controller_history (OrgWorkspaceController cf kf rc ifr) E h" "x \<in> set h"
  shows "org_allowed E (ctrlState (NewOrgWorkspaceController cf kf rc ifr)) x"
  using assms(1)
proof (rule controller_history_orgE)
  fix wk
  assume "h = calls (wworld wk)" "worker_run (NewOrgWorkspaceController cf kf rc ifr) (org_sync E) wk"
  with assms(2) show ?thesis using org_loop.worker_sound by (auto simp: org_same_def)
qed

lemma hub_history:
  assumes "controller_history (HubWorkspaceController on cf kf rc ifr) E h" "x \<in> set h"
  shows "hub_allowed E (ctrlState (NewHubWorkspaceController on cf kf rc ifr)) x"
  using assms(1)
proof (rule controller_history_hubE)
  fix wk
  assume wk: "h = calls (wworld wk)"
    "worker_run (NewHubWorkspaceController on cf kf rc ifr) (hub_sync E) wk"
  from assms(2) wk(1) hub_loop.worker_sound [OF wk(2) hub_initial] show ?thesis by blast
qed

lemma csr_history:
  assumes "controller_history (CSRSigningController ws cf kf cl ifr) E h" "x \<in> set h"
  shows "csr_allowed E (ctrlState (NewCSRSigningController ws cf kf cl ifr)) x"
  using assms(1)
proof (rule controller_history_csrE)
  fix wk
  assume wk: "h = calls (wworld wk)" "worker_run (NewCSRSigningController ws cf kf cl ifr) (csr_sync E) wk"
  let ?c = "ctrlState (NewCSRSigningController ws cf kf cl ifr)"
  have "csr_inv E ?c ?c"
    by (rule csr_inv_init) (simp_all add: NewCSRSigningController_def default_ttl_def)
  with wk assms(2) show ?thesis using csr_loop.worker_sound by blast
qed

lemma mc_history:
  assumes "controller_history (ManagedClusterController on ws rc ifr) E h" "x \<in> set h"
  shows "mc_allowed (ctrlState (NewClusterController on ws rc ifr)) x"
  using assms(1)
proof (rule controller_history_mcE)
  fix wk
  assume "h = calls (wworld wk)" "worker_run (NewClusterController on ws rc ifr) (managedCluster_sync E) wk"
  with assms(2) show ?thesis using managed_cluster_loop.worker_sound by blast
qed

subsection \<open>The configuration every controller runs with\<close>

text \<open>
  Every controller in the process has the certificate files, hosts and kcp configuration the
  process was started with; the nested ones talk to endpoints published by ready workspaces.
\<close>

fun configured :: "process \<Rightarrow> controller_id \<Rightarrow> bool" where
  "configured (bc, hub, opts) (ClusterManagerController rc rh wh) \<longleftrightarrow>
     bc (KCPKubeConfigFile opts) = Inr rc \<and> rh = RegistrationWebhookHost opts \<and> wh = WorkWebhookHost opts"
| "configured (bc, hub, opts) (OrgWorkspaceController cf kf rc ifr) \<longleftrightarrow>
     bc (KCPKubeConfigFile opts) = Inr rc \<and> cf = KCPSigningCertFile opts \<and> kf = KCPSigningKeyFile opts \<and>
     ifr = WorkspaceInformer (Host rc) None"
| "configured (bc, hub, opts) (HubWorkspaceController on cf kf rc ifr) \<longleftrightarrow>
     bc (KCPKubeConfigFile opts) = Inr rc \<and> cf = KCPSigningCertFile opts \<and> kf = KCPSigningKeyFile opts \<and>
     (\<exists>url. ifr = WorkspaceInformer url (Some hubSelector))"
| "configured (bc, hub, opts) (CSRSigningController ws cf kf cl ifr) \<longleftrightarrow>
     cf = KCPSigningCertFile opts \<and> kf = KCPSigningKeyFile opts \<and> ifr = KubeInformer cl \<and>
     (\<exists>url. cl = Kcp url)"
| "configured (bc, hub, opts) (ManagedClusterController on ws rc ifr) \<longleftrightarrow>
     bc (KCPKubeConfigFile opts) = Inr rc \<and> (\<exists>url. ifr = ClusterInformer (Kcp url))"

lemma nested_configured:
  assumes "configured p cid" "controller_history cid E h" "GoController cid' \<in> set h"
  shows "configured p cid'"
proof -
  obtain bc hub opts where p: "p = (bc, hub, opts)" by (cases p)
  show ?thesis
  proof (cases cid)
    case (ClusterManagerController rc rh wh)
    with assms cm_history show ?thesis by fastforce
  next
    case (OrgWorkspaceController cf kf rc ifr)
    with assms p org_history [of cf kf rc ifr E h "GoController cid'"] show ?thesis
      by (auto simp: hub_controller_of_def NewOrgWorkspaceController_def)
  next
    case (HubWorkspaceController on cf kf rc ifr)
    with assms p hub_history [of on cf kf rc ifr E h "GoController cid'"] show ?thesis
      by (auto simp: csr_controller_of_def mc_controller_of_def NewHubWorkspaceController_def)
  next
    case (CSRSigningController ws cf kf cl ifr)
    with assms csr_history show ?thesis by fastforce
  next
    case (ManagedClusterController on ws rc ifr)
    with assms mc_history [of on ws rc ifr E h "GoController cid'"] show ?thesis
      by (auto simp: mc_allowed_def)
  qed
qed

lemma main_configured:
  assumes "GoController cid \<in> set (process_start E p)"
  shows "configured p cid"
proof -
  obtain bc hub opts where p: "p = (bc, hub, opts)" by (cases p)
  with assms have "GoController cid \<in> set (calls (snd (Run E bc hub opts \<lparr>calls = [], ctl = ()\<rparr>)))"
    by (simp add: process_start_def)
  then show ?thesis by (rule Run_controllers) (use p in auto)
qed

lemma running_configured: "running p cid \<Longrightarrow> configured p cid"
  by (induction rule: running.induct) (auto dest: main_configured nested_configured)

subsection \<open>A concrete process\<close>

definition demo_process :: process where
  "demo_process = (\<lambda>_. Inr demo_kcp, demo_kcp, demo_options)"

definition demo_signing :: "csr_ctl controller" where
  "demo_signing = NewCSRSigningController ''ws'' ''tls.crt'' ''tls.key'' (Kcp ''https://kcp:org'')
     (KubeInformer (Kcp ''https://kcp:org''))"

definition demo_csr_worker :: "csr_ctl worker" where
  "demo_csr_worker = first_work demo_signing (csr_sync (demo_env demo_csr)) ''csr1''"

lemma demo_main: "GoController (OrgWorkspaceController ''tls.crt'' ''tls.key'' demo_kcp
    (WorkspaceInformer ''https://kcp'' None)) \<in> set (process_start base_env demo_process)"
  by code_simp

lemma demo_running_org: "running demo_process (OrgWorkspaceController ''tls.crt'' ''tls.key'' demo_kcp
    (WorkspaceInformer ''https://kcp'' None))"
  by (rule running.main [OF demo_main])

lemma demo_running_hub: "running demo_process (HubWorkspaceController ''org'' ''tls.crt'' ''tls.key'' demo_kcp
    (WorkspaceInformer ''https://kcp:org'' (Some hubSelector)))"
  by (rule running.nested [OF demo_running_org controller_history.org [OF demo_org_run [unfolded demo_org_def]]
        demo_org_calls])

lemma demo_running_nested: "running demo_process demo_csr_id" "running demo_process demo_mc_id"
  using running.nested [OF demo_running_hub controller_history.hub [OF demo_hub_run [unfolded demo_hub_def]]]
    demo_hub_calls by blast+

lemma demo_csr_run: "worker_run demo_signing (csr_sync (demo_env demo_csr)) demo_csr_worker"
  unfolding demo_csr_worker_def by (rule first_work_run)

fun created :: "call \<Rightarrow> (certificate \<times> ca_cert) option" where
  "created (CreateCertificate t parent) = Some (t, parent)"
| "created _ = None"

lemma demo_csr_created: "List.map_filter created (calls (wworld demo_csr_worker)) \<noteq> []"
  by code_simp

lemma map_filter_nonempty: "List.map_filter f xs \<noteq> [] \<Longrightarrow> \<exists>x \<in> set xs. \<exists>y. f x = Some y"
  by (auto simp: List.map_filter_def filter_empty_conv)

lemma created_Some: "created x = Some (t, parent) \<Longrightarrow> x = CreateCertificate t parent"
  by (cases x) auto

definition demo_clusters :: "managed_cluster_ctl controller" where
  "demo_clusters = NewClusterController ''org'' ''ws'' demo_kcp (ClusterInformer (Kcp ''https://kcp:org''))"

definition demo_mc_worker :: "managed_cluster_ctl worker" where
  "demo_mc_worker = first_work demo_clusters
     (managedCluster_sync (demo_hub_env\<lparr>env_managedClusterLister := \<lambda>_ _ _. None\<rparr>)) ''c1''"

lemma demo_mc_run: "worker_run demo_clusters
    (managedCluster_sync (demo_hub_env\<lparr>env_managedClusterLister := \<lambda>_ _ _. None\<rparr>)) demo_mc_worker"
  unfolding demo_mc_worker_def by (rule first_work_run)

lemma demo_mc_calls: "NewForConfig ''https://kcp:org'' \<in> set (calls (wworld demo_mc_worker))"
  by code_simp

subsection \<open>Crashes\<close>

text \<open>A controller that can take the process down, and what keeps it from doing so.\<close>

inductive controller_crashes :: "controller_id \<Rightarrow> env \<Rightarrow> bool" where
  cm: "worker_run (NewClusterManagerController rc rh wh) (cm_sync E) wk \<Longrightarrow> wcrashed wk \<Longrightarrow>
    controller_crashes (ClusterManagerController rc rh wh) E"
| org: "worker_run (NewOrgWorkspaceController cf kf rc ifr) (org_sync E) wk \<Longrightarrow> wcrashed wk \<Longrightarrow>
    controller_crashes (OrgWorkspaceController cf kf rc ifr) E"
| hub: "worker_run (NewHubWorkspaceController on cf kf rc ifr) (hub_sync E) wk \<Longrightarrow> wcrashed wk \<Longrightarrow>
    controller_crashes (HubWorkspaceController on cf kf rc ifr) E"
| csr: "worker_run (NewCSRSigningController ws cf kf cl ifr) (csr_sync E) wk \<Longrightarrow> wcrashed wk \<Longrightarrow>
    controller_crashes (CSRSigningController ws cf kf cl ifr) E"
| mc: "worker_run (NewClusterController on ws rc ifr) (managedCluster_sync E) wk \<Longrightarrow> wcrashed wk \<Longrightarrow>
    controller_crashes (ManagedClusterController on ws rc ifr) E"

fun sane :: "env \<Rightarrow> controller_id \<Rightarrow> bool" where
  "sane E (ClusterManagerController rc rh wh) = cm_sane E (ctrlState (NewClusterManagerController rc rh wh))"
| "sane E (OrgWorkspaceController cf kf rc ifr) = org_sane E (ctrlState (NewOrgWorkspaceController cf kf rc ifr))"
| "sane E (HubWorkspaceController on cf kf rc ifr) =
     hub_sane E (ctrlState (NewHubWorkspaceController on cf kf rc ifr))"
| "sane E (CSRSigningController _ _ _ _ _) = True"
| "sane E (ManagedClusterController on ws rc ifr) = mc_sane E (ctrlState (NewClusterController on ws rc ifr))"

text \<open>No controller of the process ever panics in a sane environment; the CSR signing controller needs nothing.\<close>

lemma controllers_never_crash:
  assumes "sane E cid"
  shows "\<not> controller_crashes cid E"
proof
  assume "controller_crashes cid E"
  then show False
  proof cases
    case (cm rc rh wh wk)
    then show False using cm_crash_free.worker_never_crashes [OF cm(2)] assms by auto
  next
    case (org cf kf rc ifr wk)
    then show False using org_crash_free.worker_never_crashes [OF org(2)] assms by (auto simp: org_same_def)
  next
    case (hub on cf kf rc ifr wk)
    then show False using hub_crash_free.worker_never_crashes [OF hub(2) conjI [OF hub_initial]] assms by auto
  next
    case (csr ws cf kf cl ifr wk)
    have "csr_inv E (ctrlState (NewCSRSigningController ws cf kf cl ifr)) (ctrlState (NewCSRSigningController ws cf kf cl ifr))"
      by (rule csr_inv_init) (simp_all add: NewCSRSigningController_def default_ttl_def)
    then show False using csr csr_crash_free.worker_never_crashes [OF csr(2)] by auto
  next
    case (mc on ws rc ifr wk)
    then show False using mc_crash_free.worker_never_crashes [OF mc(2)] assms by auto
  qed
qed

lemma controllers_never_crash_example:
  "\<not> controller_crashes (HubWorkspaceController ''org'' ''tls.crt'' ''tls.key'' demo_kcp
     (WorkspaceInformer ''https://kcp:org'' (Some hubSelector))) demo_hub_env"
  by (rule controllers_never_crash) (simp add: demo_hub_sane)

lemma typed_sane:
  assumes "workspaces_typed E" "\<And>h ns n. env_getService E h Hub ns n \<noteq> Inr []" "scheme_decoder E"
    and "manifests_decode E cid"
  shows "sane E cid"
proof (cases cid)
  case (ClusterManagerController rc rh wh)
  with typed_cm_sane [OF assms(1) _ assms(3)] assms(2,4) show ?thesis by simp
next
  case (HubWorkspaceController on cf kf rc ifr)
  with workspaces_typed_hub [OF assms(1)] assms(4) show ?thesis by simp
next
  case (ManagedClusterController on ws rc ifr)
  with typed_mc_sane [OF assms(3)] assms(4) show ?thesis by (simp only: sane.simps)
qed (simp_all add: workspaces_typed_org [OF assms(1)])

text \<open>Workspaces stay well-typed: what a controller writes back is as well-typed as what it read.\<close>

lemma written_workspace_typed:
  assumes "workspaces_typed E" "\<forall>t. env_parseTime E (env_formatTime E t) \<noteq> None"
    and "controller_history cid E h" "UpdateWorkspaceStatus host ws \<in> set h"
  shows "well_typed E ws"
proof (cases cid)
  case (ClusterManagerController rc rh wh)
  from cm_history [OF assms(3) [unfolded this] assms(4)] obtain applied h' n workspace where
    "env_getWorkspace E h' host n = Inr workspace" "reports E applied workspace ws" by auto
  with assms(1,2) show ?thesis
    using reported_workspace_well_typed by (metis workspaces_typed_def)
next
  case (OrgWorkspaceController cf kf rc ifr)
  from org_history [OF assms(3) [unfolded this] assms(4)] show ?thesis by simp
next
  case (HubWorkspaceController on cf kf rc ifr)
  from hub_history [OF assms(3) [unfolded this] assms(4)] show ?thesis by simp
next
  case (CSRSigningController ws cf kf cl ifr)
  from csr_history [OF assms(3) [unfolded this] assms(4)] show ?thesis by simp
next
  case (ManagedClusterController on ws rc ifr)
  from mc_history [OF assms(3) [unfolded this] assms(4)] show ?thesis by (simp add: mc_allowed_def)
qed

text \<open>A cluster manager controller that reads a well-typed workspace and writes it.\<close>

lemma demo_typed_workspaces: "workspaces_typed (demo_webhook_env\<lparr>env_decode := d\<rparr>)" "workspaces_typed demo_webhook_env"
  by (auto simp: workspaces_typed_def demo_webhook_env_def demo_ws_env_def ToConditionSlice_def
      intro!: demo_workspace_typed)

definition demo_typed_worker :: "cm_ctl worker" where
  "demo_typed_worker = first_work (NewClusterManagerController demo_kcp ''reg'' ''work'') (cm_sync demo_webhook_env) ''kcp-x''"

lemma demo_typed_run:
  "worker_run (NewClusterManagerController demo_kcp ''reg'' ''work'') (cm_sync demo_webhook_env) demo_typed_worker"
  unfolding demo_typed_worker_def by (rule first_work_run)

lemma demo_typed_written:
  "\<exists>ws. UpdateWorkspaceStatus ''https://kcp:org'' ws \<in> set (calls (wworld demo_typed_worker))"
proof -
  have "wworld demo_typed_worker = snd (cm_sync demo_webhook_env ''kcp-x'' demo_cm_world)"
    by (simp add: demo_typed_worker_def first_work_def processNextWorkItem_world eventHandler_def new_worker_def
        queue_add_def NewClusterManagerController_def demo_cm_world_def)
  with demo_webhook_reports show ?thesis by simp
qed

subsection \<open>Properties\<close>



text \<open>C11: workspaces stay well-typed: when every workspace a controller reads has the fields and types the accessors expect, and printed times parse, every workspace it writes back has them too, in any run of any of the five controllers.\<close>

theorem written_workspaces_well_typed:
  assumes "workspaces_typed E" "\<forall>t. env_parseTime E (env_formatTime E t) \<noteq> None"
    and "controller_history cid E h" "UpdateWorkspaceStatus host ws \<in> set h"
  shows "well_typed E ws"
  by (rule written_workspace_typed [OF assms])

theorem written_workspaces_well_typed_witness:
  "\<exists>ws. UpdateWorkspaceStatus ''https://kcp:org'' ws \<in> set (calls (wworld demo_typed_worker)) \<and> well_typed demo_webhook_env ws"
proof -
  from demo_typed_written obtain ws where
    u: "UpdateWorkspaceStatus ''https://kcp:org'' ws \<in> set (calls (wworld demo_typed_worker))" by blast
  have "\<forall>t. env_parseTime demo_webhook_env (env_formatTime demo_webhook_env t) \<noteq> None" by (simp add: demo_webhook_env_def)
  from written_workspaces_well_typed [OF demo_typed_workspaces(2) this controller_history.cm [OF demo_typed_run] u] u
  show ?thesis by blast
qed

subsection \<open>Isolation\<close>

text \<open>The clusters a controller has business with.\<close>

fun in_scope :: "process \<Rightarrow> env \<Rightarrow> controller_id \<Rightarrow> cluster \<Rightarrow> bool" where
  "in_scope (bc, hub, opts) E (ClusterManagerController rc rh wh) t \<longleftrightarrow> t = Hub \<or>
     (\<exists>kcp cm org ws. bc (KCPKubeConfigFile opts) = Inr kcp \<and> cm_target E cm org ws \<and>
        (t = Kcp (Host kcp @ '':'' @ org) \<or> t = Kcp (Host kcp @ '':'' @ org @ '':'' @ ws)))"
| "in_scope (bc, hub, opts) E (OrgWorkspaceController cf kf rc ifr) t \<longleftrightarrow>
     (\<exists>n url. org_ready E (ctrlState (NewOrgWorkspaceController cf kf rc ifr)) n url \<and> t = Kcp url)"
| "in_scope (bc, hub, opts) E (HubWorkspaceController on cf kf rc ifr) t \<longleftrightarrow> t = Hub \<or>
     (\<exists>n wc. hub_ready E (ctrlState (NewHubWorkspaceController on cf kf rc ifr)) n wc \<and> t = Kcp (Host wc))"
| "in_scope (bc, hub, opts) E (CSRSigningController ws cf kf cl ifr) t \<longleftrightarrow> t = cl \<and> t \<noteq> Hub"
| "in_scope (bc, hub, opts) E (ManagedClusterController on ws rc ifr) t \<longleftrightarrow>
     (\<exists>kcp. bc (KCPKubeConfigFile opts) = Inr kcp \<and> (t = Kcp (Host kcp) \<or> t = Kcp (Host kcp @ '':'' @ on)))"

text \<open>C4: no controller of the process sends anything to a cluster it has no business with: the cluster manager controller only to the hub and to the kcp endpoints of the organization and workspace in the annotation of a listed cluster manager, the organization and hub workspace controllers to the hub and to the URLs in the status of their ready workspaces, the signer to its own workspace, and the managed cluster controller to the kcp root and the organization it was started for.\<close>

theorem controllers_isolated:
  assumes "running p cid" "controller_history cid E h" "x \<in> set h" "call_target x = Some t"
  shows "in_scope p E cid t"
proof -
  obtain bc hub opts where p: "p = (bc, hub, opts)" by (cases p)
  from running_configured [OF assms(1)] have cfg: "configured p cid" .
  show ?thesis
  proof (cases cid)
    case (ClusterManagerController rc rh wh)
    from cm_history [OF assms(2) [unfolded this] assms(3)] assms(4) cfg show ?thesis
      unfolding p ClusterManagerController by (cases x) (auto simp: org_endpoint_def NewClusterManagerController_def; blast)+
  next
    case (OrgWorkspaceController cf kf rc ifr)
    from org_history [OF assms(2) [unfolded this] assms(3)] assms(4) show ?thesis
      unfolding p OrgWorkspaceController by (cases x) auto
  next
    case (HubWorkspaceController on cf kf rc ifr)
    from hub_history [OF assms(2) [unfolded this] assms(3)] assms(4) show ?thesis
      unfolding p HubWorkspaceController by (cases x) auto
  next
    case (CSRSigningController ws cf kf cl ifr)
    from csr_history [OF assms(2) [unfolded this] assms(3)] assms(4) cfg show ?thesis
      unfolding p CSRSigningController by (cases x) (auto simp: NewCSRSigningController_def)
  next
    case (ManagedClusterController on ws rc ifr)
    from mc_history [OF assms(2) [unfolded this] assms(3)] assms(4) cfg show ?thesis
      unfolding p ManagedClusterController
      by (cases x) (auto simp: mc_allowed_def NewClusterController_def org_host_def)
  qed
qed

theorem controllers_isolated_witness:
  "in_scope demo_process base_env demo_mc_id (Kcp ''https://kcp:org'')"
  using controllers_isolated [OF demo_running_nested(2) [unfolded demo_mc_id_def]
      controller_history.mc [OF demo_mc_run [unfolded demo_clusters_def]] demo_mc_calls, of "Kcp ''https://kcp:org''"]
  by (simp add: demo_mc_id_def demo_process_def)


subsection \<open>From an organization to its controllers\<close>

lemma one_in_filter: "length (filter P xs) = 1 \<Longrightarrow> \<exists>x \<in> set xs. P x"
  using filter_empty_conv [of P xs] by fastforce

text \<open>What the launches of a controller make run.\<close>

lemma launched_hub_running:
  assumes "running p (OrgWorkspaceController cf kf rc ifr)"
    and "worker_run (NewOrgWorkspaceController cf kf rc ifr) (org_sync E) wk"
    and "length (filter (launches_hub n) (calls (wworld wk))) = 1"
    and "\<And>h ws. env_workspaceLister E h ifr n = Inr ws \<Longrightarrow> GetWorkspaceURL ws = Ok url"
  shows "running p (HubWorkspaceController n cf kf rc (WorkspaceInformer url (Some hubSelector)))"
proof -
  note h = controller_history.org [OF assms(2)]
  from one_in_filter [OF assms(3)] obtain x where x: "x \<in> set (calls (wworld wk))" "launches_hub n x" by blast
  then obtain cf' kf' rc' ifr' where "x = GoController (HubWorkspaceController n cf' kf' rc' ifr')"
    by (cases x rule: launches_hub.cases [of "(n, x)" for n x, simplified]) auto
  with org_history [OF h x(1)] assms(4)
  have "x = GoController (HubWorkspaceController n cf kf rc (WorkspaceInformer url (Some hubSelector)))"
    by (auto simp: org_ready_def hub_controller_of_def NewOrgWorkspaceController_def)
  with running.nested [OF assms(1) h] x(1) show ?thesis by simp
qed

lemma launched_nested_running:
  assumes "running p (HubWorkspaceController on cf kf rc ifr)"
    and "worker_run (NewHubWorkspaceController on cf kf rc ifr) (hub_sync E) wk"
    and "length (filter (launches_csr n) (calls (wworld wk))) = 1" "length (filter (launches_mc n) (calls (wworld wk))) = 1"
    and "\<And>h ws. env_workspaceLister E h ifr n = Inr ws \<Longrightarrow> GetWorkspaceURL ws = Ok url"
  shows "running p (CSRSigningController n cf kf (Kcp url) (KubeInformer (Kcp url)))"
    "running p (ManagedClusterController on n rc (ClusterInformer (Kcp url)))"
proof -
  note h = controller_history.hub [OF assms(2)]
  from one_in_filter [OF assms(3)] obtain x where x: "x \<in> set (calls (wworld wk))" "launches_csr n x" by blast
  then obtain cf' kf' cl ifr' where "x = GoController (CSRSigningController n cf' kf' cl ifr')"
    by (cases x rule: launches_csr.cases [of "(n, x)" for n x, simplified]) auto
  with hub_history [OF h x(1)] assms(5)
  have "x = GoController (CSRSigningController n cf kf (Kcp url) (KubeInformer (Kcp url)))"
    by (auto simp: hub_ready_def csr_controller_of_def mc_controller_of_def NewHubWorkspaceController_def)
  with running.nested [OF assms(1) h] x(1)
  show "running p (CSRSigningController n cf kf (Kcp url) (KubeInformer (Kcp url)))" by simp
  from one_in_filter [OF assms(4)] obtain y where y: "y \<in> set (calls (wworld wk))" "launches_mc n y" by blast
  then obtain on' rc' ifr' where "y = GoController (ManagedClusterController on' n rc' ifr')"
    by (cases y rule: launches_mc.cases [of "(n, x)" for n x, simplified]) auto
  with hub_history [OF h y(1)] assms(5)
  have "y = GoController (ManagedClusterController on n rc (ClusterInformer (Kcp url)))"
    by (auto simp: hub_ready_def csr_controller_of_def mc_controller_of_def NewHubWorkspaceController_def)
  with running.nested [OF assms(1) h] y(1)
  show "running p (ManagedClusterController on n rc (ClusterInformer (Kcp url)))" by simp
qed


lemma main_runs_org:
  assumes "fst (Run E bc hub opts \<lparr>calls = [], ctl = ()\<rparr>) = Ok ()" "bc (KCPKubeConfigFile opts) = Inr kcp"
  shows "running (bc, hub, opts) (OrgWorkspaceController (KCPSigningCertFile opts) (KCPSigningKeyFile opts) kcp
    (WorkspaceInformer (Host kcp) None))"
proof (rule running.main [of _ E])
  from Run_calls [of E bc hub opts "\<lparr>calls = [], ctl = ()\<rparr>"] assms
  have "calls (snd (Run E bc hub opts \<lparr>calls = [], ctl = ()\<rparr>)) = run_calls hub kcp opts" by (auto simp: run_calls_def)
  then show "GoController (OrgWorkspaceController (KCPSigningCertFile opts) (KCPSigningKeyFile opts) kcp
      (WorkspaceInformer (Host kcp) None)) \<in> set (process_start E (bc, hub, opts))"
    by (simp add: process_start_def run_calls_def)
qed



end
