(* ===== verification/Quiescence.thy ===== *)
theory Quiescence
  imports System
begin

section \<open>The process goes quiet\<close>

text \<open>
  For each of the five controllers: an environment in which no sync of it fails any more once
  \<open>N\<close> calls were made, and that its work queue then drains. What is missing, not ready, not
  approved or not applied yet is no error.
\<close>

subsection \<open>The organization workspace controller\<close>

definition org_answer_fine :: "go_error + object \<Rightarrow> bool" where
  "org_answer_fine reply \<longleftrightarrow> (case reply of
     Inl err \<Rightarrow> IsNotFound err
   | Inr ws \<Rightarrow> (\<forall>e. GetWorkspaceType ws \<noteq> Err e \<and> (GetWorkspaceType ws = Ok ''organization'' \<longrightarrow>
       GetWorkspacePhase ws \<noteq> Err e \<and> (GetWorkspacePhase ws = Ok ''Ready'' \<longrightarrow> GetWorkspaceURL ws \<noteq> Err e))))"

definition org_settled :: "nat \<Rightarrow> env \<Rightarrow> org_ctl \<Rightarrow> bool" where
  "org_settled N E c0 \<longleftrightarrow> (\<forall>h. N \<le> length h \<longrightarrow> (\<forall>rc. env_newForConfig E h rc = None) \<and>
     (\<forall>n. org_answer_fine (env_workspaceLister E h (orgWorkspaceLister c0) n)))"

lemma org_sync_no_error:
  assumes "org_settled N E c0" "N \<le> length (calls w)" "org_same c0 (ctl w)"
  shows "fst (org_sync E n w) \<noteq> Err e"
proof -
  from assms(3) have f: "orgWorkspaceLister (ctl w) = orgWorkspaceLister c0" by (simp add: org_same_def)
  let ?w1 = "w\<lparr>calls := calls w @ [ListerGet ''clusterworkspaces'' n]\<rparr>"
  have fine: "org_answer_fine (env_workspaceLister E (calls w) (orgWorkspaceLister c0) n)"
    using assms(1,2) by (simp add: org_settled_def)
  have start: "fst (startOCMHubWorkspaceController E n url ?w1) \<noteq> Err e" for url
    using assms(1,2) by (cases "n \<in> orgWorkspaces (ctl w)") (simp_all add: startOCM_again startOCM_first org_settled_def)
  show ?thesis
  proof (cases "env_workspaceLister E (calls w) (orgWorkspaceLister c0) n")
    case (Inl err)
    with fine show ?thesis by (simp add: org_sync_def prog_simps f org_answer_fine_def)
  next
    case (Inr ws)
    then have "org_sync E n w = org_reconcile E n ws ?w1" by (simp add: org_sync_def prog_simps f)
    also have "fst \<dots> \<noteq> Err e"
      using fine Inr start
      by (auto simp: org_reconcile_def org_answer_fine_def andThen_def tryP_def ofOutcome_def ret_def split: outcome.split)
    finally show ?thesis .
  qed
qed

interpretation org_settling: settling "org_sync E" "\<lambda>w. org_same c0 (ctl w) \<and> org_settled N E c0" N for E c0 N
proof (unfold_locales, goal_cases)
  case (1 w k)
  then show ?case using org_launching.sync_same by blast
next
  case (2 w k)
  then show ?case by (blast intro: org_sync_calls)
next
  case (3 w k e)
  then show ?case using org_sync_no_error by blast
qed

subsection \<open>The managed cluster controller\<close>

definition mc_settled :: "nat \<Rightarrow> env \<Rightarrow> managed_cluster_ctl \<Rightarrow> bool" where
  "mc_settled N E c0 \<longleftrightarrow> mc_sane E c0 \<and> (\<forall>host. apply_works N E (Kcp host)) \<and>
     (\<forall>h. N \<le> length h \<longrightarrow> (\<forall>rc. env_newForConfig E h rc = None) \<and>
        (\<forall>n err. env_managedClusterLister E h (mcClusterLister c0) n = Some err \<longrightarrow> IsNotFound err))"

lemma mc_sync_no_error:
  assumes "mc_settled N E (ctl w)" "N \<le> length (calls w)"
  shows "fst (managedCluster_sync E n w) \<noteq> Err e"
proof -
  let ?w1 = "w\<lparr>calls := calls w @ [ListerGet ''managedclusters'' n]\<rparr>"
  from assms(1) have s: "mc_sane E (ctl w)" "apply_works N E (Kcp host)"
    "N \<le> length h \<Longrightarrow> env_newForConfig E h rc = None" for host h rc
    by (simp_all add: mc_settled_def)
  show ?thesis
  proof (cases "env_managedClusterLister E (calls w) (mcClusterLister (ctl w)) n")
    case (Some err)
    with assms show ?thesis by (simp add: managedCluster_sync_def prog_simps answer_def mc_settled_def)
  next
    case None
    with s(1) have d: "list_all (decodes E NilClient workspace_manifestFiles (org_config (ctl w) n)) orgWorkspaceAuthorizerFiles"
      "list_all (decodes E NilClient workspace_manifestFiles (hub_config (ctl w) n)) hubWorkspaceAuthorizerFiles"
      unfolding mc_sane_def by blast+
    let ?host = "Host (mcKcpRestConfig (ctl w))"
    let ?w2 = "?w1\<lparr>calls := calls ?w1 @ [NewForConfig ?host]\<rparr>"
    let ?ao = "ApplyObjects E (Kcp ?host) NilClient workspace_manifestFiles (org_config (ctl w) n) orgWorkspaceAuthorizerFiles"
    have "fst (?ao ?w2) = Ok ()"
      by (rule ApplyObjects_works [OF s(2) _ authorizer_manifests_render(1) d(1)]) (use assms(2) in simp)
    then obtain w3 where ao: "?ao ?w2 = (Ok (), w3)" by (metis prod.collapse)
    have org: "prepareOrgWorkspaceAuthorizers E n ?w1 = (Ok (), w3)"
      using ao s(3) assms(2) by (simp add: prepareOrgWorkspaceAuthorizers_def newForConfig_def prog_simps)
    with emitsD [OF emits_prepareOrg, of ?w1 "ctl w" E n] obtain cs where
      w3: "calls w3 = calls ?w1 @ cs" "ctl w3 = ctl w" by auto
    have "fst (ApplyObjects E (Kcp (org_host (ctl w))) NilClient workspace_manifestFiles (hub_config (ctl w) n)
        hubWorkspaceAuthorizerFiles (w3\<lparr>calls := calls w3 @ [NewForConfig (org_host (ctl w))]\<rparr>)) = Ok ()"
      by (rule ApplyObjects_works [OF s(2) _ authorizer_manifests_render(2) d(2)]) (use assms(2) w3 in simp)
    then have "fst (prepareHubWorkspaceAuthorizers E n w3) = Ok ()"
      using s(3) assms(2) w3 by (simp add: prepareHubWorkspaceAuthorizers_def newForConfig_def prog_simps Let_def)
    moreover have "managedCluster_sync E n w = prepareHubWorkspaceAuthorizers E n w3"
      using None org by (simp add: managedCluster_sync_def prog_simps answer_def)
    ultimately show ?thesis by simp
  qed
qed

interpretation mc_settling: settling "managedCluster_sync E" "\<lambda>w. ctl w = c0 \<and> mc_settled N E c0" N for E c0 N
proof (unfold_locales, goal_cases)
  case (1 w k)
  then show ?case using emitsD [OF managed_cluster_loop.sync_emits, of w c0] by blast
next
  case (2 w k)
  show ?case by (rule mc_sync_calls)
next
  case (3 w k e)
  then show ?case using mc_sync_no_error by blast
qed

subsection \<open>The CSR signing controller\<close>

definition csr_answer_fine :: "nat \<Rightarrow> env \<Rightarrow> csr_ctl \<Rightarrow> go_error + certificate_signing_request \<Rightarrow> bool" where
  "csr_answer_fine N E c0 reply \<longleftrightarrow> (case reply of
     Inl err \<Rightarrow> IsNotFound err
   | Inr csr \<Rightarrow> csr_ignored csr \<or> validAPIServerClientUsages (csrUsages csr) \<noteq> None \<or>
       (\<exists>cr ca. signing_works N E c0 csr cr ca))"

definition csr_settled :: "nat \<Rightarrow> env \<Rightarrow> csr_ctl \<Rightarrow> bool" where
  "csr_settled N E c0 \<longleftrightarrow> (\<forall>h. N \<le> length h \<longrightarrow> (\<forall>csr. env_updateCSRStatus E h (csrKubeClient c0) csr = None) \<and>
     (\<forall>n. csr_answer_fine N E c0 (env_csrLister E h (csrListerOf c0) n)))"

lemma csr_sync_no_error:
  assumes "csr_settled N E c0" "N \<le> length (calls w)" "csr_inv E c0 (ctl w)"
  shows "fst (csr_sync E n w) \<noteq> Err e"
proof -
  note f = csr_inv_fields [OF assms(3)]
  let ?w1 = "w\<lparr>calls := calls w @ [ListerGet ''certificatesigningrequests'' n]\<rparr>"
  have fine: "csr_answer_fine N E c0 (env_csrLister E (calls w) (csrListerOf c0) n)"
    using assms(1,2) by (simp add: csr_settled_def)
  show ?thesis
  proof (cases "env_csrLister E (calls w) (csrListerOf c0) n")
    case (Inl err)
    with fine show ?thesis by (simp add: csr_sync_def prog_simps f csr_answer_fine_def)
  next
    case (Inr csr)
    with csr_sync_listed [of E w n csr] have eq: "csr_sync E n w = csr_reconcile E (csrKubeClient c0) csr ?w1"
      by (simp add: f)
    consider (ignored) "csr_ignored csr" | (usages) err where "\<not> csr_ignored csr" "validAPIServerClientUsages (csrUsages csr) = Some err"
      | (signable) cr ca where "\<not> csr_ignored csr" "validAPIServerClientUsages (csrUsages csr) = None" "signing_works N E c0 csr cr ca"
      using fine Inr by (auto simp: csr_answer_fine_def)
    then show ?thesis
    proof cases
      case ignored
      then show ?thesis by (auto simp: eq csr_reconcile_def csr_ignored_def ret_def)
    next
      case usages
      with assms(1,2) show ?thesis
        by (simp add: eq csr_reconcile_live timeNow_def updateCSRStatus_def prog_simps Let_def answer_def csr_settled_def)
    next
      case signable
      with sign_and_update_works [OF signable(3) _ _ signable(2), of ?w1] assms(2,3) show ?thesis
        by (auto simp: eq csr_reconcile_live)
    qed
  qed
qed

interpretation csr_settling: settling "csr_sync E" "\<lambda>w. csr_inv E c0 (ctl w) \<and> csr_settled N E c0" N for E c0 N
proof (unfold_locales, goal_cases)
  case (1 w k)
  then show ?case using emitsD(1) [OF csr_sync_emits] by blast
next
  case (2 w k)
  then show ?case by (blast intro: csr_sync_calls)
next
  case (3 w k e)
  then show ?case using csr_sync_no_error by blast
qed

subsection \<open>The cluster manager controller\<close>

definition cm_answer_fine :: "go_error + cluster_manager \<Rightarrow> bool" where
  "cm_answer_fine reply \<longleftrightarrow> (case reply of
     Inl err \<Rightarrow> IsNotFound err
   | Inr cm \<Rightarrow> (\<forall>wid. map_of (cmAnnotations cm) workspaceAnnotation = Some wid \<longrightarrow> length (split_on CHR '':'' wid) = 2))"

definition workspace_answer_fine :: "env \<Rightarrow> go_error + object \<Rightarrow> bool" where
  "workspace_answer_fine E reply \<longleftrightarrow> (case reply of
     Inl err \<Rightarrow> IsNotFound err
   | Inr ws \<Rightarrow> (\<exists>old. old_conditions E ws = Ok old) \<and> map_of ws ''status'' \<noteq> Some JNull)"

definition cm_settled :: "nat \<Rightarrow> env \<Rightarrow> cm_ctl \<Rightarrow> bool" where
  "cm_settled N E c0 \<longleftrightarrow> cm_sane E c0 \<and> cm_calls_work N E \<and> (\<forall>h. N \<le> length h \<longrightarrow>
     (\<forall>n. cm_answer_fine (env_clusterManagerLister E h n)) \<and>
     (\<forall>host n. workspace_answer_fine E (env_getWorkspace E h host n)) \<and>
     (\<forall>host ws. env_updateWorkspaceStatus E h host ws = None))"

lemma updateWorksapceStatus_no_error:
  assumes "cm_settled N E c0" "N \<le> length (calls w)"
  shows "fst (updateWorksapceStatus E org n c w) = Ok ()"
proof -
  let ?host = "org_endpoint (ctl w) org"
  let ?h = "calls w @ [NewForConfig ?host]"
  from assms have nf: "env_newForConfig E (calls w) rc = None" for rc
    by (simp add: cm_settled_def cm_calls_work_def)
  from assms have g: "workspace_answer_fine E (env_getWorkspace E ?h ?host n)"
    and upd: "N \<le> length h \<Longrightarrow> env_updateWorkspaceStatus E h ?host ws = None" for h ws
    by (simp_all add: cm_settled_def)
  show ?thesis
  proof (cases "env_getWorkspace E ?h ?host n")
    case (Inl err)
    with g nf show ?thesis
      by (simp add: updateWorksapceStatus_def newForConfig_def prog_simps Let_def workspace_answer_fine_def)
  next
    case (Inr ws)
    with g obtain old where old: "old_conditions E ws = Ok old" "map_of ws ''status'' \<noteq> Some JNull"
      by (auto simp: workspace_answer_fine_def)
    note eq = updateWorksapceStatus_read [OF nf Inr]
    let ?w1 = "w\<lparr>calls := calls w @ [NewForConfig ?host, GetWorkspace ?host n]\<rparr>"
    obtain now w2 cs where new: "setStatusCondition E old c ?w1 = (Ok (SetStatusCondition now old c), w2)"
      and w2: "calls w2 = calls ?w1 @ cs"
      using setStatusCondition_result by blast
    from status_can_be_set [OF old] obtain ws' where
      "SetNestedSlice ws (ToConditionSlice E (SetStatusCondition now old c)) ''status'' [''conditions''] = Inr ws'" by blast
    with new w2 upd assms(2) show ?thesis
      by (simp add: eq old_conditions_read [OF old(1)] prog_simps answer_def)
  qed
qed

lemma cm_sync_no_error:
  assumes "cm_settled N E (ctl w)" "N \<le> length (calls w)"
  shows "fst (cm_sync E n w) \<noteq> Err e"
proof -
  let ?w1 = "w\<lparr>calls := calls w @ [ListerGet ''clustermanagers'' n]\<rparr>"
  from assms have fine: "cm_answer_fine (env_clusterManagerLister E (calls w) n)"
    and sane: "cm_sane E (ctl w)" "cm_calls_work N E" by (simp_all add: cm_settled_def)
  show ?thesis
  proof (cases "env_clusterManagerLister E (calls w) n")
    case (Inl err)
    with fine show ?thesis by (simp add: cm_sync_def prog_simps cm_answer_fine_def)
  next
    case (Inr cm)
    then have eq: "cm_sync E n w = cm_reconcile E cm ?w1" by (simp add: cm_sync_def prog_simps)
    have status: "fst (updateWorksapceStatus E org ws c ?w1) = Ok ()" for org ws c
      by (rule updateWorksapceStatus_no_error [OF assms(1)]) (use assms(2) in simp)
    have hooks: "fst (applyWebhooks E m wid ?w1) = Ok ()" for m wid
      by (rule applyWebhooks_works [OF sane(2,1)]) (use assms(2) in simp_all)
    have "N \<le> length (calls (snd (applyWebhooks E m wid ?w1)))" for m wid
      using applyWebhooks_calls [of E m wid ?w1] assms(2) by auto
    then have status': "fst (updateWorksapceStatus E org ws c (snd (applyWebhooks E m wid ?w1))) = Ok ()" for org ws c m wid
      by (rule updateWorksapceStatus_no_error [OF assms(1)])
    have "fst (andThen (applyWebhooks E m wid) (\<lambda>_. updateWorksapceStatus E org ws c) ?w1) = Ok ()" for m wid org ws c
    proof -
      obtain w2 where "applyWebhooks E m wid ?w1 = (Ok (), w2)" using hooks [of m wid] by (metis prod.collapse)
      with status' [of org ws c m wid] show ?thesis by (simp add: andThen_def tryP_def)
    qed
    with fine Inr status show ?thesis
      by (auto simp: eq cm_reconcile_def cm_answer_fine_def Let_def ret_def split: option.split)
  qed
qed

interpretation cm_settling: settling "cm_sync E" "\<lambda>w. ctl w = c0 \<and> cm_settled N E c0" N for E c0 N
proof (unfold_locales, goal_cases)
  case (1 w k)
  then show ?case using emitsD [OF cm_loop.sync_emits, of w c0] by blast
next
  case (2 w k)
  show ?case by (rule cm_sync_calls)
next
  case (3 w k e)
  then show ?case using cm_sync_no_error by blast
qed

subsection \<open>All controllers\<close>

fun settled :: "nat \<Rightarrow> env \<Rightarrow> controller_id \<Rightarrow> bool" where
  "settled N E (ClusterManagerController rc rh wh) = cm_settled N E (ctrlState (NewClusterManagerController rc rh wh))"
| "settled N E (OrgWorkspaceController cf kf rc ifr) = org_settled N E (ctrlState (NewOrgWorkspaceController cf kf rc ifr))"
| "settled N E (HubWorkspaceController on cf kf rc ifr) = hub_settled N E (ctrlState (NewHubWorkspaceController on cf kf rc ifr))"
| "settled N E (CSRSigningController ws cf kf cl ifr) = csr_settled N E (ctrlState (NewCSRSigningController ws cf kf cl ifr))"
| "settled N E (ManagedClusterController on ws rc ifr) = mc_settled N E (ctrlState (NewClusterController on ws rc ifr))"

fun controller_drains :: "nat \<Rightarrow> env \<Rightarrow> controller_id \<Rightarrow> bool" where
  "controller_drains N E (ClusterManagerController rc rh wh) = queue_drains (NewClusterManagerController rc rh wh) (cm_sync E) N"
| "controller_drains N E (OrgWorkspaceController cf kf rc ifr) = queue_drains (NewOrgWorkspaceController cf kf rc ifr) (org_sync E) N"
| "controller_drains N E (HubWorkspaceController on cf kf rc ifr) =
     queue_drains (NewHubWorkspaceController on cf kf rc ifr) (hub_sync E) N"
| "controller_drains N E (CSRSigningController ws cf kf cl ifr) =
     queue_drains (NewCSRSigningController ws cf kf cl ifr) (csr_sync E) N"
| "controller_drains N E (ManagedClusterController on ws rc ifr) =
     queue_drains (NewClusterController on ws rc ifr) (managedCluster_sync E) N"



end
