(* ===== verification/Spec2Isabelle.thy ===== *)
theory Spec2Isabelle
  imports Quiescence
begin

text \<open>
  A model of the kcp-integration controllers, and the theorems that make them correct.

  \<^bold>\<open>The program.\<close> One process integrates Open Cluster Management with kcp. \<^verbatim>\<open>Run\<close>
  (\<^verbatim>\<open>src/pkg/controllers/manager.go\<close>) starts two controllers. The organization workspace controller
  (\<^verbatim>\<open>workspace/orgworkspace.go\<close>) starts one hub workspace controller per ready organization. A hub
  workspace controller (\<^verbatim>\<open>workspace/hubworkspace.go\<close>) applies a \<^verbatim>\<open>ClusterManager\<close> and its services on
  the hub for every ready workspace of its organization. The cluster manager controller
  (\<^verbatim>\<open>clustermanager/clustermanager.go\<close>) installs the webhooks in the workspace and writes the condition
  \<^verbatim>\<open>ClusterManagerApplied\<close> into its status; the hub workspace controller reads that condition and
  starts two more controllers for the workspace: one that signs certificate signing requests
  (\<^verbatim>\<open>workspace/csr/signer.go\<close>, \<^verbatim>\<open>workspace/csr/ca.go\<close>) and one that applies the RBAC objects of its
  managed clusters (\<^verbatim>\<open>workspace/managedcluster.go\<close>). All of them use \<^verbatim>\<open>src/pkg/helpers/helpers.go\<close>.

  \<^bold>\<open>How it is modelled.\<close> A Go function that can fail is a program of \<open>Prelude\<close>: a function from a
  world to an outcome (\<open>Ok\<close>, \<open>Err\<close> for a returned error, \<open>Panic\<close>) and a new world. The world is the
  controller's struct and the list of all interactions made so far: calls to API servers, informer
  caches, files, the clock, random numbers, x509 and goroutines. What answers them is the record
  \<open>env\<close> of \<open>Api\<close>, one function per interaction, which may look at the whole history, so an answer
  can change at any time; nothing is assumed of it except where a theorem says so. \<open>env\<close> also holds
  the library functions that are not under \<^verbatim>\<open>src/pkg\<close>: PEM, x509 and TLS parsing, the scheme's
  decoder, time formatting, \<^verbatim>\<open>clientcmd.Write\<close>, the iteration order of a Go map. Definitions carry
  the names of the Go functions; where one Go function is long its tail is a definition of its own
  (\<open>csr_reconcile\<close>, \<open>sign_and_update\<close>, \<open>hub_reconcile\<close>, \<open>org_reconcile\<close>, \<open>cm_reconcile\<close>,
  \<open>writeCondition\<close>).

  \<^bold>\<open>The theories.\<close>
  \<^item> \<open>Prelude\<close>: errors, outcomes, programs; \<open>emits\<close> (which interactions a program can make), \<open>leads\<close>
    (which world it ends in) and \<open>safe\<close> (it does not panic), with one rule per
    combinator; \<^verbatim>\<open>strings.Split\<close>, decimal numbers, base64 and its decoder.
  \<^item> \<open>Json\<close>, \<open>Conditions\<close>: the apimachinery functions on unstructured objects and on status conditions
    that the sources call.
  \<^item> \<open>KeyUsages\<close>, \<open>CA\<close>, \<open>Signer\<close>: \<^verbatim>\<open>csr/ca.go\<close> and \<^verbatim>\<open>csr/signer.go\<close>. The interface \<^verbatim>\<open>SigningPolicy\<close>
    is the locale \<open>signing_policy\<close>, interpreted on \<open>permissive_apply\<close>.
  \<^item> \<open>CsrSafety\<close>, \<open>CsrLiveness\<close>: what the CSR signing controller can do at all, and what it achieves.
  \<^item> \<open>Api\<close>, \<open>Helpers\<close>, \<open>Manifests\<close>, \<open>Apply\<close>: the Kubernetes objects and the environment,
    \<^verbatim>\<open>helpers.go\<close>, the thirteen embedded YAML templates line by line, and their rendering and
    application (\<open>ApplyObjects\<close>, \<open>applyClusterManager\<close>).
  \<^item> \<open>Scheme\<close>: the kinds \<^verbatim>\<open>helpers.go\<close> registers with its scheme, the type a manifest names in its first
    lines, and what the decoder is relied on for: text that names a registered type makes an object of it.
  \<^item> \<open>Factory\<close>: the work loop of library-go's controller factory. A run of a worker is any sequence of
    informer events and work items. \<open>loop_invariant\<close>, \<open>reconciler\<close> and \<open>crash_free\<close> are the contracts
    between the loop and a \<^verbatim>\<open>sync\<close>; each is interpreted on the controllers.
  \<^item> \<open>Retry\<close>: schedules of events and work items, and the contract \<open>outage\<close> of a sync whose failures are
    temporary (a \<open>sublocale\<close> of the budgeted contract \<open>retried\<close>), and \<open>settling\<close>, of one whose errors stop for every
    name, so that its queue drains; both interpreted on all five controllers.
  \<^item> \<open>Launcher\<close>: an abstract machine for what a controller with a map of started controllers may launch,
    the contract \<open>launching\<close> (each sync is matched by at most one step of the machine) and its extension
    \<open>launching_exactly\<close> (every step can be taken), both interpreted in \<open>HubWorkspace\<close> and \<open>OrgWorkspace\<close>.
  \<^item> \<open>ManagedCluster\<close>, \<open>HubWorkspace\<close>, \<open>OrgWorkspace\<close>, \<open>ClusterManagerCtl\<close>: the other controllers.
  \<^item> \<open>WorkspaceTypes\<close>: a schema of the workspace objects the accessors expect, with progress (well-typed
    workspaces are read without a panic) and preservation (what is written is well-typed again); the kinds of the
    embedded manifests.
  \<^item> \<open>Authorizers\<close>: what the managed cluster controller achieves.
  \<^item> \<open>Manager\<close>: options, flags, \<open>Run\<close>, \<open>main\<close>, version, its metric and command tree (\<^verbatim>\<open>manager.go\<close>, \<^verbatim>\<open>pkg/cmd\<close>,
    \<^verbatim>\<open>pkg/version\<close>, \<^verbatim>\<open>cmd\<close>).
  \<^item> \<open>System\<close>: the controllers of one process, closed under \<open>started by a running controller\<close>, and
    the configuration each of them runs with.
  \<^item> \<open>Quiescence\<close>: for each controller, what makes its errors stop, and that its queue drains then.

  \<^bold>\<open>What the theorems show.\<close> Safety over every run: which certificates are signed and for
  whom, which clusters each controller talks to, when nested controllers are started and that this happens once,
  and that the status is written after the webhooks. Refinement: through their maps and launches the hub
  workspace and the organization workspace controller are launchers, machines that serve one ready name at a
  time as a whole, and in a steady environment the organization workspace controller can do all a launcher can;
  that nested controllers are started once is proved of the abstract machine. Type soundness: in an environment
  of well-typed workspaces and decodable manifests no controller panics, and the workspaces stay well-typed.
  Progress, through outages: a request, an organization, a hub workspace, a cluster manager or a managed cluster
  whose name is queued is dealt with after a bounded number of work items, whatever other names arrive, once its
  calls stop failing; composed, a started process comes to run the controllers of every ready workspace.
  Termination: once nothing fails any more every controller's queue empties. Function by function: the outcome
  on every branch, errors included; equivalence of the loops with loop-free specifications; what the embedded
  manifests are and in which order they are applied; round trips through JSON, annotations and base64; clamped
  durations. Some theorems state behaviour of the code that its comments do not promise or that looks
  unintended: the Failed condition appended again at each sync, node ports that move with every sync, cluster
  manager names that collide, a failed cluster manager reported as applied, a build information metric that is
  never exposed.

  \<^bold>\<open>Bounds.\<close> There is no fuel: every loop of the code is structural recursion or a list function, and a
  controller's endless loop is the inductive relation \<open>worker_run\<close>. In the progress theorems \<open>N\<close> is the length of
  the history from which on the calls succeed; every sync makes a call, so at most \<open>N\<close> attempts fail, and with \<open>A\<close>
  the names that are queued or arrive, \<open>N * card A\<close> work items and the place of the name in the queue are
  enough. Durations, ports and key usage masks are 64-bit words, expiration seconds a 32-bit word, with the
  wrap-around of Go; times are integers of nanoseconds. A JSON integer read back through \<^verbatim>\<open>encoding/json\<close> is
  rounded to the nearest float64. The concurrent controllers share no memory, so each has its own world, and
  the interleaving of their calls is in the arbitrary answers of the environment.

  \<^bold>\<open>Not modelled.\<close> Log lines, and event recording beyond the name of an event; the scheme's codec, of which
  only \<open>scheme_decoder\<close> is assumed; the bodies of library-go's \<^verbatim>\<open>resourceapply\<close> functions, clients, informers,
  \<^verbatim>\<open>controllercmd\<close> and cobra's \<^verbatim>\<open>Execute\<close>, which the sources only call; the periodic resync, which is an informer
  event like any other; back-off times of the rate limiter; the stop of a context; \<^verbatim>\<open>dependencymagnet\<close> and the
  other vendored packages. Every function, type and variable of \<^verbatim>\<open>src/pkg\<close> and \<^verbatim>\<open>src/cmd\<close> is modelled.
\<close>

section \<open>Properties that span components\<close>

text \<open>What the cluster manager controller writes, as the hub workspace controller reads it.\<close>

lemma reported_looks_applied:
  assumes "\<forall>t. env_parseTime E (env_formatTime E t) \<noteq> None"
    and "isClusterManagerApplied cm = Some c" "reports E c ws ws'"
    and "NestedString ws [''status'', ''phase''] = Inr (Some phase)"
    and "NestedString ws [''status'', ''baseURL''] = Inr (Some url)"
  shows "IsWorkspaceStatusConditionTrue E ws' ''ClusterManagerApplied'' = Ok True \<and>
    GetWorkspacePhase ws' = Ok phase \<and> GetWorkspaceURL ws' = Ok url"
proof -
  from assms(3) obtain old now where s: "SetNestedSlice ws
      (ToConditionSlice E (SetStatusCondition now old c)) ''status'' [''conditions''] = Inr ws'"
    by (auto simp: reports_def)
  note c = isClusterManagerApplied_Some [OF assms(2)]
  have "IsStatusConditionTrue (SetStatusCondition now old c) ''ClusterManagerApplied''"
    using meta.true_in_set [of now old c] c by (simp add: IsStatusConditionTrue_true_in)
  with written_conditions_read [OF assms(1) s]
  have "IsWorkspaceStatusConditionTrue E ws' ''ClusterManagerApplied'' = Ok True" by simp
  moreover have "GetWorkspacePhase ws' = Ok phase" "GetWorkspaceURL ws' = Ok url"
    using SetNestedSlice_sibling [OF s] assms(4,5)
    by (simp_all add: GetWorkspacePhase_def GetWorkspaceURL_def found_or_def)
  ultimately show ?thesis by blast
qed

text \<open>A workspace the cluster manager controller has just written, and a hub that lists it.\<close>

definition demo_handoff_env :: "object \<Rightarrow> env" where
  "demo_handoff_env ws = base_env\<lparr>env_parseTime := \<lambda>_. Some 0, env_decode := \<lambda>_. Some (demo_object ''m''),
     env_workspaceLister := \<lambda>_ _ _. Inr ws\<rparr>"

lemma demo_handoff_conditions: "ToConditionSlice (demo_handoff_env ws) cs = ToConditionSlice base_env cs"
  by (simp add: ToConditionSlice_def condition_toUnstructured_def demo_handoff_env_def)

lemma demo_handoff_reported: "\<exists>ws'. reports (demo_handoff_env ws') c (demo_workspace []) ws'"
proof -
  obtain ws' where "SetNestedSlice (demo_workspace []) (ToConditionSlice base_env (SetStatusCondition 5 [] c))
      ''status'' [''conditions''] = Inr ws'"
    by (simp add: demo_workspace_def SetNestedSlice_def)
  moreover have "SetStatusCondition 5 [] c \<noteq> []" by (simp add: SetStatusCondition_def FindStatusCondition_def)
  moreover have "old_conditions (demo_handoff_env ws') (demo_workspace []) = Ok []"
    by (simp add: demo_workspace_def old_conditions_def NestedSlice_def)
  ultimately show ?thesis unfolding reports_def demo_handoff_conditions by blast
qed

lemma demo_handoff_status:
  "NestedString (demo_workspace cs) [''status'', ''phase''] = Inr (Some ''Ready'')"
  "NestedString (demo_workspace cs) [''status'', ''baseURL''] = Inr (Some ''https://kcp:org'')"
  by (simp_all add: demo_workspace_def NestedString_def)

lemma demo_applied_condition: "\<exists>c. isClusterManagerApplied demo_cm = Some c"
  using isClusterManagerApplied_None [of demo_cm] by (auto simp: demo_cm_def FindStatusCondition_def)

lemma demo_handoff_times: "\<forall>t. env_parseTime (demo_handoff_env ws) (env_formatTime (demo_handoff_env ws) t) \<noteq> None"
  by (simp add: demo_handoff_env_def)

text \<open>C1: every certificate that any CSR signing controller of the process creates, in any run, is a client certificate that is no CA, carries no extension of the request, is valid for at most thirty days and no longer than the signer, is signed by the certificate in the file the process was started with, and answers an approved, labelled, unsigned request with a valid signature, for the subject and key of that request.\<close>

theorem system_certificates:
  assumes "running (buildConfig, hubKubeConfig, opts) (CSRSigningController ws cf kf cl ifr)"
    and "controller_history (CSRSigningController ws cf kf cl ifr) E h"
    and "CreateCertificate t parent \<in> set h"
  shows "\<not> IsCA t \<and> Extensions t = [] \<and> ExtraExtensions t = [] \<and> ExtKeyUsage t = [ExtKeyUsageClientAuth] \<and>
    NotBefore t < NotAfter t \<and> NotAfter t - NotBefore t \<le> sint (30 * 24 * Hour) \<and>
    NotAfter t \<le> caNotAfter parent \<and>
    (\<exists>h certPEM. env_readFile E h (KCPSigningCertFile opts) = Inr certPEM \<and>
       env_parseCertsPEM E certPEM = Inr [parent]) \<and>
    (\<exists>h name csr x509cr cr. env_csrLister E h (KubeInformer cl) name = Inr csr \<and> isApproved csr \<and>
       map_of (csrLabels csr) spokeClusterNameLabel \<noteq> None \<and>
       csrSignerName csr = KubeAPIServerClientSignerName \<and> csrCertificate csr = [] \<and>
       parseCSR E (csrRequest csr) = Inr x509cr \<and> env_parseCertificateRequest E (crRaw x509cr) = Inr cr \<and>
       env_checkSignature E cr = None \<and> Subject t = crSubject cr \<and> PublicKey t = crPublicKey cr)"
proof -
  let ?c = "ctrlState (NewCSRSigningController ws cf kf cl ifr)"
  have f: "csrCertFile ?c = cf" "csrListerOf ?c = ifr" by (simp_all add: NewCSRSigningController_def)
  from running_configured [OF assms(1)] have cfg: "cf = KCPSigningCertFile opts" "ifr = KubeInformer cl" by auto
  from csr_history [OF assms(2,3)] have a: "configured_signer E ?c parent" "bounded_by (caNotAfter parent) t"
      "valid_period t" "client_certificate t"
    and "\<exists>csr. signable E ?c csr \<and> certificate_for E csr t" by auto
  then obtain csr where csr: "signable E ?c csr" "certificate_for E csr t" by blast
  from a(1) f(1) cfg(1) have "\<exists>h certPEM. env_readFile E h (KCPSigningCertFile opts) = Inr certPEM \<and>
      env_parseCertsPEM E certPEM = Inr [parent]" by (auto simp: configured_signer_def)
  moreover from csr f(2) cfg(2) have "\<exists>h name csr x509cr cr. env_csrLister E h (KubeInformer cl) name = Inr csr \<and>
       isApproved csr \<and> map_of (csrLabels csr) spokeClusterNameLabel \<noteq> None \<and>
       csrSignerName csr = KubeAPIServerClientSignerName \<and> csrCertificate csr = [] \<and>
       parseCSR E (csrRequest csr) = Inr x509cr \<and> env_parseCertificateRequest E (crRaw x509cr) = Inr cr \<and>
       env_checkSignature E cr = None \<and> Subject t = crSubject cr \<and> PublicKey t = crPublicKey cr"
    unfolding signable_def certificate_for_def keeps_identity_def cert_template_def
    by (elim exE conjE) (intro exI conjI; simp)
  ultimately show ?thesis
    using a(2-4) by (auto simp: bounded_by_def valid_period_def client_certificate_def)
qed

theorem system_certificates_witness:
  "\<exists>t parent. CreateCertificate t parent \<in> set (calls (wworld demo_csr_worker)) \<and>
     \<not> IsCA t \<and> ExtKeyUsage t = [ExtKeyUsageClientAuth] \<and> NotAfter t \<le> caNotAfter parent"
proof -
  from map_filter_nonempty [OF demo_csr_created] obtain t parent where
    c: "CreateCertificate t parent \<in> set (calls (wworld demo_csr_worker))"
    by (force dest: created_Some)
  from system_certificates [OF demo_running_nested(1) [unfolded demo_csr_id_def demo_process_def]
      controller_history.csr [OF demo_csr_run [unfolded demo_signing_def]] c] c
  show ?thesis by blast
qed

text \<open>C12: a workspace whose status the cluster manager controller has written looks applied, with the same phase and URL, to the hub workspace controller.\<close>

theorem applied_reaches_hub:
  assumes "\<forall>t. env_parseTime E (env_formatTime E t) \<noteq> None"
    and "isClusterManagerApplied cm = Some c" "reports E c ws ws'"
    and "NestedString ws [''status'', ''phase''] = Inr (Some phase)"
    and "NestedString ws [''status'', ''baseURL''] = Inr (Some url)"
  shows "IsWorkspaceStatusConditionTrue E ws' ''ClusterManagerApplied'' = Ok True \<and>
    GetWorkspacePhase ws' = Ok phase \<and> GetWorkspaceURL ws' = Ok url"
  by (rule reported_looks_applied [OF assms])

theorem applied_reaches_hub_witness:
  "\<exists>ws'. GetWorkspaceURL ws' = Ok ''https://kcp:org'' \<and>
     IsWorkspaceStatusConditionTrue (demo_handoff_env ws') ws' ''ClusterManagerApplied'' = Ok True"
proof -
  from demo_applied_condition obtain c where c: "isClusterManagerApplied demo_cm = Some c" by blast
  from demo_handoff_reported obtain ws' where "reports (demo_handoff_env ws') c (demo_workspace []) ws'" by blast
  from applied_reaches_hub [OF demo_handoff_times c this demo_handoff_status] show ?thesis by blast
qed

text \<open>C13: a ready workspace whose status the cluster manager controller has written gets both its controllers, each started once, from the hub workspace controller that lists it, whatever fails on the way: if its calls stop failing once N of them have been made, N rounds of its work queue and the workspace's turn in the next are enough.\<close>

theorem reported_workspace_gets_controllers:
  assumes "\<forall>t. env_parseTime E (env_formatTime E t) \<noteq> None"
    and "isClusterManagerApplied cm = Some c" "reports E c ws ws'"
    and "NestedString ws [''status'', ''phase''] = Inr (Some ''Ready'')"
    and "NestedString ws [''status'', ''baseURL''] = Inr (Some url)"
    and "worker_run (NewHubWorkspaceController on cf kf rc ifr) (hub_sync E) wk"
    and "n \<in> set (wqueue wk)" "\<And>h. env_workspaceLister E h ifr n = Inr ws'"
    and "hub_sane E (ctrlState (NewHubWorkspaceController on cf kf rc ifr))" "hub_calls_work N E"
    and "finite A" "set (wqueue wk) \<union> events_of steps \<subseteq> A"
    and "N * card A + place n (wqueue wk) < work_count steps"
  shows "length (filter (launches_csr n) (calls (wworld
      (scheduled (NewHubWorkspaceController on cf kf rc ifr) (hub_sync E) steps wk)))) = 1 \<and>
    length (filter (launches_mc n) (calls (wworld
      (scheduled (NewHubWorkspaceController on cf kf rc ifr) (hub_sync E) steps wk)))) = 1"
proof -
  have "hubWorkspaceLister (ctrlState (NewHubWorkspaceController on cf kf rc ifr)) = ifr"
    by (simp add: NewHubWorkspaceController_def)
  with assms(8,10) reported_looks_applied [OF assms(1-5)]
  have "hub_works N E (ctrlState (NewHubWorkspaceController on cf kf rc ifr)) n"
    by (simp add: hub_works_def)
  from hub_starts_after_outage [OF assms(6,7,9) this assms(11-13)] show ?thesis by blast
qed

theorem reported_workspace_gets_controllers_witness:
  "\<exists>ws'. length (filter (launches_csr ''ws'') (calls (wworld
     (scheduled demo_hub (hub_sync (demo_handoff_env ws')) [Some ''ws2'', None] demo_hub_waiting)))) = 1"
proof -
  from demo_applied_condition obtain c where c: "isClusterManagerApplied demo_cm = Some c" by blast
  from demo_handoff_reported obtain ws' where r: "reports (demo_handoff_env ws') c (demo_workspace []) ws'" by blast
  let ?E = "demo_handoff_env ws'"
  note ok = reported_looks_applied [OF demo_handoff_times c r demo_handoff_status]
  have "env_workspaceLister ?E h i m = Inr ws'" for h i m by (simp add: demo_handoff_env_def)
  moreover from this ok have "hub_sane ?E (ctrlState demo_hub)"
    by (simp add: hub_sane_def) (simp add: list_all_iff decodes_def demo_handoff_env_def)
  moreover have "hub_calls_work 0 ?E"
    by (simp add: hub_calls_work_def demo_handoff_env_def base_env_def apply_works_def)
  moreover have "set (wqueue demo_hub_waiting) \<union> events_of [Some ''ws2'', None] \<subseteq> {''ws'', ''ws2''}"
    "''ws'' \<in> set (wqueue demo_hub_waiting)"
    "0 * card {''ws'', ''ws2''} + place ''ws'' (wqueue demo_hub_waiting) < work_count [Some ''ws2'', None]"
    by (auto simp: demo_hub_waiting_queue)
  ultimately show ?thesis
    using reported_workspace_gets_controllers [OF demo_handoff_times c r demo_handoff_status
        demo_hub_waiting_run [unfolded demo_hub_def]]
    unfolding demo_hub_def by (metis finite.emptyI finite.insertI)
qed



text \<open>The cluster manager manifest renders with that name and with that annotation under the key the cluster manager controller reads.\<close>

lemma cluster_manager_manifest_annotated:
  "\<exists>rest. render (clusterManager_config c n data) yaml_cluster_manager = Some (concat (map (\<lambda>l. l @ [newline])
     [''apiVersion: operator.open-cluster-management.io/v1'', ''kind: ClusterManager'', ''metadata:'',
      ''  name: '' @ clusterManagerName (hubOrgWorkspaceName c) n, ''  annotations:'',
      ''    \"'' @ workspaceAnnotation @ ''\": \"'' @ hubOrgWorkspaceName c @ '':'' @ n @ ''\"'']) @ rest)"
  by (simp add: yaml_cluster_manager_def clusterManager_config_def)

text \<open>Two workspaces whose names run together, such as a-b/c and a/b-c, share a cluster manager: when the first exists the second writes nothing, so it is never annotated and never deployed.\<close>

lemma cluster_manager_name_collision:
  assumes "env_getClusterManager E (calls w) (clusterManagerName ''a-b'' ''c'') = Inr existing"
    and "cmName required = clusterManagerName ''a'' ''b-c''" "cmSpec existing = cmSpec required"
  shows "applyClusterManager E HubClient required w =
    (Ok (), w\<lparr>calls := calls w @ [GetClusterManager (clusterManagerName ''a-b'' ''c'')]\<rparr>)"
proof -
  have "cmName required = clusterManagerName ''a-b'' ''c''"
    using assms(2) by (simp add: clusterManagerName_def)
  with assms show ?thesis by (simp add: applyClusterManager_unchanged)
qed

lemma cluster_manager_name_collision_example:
  "applyClusterManager (base_env\<lparr>env_getClusterManager := \<lambda>_ _. Inr demo_cm\<rparr>) HubClient
     (demo_cm\<lparr>cmName := clusterManagerName ''a'' ''b-c'', cmAnnotations := [(workspaceAnnotation, ''a:b-c'')]\<rparr>)
     \<lparr>calls = [], ctl = ()\<rparr> = (Ok (), \<lparr>calls = [GetClusterManager (clusterManagerName ''a-b'' ''c'')], ctl = ()\<rparr>)"
  by (subst cluster_manager_name_collision [of _ _ demo_cm]) (simp_all add: demo_cm_def)

text \<open>The kinds of the hub manifests, in the order they are applied.\<close>

definition hub_kinds :: "string list" where
  "hub_kinds = [''Namespace'', ''Secret'', ''Service'', ''Service'', ''ClusterManager'']"

text \<open>C31: every embedded manifest is found, renders with the struct it is given whatever its values are, and then names a type that is registered with the scheme and has a case in the type switch of ApplyObjects: these, in this order.\<close>

theorem all_manifests_typed:
  "list_all2 (renders_as workspace_manifestFiles (clusterManager_config hc n data)) hubFiles hub_kinds \<and>
   list_all2 (renders_as workspace_manifestFiles (org_config mc n)) orgWorkspaceAuthorizerFiles
     [''ClusterRole'', ''ClusterRoleBinding''] \<and>
   list_all2 (renders_as workspace_manifestFiles (hub_config mc n)) hubWorkspaceAuthorizerFiles
     [''ClusterRole'', ''ClusterRoleBinding''] \<and>
   list_all2 (renders_as clustermanager_manifestFiles (webhook_config cc regPort workPort caBundle)) webhookFiles
     [''ValidatingWebhookConfiguration'', ''MutatingWebhookConfiguration'', ''ValidatingWebhookConfiguration'',
      ''ValidatingWebhookConfiguration'']"
  unfolding hub_kinds_def
  by (intro conjI renders_as_kinds hub_file_kinds authorizer_file_kinds webhook_file_kinds hub_manifests_render
      authorizer_manifests_render webhook_manifests_render)

lemma map_object_kind_hub:
  assumes "map object_kind objs = map Some hub_kinds"
  shows "\<exists>ns sec reg work cm. objs = [Namespace ns, Secret sec, Service reg, Service work, ClusterManager cm]"
  using assms by (auto simp: hub_kinds_def map_eq_Cons_conv object_kind_cases)

text \<open>C20: for a hub workspace the code attempts exactly its namespace, its secret, its two services and then its cluster manager, in that order and on the hub only, whatever the answers are.\<close>

theorem hub_manifests_applied:
  assumes "scheme_decoder E" "env_clientcmdWrite E (buildKubeconfig rc) = Inr data"
    and "list_all (decodes E HubClient workspace_manifestFiles (clusterManager_config (next_ports (ctl w)) n data)) hubFiles"
  shows "\<exists>ns sec reg work (cm :: cluster_manager) cs. calls (snd (prepareClusterManager E n rc w)) = calls w @ cs \<and>
    filter is_attempt cs = [ApplyResource Hub (Namespace ns), ApplyResource Hub (Secret sec),
      ApplyResource Hub (Service reg), ApplyResource Hub (Service work), GetClusterManager (cmName cm)]"
proof -
  let ?config = "clusterManager_config (next_ports (ctl w)) n data"
  from create_objects_no_panic [OF hub_manifests_render assms(3)] obtain objs where
    objs: "create_objects E workspace_manifestFiles ?config hubFiles = Ok objs" by blast
  obtain ns sec reg work cm where "objs = [Namespace ns, Secret sec, Service reg, Service work, ClusterManager cm]"
    using map_object_kind_hub [unfolded hub_kinds_def, OF created_kinds [OF assms(1) objs hub_file_kinds]] by blast
  moreover obtain cs where
    "calls (snd (ApplyObjects E Hub HubClient workspace_manifestFiles ?config hubFiles (w\<lparr>ctl := next_ports (ctl w)\<rparr>))) =
       calls w @ cs" "filter is_attempt cs = concat (map (attempt_calls Hub) objs)"
    using ApplyObjects_attempts [OF objs, of Hub "w\<lparr>ctl := next_ports (ctl w)\<rparr>"] by auto
  ultimately show ?thesis by (auto simp add: prepareClusterManager_state [OF assms(2)])
qed

theorem hub_manifests_applied_witness:
  "\<exists>ns sec reg work (cm :: cluster_manager). filter is_attempt (calls (snd (prepareClusterManager (demo_hub_env\<lparr>env_decode := demo_decoder\<rparr>)
     ''ws'' demo_kcp \<lparr>calls = [], ctl = ctrlState demo_hub\<rparr>))) = [ApplyResource Hub (Namespace ns),
       ApplyResource Hub (Secret sec), ApplyResource Hub (Service reg), ApplyResource Hub (Service work),
       GetClusterManager (cmName cm)]"
proof -
  let ?E = "demo_hub_env\<lparr>env_decode := demo_decoder\<rparr>"
  obtain data where d: "env_clientcmdWrite ?E (buildKubeconfig demo_kcp) = Inr data"
    by (simp add: demo_hub_env_def demo_ws_env_def base_env_def)
  have e: "env_decode ?E = demo_decoder" by simp
  from hub_manifests_applied [OF demo_scheme_decoder [OF e] d demo_decoder_decodes_all [OF e hub_file_kinds],
      of "''ws''" "\<lparr>calls = [], ctl = ctrlState demo_hub\<rparr>"]
  show ?thesis by auto
qed


end
